theory Spec2Isabelle
  imports Complex_Main
begin

section \<open>Python values the simulation relies on\<close>

text \<open>
  The three source files (\<^verbatim>\<open>highway_sim1.py\<close>, \<^verbatim>\<open>highway_sim_V2.py\<close> and
  \<^verbatim>\<open>sim_client_requests.py\<close>) are Python. Integers are unbounded (\<open>int\<close>), every
  list access is checked, and an index below zero counts from the end of the list.
  The exceptions the simulation code can raise are values of \<open>error\<close>; no source
  file catches an exception, so a raised error ends the run.
\<close>

datatype error = IndexError | ZeroDivisionError | AttributeError

definition ebind :: "error + 'a \<Rightarrow> ('a \<Rightarrow> error + 'b) \<Rightarrow> error + 'b" where
  "ebind m f = (case m of Inl e \<Rightarrow> Inl e | Inr x \<Rightarrow> f x)"

text \<open>\<open>py_index xs i\<close> is the list position that Python's \<^verbatim>\<open>xs[i]\<close> addresses.\<close>

definition py_index :: "'a list \<Rightarrow> int \<Rightarrow> error + nat" where
  "py_index xs i =
     (let n = int (length xs); j = (if i < 0 then n + i else i)
      in if 0 \<le> j \<and> j < n then Inr (nat j) else Inl IndexError)"

definition py_get :: "'a list \<Rightarrow> int \<Rightarrow> error + 'a" where
  "py_get xs i = ebind (py_index xs i) (\<lambda>j. Inr (xs ! j))"

definition py_set :: "'a list \<Rightarrow> int \<Rightarrow> 'a \<Rightarrow> error + 'a list" where
  "py_set xs i v = ebind (py_index xs i) (\<lambda>j. Inr (xs[j := v]))"

text \<open>
  \<open>range_up a n\<close> is \<^verbatim>\<open>range(a, a + n)\<close> and \<open>range_down a n\<close> is
  \<^verbatim>\<open>range(a, a - n, -1)\<close>, as the lists of the values the loop variable takes.
\<close>

fun range_up :: "int \<Rightarrow> nat \<Rightarrow> int list" where
  "range_up a 0 = []"
| "range_up a (Suc n) = a # range_up (a + 1) n"

fun range_down :: "int \<Rightarrow> nat \<Rightarrow> int list" where
  "range_down a 0 = []"
| "range_down a (Suc n) = a # range_down (a - 1) n"

section \<open>Configuration constants\<close>

definition FAST :: int where "FAST = 5"
definition SLOW :: int where "SLOW = 4"
definition HIGHWAY_LENGTH :: int where "HIGHWAY_LENGTH = 110"
definition NUM_LANES :: int where "NUM_LANES = 4"
definition NUM_DEF_LANES :: int where "NUM_DEF_LANES = 3"
definition NUM_SD_LANES :: int where "NUM_SD_LANES = 1"
definition HUMAN_SAFE_FOLLOW :: int where "HUMAN_SAFE_FOLLOW = 4"
definition SDC_SAFE_FOLLOW :: int where "SDC_SAFE_FOLLOW = 2"
definition LANE_CHANGE_SAFE_BACK :: int where "LANE_CHANGE_SAFE_BACK = FAST"
definition LANE_CHANGE_SAFE_FORWARD :: int where "LANE_CHANGE_SAFE_FORWARD = FAST"
definition LEFT_LANE_CHANGE_PROBABILITY :: real where "LEFT_LANE_CHANGE_PROBABILITY = 1 / 2"
definition CAR_PROBABILITY :: real where "CAR_PROBABILITY = 1 / 4"
definition FAST_PROBABILITY :: real where "FAST_PROBABILITY = 1 / 2"
definition IS_HUMAN_PROBABILITY :: real where "IS_HUMAN_PROBABILITY = 1 / 2"
definition DRUNK_PROBABILITY :: real where "DRUNK_PROBABILITY = 3 / 100"
definition DRUNK_CRASH_PROB :: real where "DRUNK_CRASH_PROB = 1 / 100"
definition CRASH_PROB :: real where "CRASH_PROB = 1 / 1000"

section \<open>The highway grid\<close>

text \<open>
  A cell holds \<^verbatim>\<open>EMPTY\<close> (\<open>None\<close>) or a reference to a \<^verbatim>\<open>Driver\<close> object
  (\<open>Some r\<close>, with \<open>r\<close> the object's address in the store of the simulation).
  \<open>highway\<close> is the \<^verbatim>\<open>Highway\<close> of \<^verbatim>\<open>highway_sim1.py\<close>; the two later files add
  their lane counts to it. The field \<^verbatim>\<open>length\<close> is \<open>len\<close> here, and the methods
  \<^verbatim>\<open>get\<close> and \<^verbatim>\<open>set\<close> are \<open>get_cell\<close> and \<open>set_cell\<close>.
\<close>

type_synonym cell = "nat option"

record highway =
  road :: "cell list list"
  len :: int

record highway_V2 = highway +
  num_lanes :: int

record highway_C = highway +
  num_def_lanes :: int
  num_sd_lanes :: int

definition get_cell :: "'a highway_scheme \<Rightarrow> int \<Rightarrow> int \<Rightarrow> error + cell" where
  "get_cell hw lane index = ebind (py_get (road hw) lane) (\<lambda>row. py_get row index)"

definition set_cell :: "'a highway_scheme \<Rightarrow> int \<Rightarrow> int \<Rightarrow> cell \<Rightarrow> error + 'a highway_scheme" where
  "set_cell hw lane index v =
     ebind (py_index (road hw) lane) (\<lambda>l.
     ebind (py_set (road hw ! l) index v) (\<lambda>row.
       Inr (hw\<lparr>road := (road hw)[l := row]\<rparr>)))"

text \<open>
  \<^verbatim>\<open>safe_distance_within\<close> is the same text in all three files. \<open>sdw_loop\<close> is its
  \<^verbatim>\<open>for\<close> loop: \<open>i\<close> is the loop variable, \<open>n\<close> the number of iterations left and
  \<open>x\<close> the counter.
\<close>

fun sdw_loop :: "'a highway_scheme \<Rightarrow> int \<Rightarrow> int \<Rightarrow> int \<Rightarrow> nat \<Rightarrow> int \<Rightarrow> error + int" where
  "sdw_loop hw lane k i 0 x = Inr x"
| "sdw_loop hw lane k i (Suc n) x =
     (if i \<ge> len hw then Inr k
      else ebind (get_cell hw lane i) (\<lambda>c.
        if c \<noteq> None then Inr x else sdw_loop hw lane k (i + 1) n (x + 1)))"

definition safe_distance_within :: "'a highway_scheme \<Rightarrow> int \<Rightarrow> int \<Rightarrow> int \<Rightarrow> error + int" where
  "safe_distance_within hw lane index k = sdw_loop hw lane k (index + 1) (nat k) 0"

text \<open>
  The grid a constructor builds: every lane is a list of \<open>len\<close> cells. \<open>cell_at\<close>
  reads a cell at an index that is in range.
\<close>

definition wf_highway :: "'a highway_scheme \<Rightarrow> bool" where
  "wf_highway hw \<longleftrightarrow> 0 \<le> len hw \<and> (\<forall>row \<in> set (road hw). int (length row) = len hw)"

definition valid_lane :: "'a highway_scheme \<Rightarrow> int \<Rightarrow> bool" where
  "valid_lane hw lane \<longleftrightarrow> 0 \<le> lane \<and> lane < int (length (road hw))"

definition cell_at :: "'a highway_scheme \<Rightarrow> int \<Rightarrow> int \<Rightarrow> cell" where
  "cell_at hw lane index = road hw ! nat lane ! nat index"


text \<open>
  The constructors of the two later files also make the lane counts agree with the
  grid. \<open>lane_empty\<close> says that no cell of a lane is occupied, and \<open>wrap\<close> is the
  in-range index that Python reads for an index that may be negative.
\<close>

definition wf_highway_V2 :: "'a highway_V2_scheme \<Rightarrow> bool" where
  "wf_highway_V2 hw \<longleftrightarrow> wf_highway hw \<and> num_lanes hw = int (length (road hw))"

definition wf_highway_C :: "'a highway_C_scheme \<Rightarrow> bool" where
  "wf_highway_C hw \<longleftrightarrow> wf_highway hw \<and> 0 \<le> num_def_lanes hw \<and> 0 \<le> num_sd_lanes hw \<and>
     num_def_lanes hw + num_sd_lanes hw = int (length (road hw))"

definition lane_empty :: "'a highway_scheme \<Rightarrow> int \<Rightarrow> bool" where
  "lane_empty hw lane \<longleftrightarrow> (\<forall>c \<in> set (road hw ! nat lane). c = None)"

definition wrap :: "'a highway_scheme \<Rightarrow> int \<Rightarrow> int" where
  "wrap hw k = (if k < 0 then len hw + k else k)"

text \<open>
  \<open>put_cell hw lane index v\<close> is the grid \<open>hw\<close> with the cell \<open>(lane, index)\<close>
  replaced by \<open>v\<close>: what \<^verbatim>\<open>set\<close> produces at an index that is in range.
\<close>

definition put_cell :: "'a highway_scheme \<Rightarrow> int \<Rightarrow> int \<Rightarrow> cell \<Rightarrow> 'a highway_scheme" where
  "put_cell hw lane index v =
     hw\<lparr>road := (road hw)[nat lane := (road hw ! nat lane)[nat index := v]]\<rparr>"

subsection \<open>The adjacent-lane safety check\<close>

text \<open>
  After the boundary guard, \<^verbatim>\<open>safe_right_lane_change\<close> and
  \<^verbatim>\<open>safe_left_lane_change\<close> of \<^verbatim>\<open>highway_sim_V2.py\<close> and
  \<^verbatim>\<open>sim_client_requests.py\<close> run the same three steps on the neighbour lane \<open>nl\<close>
  (\<^verbatim>\<open>lane + 1\<close> or \<^verbatim>\<open>lane - 1\<close>): the adjacent cell, the loop over the cells
  behind and the loop over the cells ahead. No step returns early; each one reads
  \<^verbatim>\<open>self.road[nl][k]\<close> and clears the flag when the cell is occupied.
\<close>

fun scan_cells :: "'a highway_scheme \<Rightarrow> int \<Rightarrow> int list \<Rightarrow> bool \<Rightarrow> error + bool" where
  "scan_cells hw nl [] safe = Inr safe"
| "scan_cells hw nl (k # ks) safe =
     ebind (get_cell hw nl k) (\<lambda>c. scan_cells hw nl ks (if c \<noteq> None then False else safe))"

definition lane_change_scan :: "'a highway_scheme \<Rightarrow> int \<Rightarrow> int \<Rightarrow> error + bool" where
  "lane_change_scan hw nl i =
     ebind (scan_cells hw nl [i] True) (\<lambda>s1.
     ebind (scan_cells hw nl (range_down (i - 1) (nat LANE_CHANGE_SAFE_BACK)) s1) (\<lambda>s2.
       scan_cells hw nl (range_up (i + 1) (nat LANE_CHANGE_SAFE_FORWARD)) s2))"

definition safe_right_lane_change_V2 :: "'a highway_V2_scheme \<Rightarrow> int \<Rightarrow> int \<Rightarrow> error + bool" where
  "safe_right_lane_change_V2 hw lane i =
     (if lane = num_lanes hw - 1 then Inr False else lane_change_scan hw (lane + 1) i)"

definition safe_right_lane_change_C :: "'a highway_C_scheme \<Rightarrow> int \<Rightarrow> int \<Rightarrow> error + bool" where
  "safe_right_lane_change_C hw lane i =
     (if lane = num_def_lanes hw - 1 then Inr False else lane_change_scan hw (lane + 1) i)"

definition safe_left_lane_change :: "'a highway_scheme \<Rightarrow> int \<Rightarrow> int \<Rightarrow> error + bool" where
  "safe_left_lane_change hw lane i =
     (if lane = 0 then Inr False else lane_change_scan hw (lane - 1) i)"

text \<open>
  \<^verbatim>\<open>highway_sim1.py\<close> has two lanes, \<^verbatim>\<open>LEFT = 0\<close> and \<^verbatim>\<open>RIGHT = 1\<close>, and its
  checks read three cells joined by \<^verbatim>\<open>and\<close>, which stops at the first occupied one.
\<close>

definition LEFT :: int where "LEFT = 0"
definition RIGHT :: int where "RIGHT = 1"

definition three_cells_free :: "'a highway_scheme \<Rightarrow> int \<Rightarrow> int \<Rightarrow> error + bool" where
  "three_cells_free hw nl i =
     ebind (get_cell hw nl i) (\<lambda>a. if a \<noteq> None then Inr False else
     ebind (get_cell hw nl (i + 1)) (\<lambda>b. if b \<noteq> None then Inr False else
     ebind (get_cell hw nl (i + 2)) (\<lambda>c. Inr (c = None))))"

definition safe_right_lane_change_1 :: "'a highway_scheme \<Rightarrow> int \<Rightarrow> error + bool" where
  "safe_right_lane_change_1 hw i = three_cells_free hw RIGHT i"

definition safe_left_lane_change_1 :: "'a highway_scheme \<Rightarrow> int \<Rightarrow> error + bool" where
  "safe_left_lane_change_1 hw i = three_cells_free hw LEFT i"

subsection \<open>Constructors\<close>

definition Highway_1 :: "int \<Rightarrow> highway" where
  "Highway_1 l = \<lparr>road = [replicate (nat l) None, replicate (nat l) None], len = l\<rparr>"

definition Highway_V2 :: "int \<Rightarrow> int \<Rightarrow> highway_V2" where
  "Highway_V2 l n =
     \<lparr>road = replicate (nat n) (replicate (nat l) None), len = l, num_lanes = n\<rparr>"

definition Highway_C :: "int \<Rightarrow> int \<Rightarrow> int \<Rightarrow> highway_C" where
  "Highway_C l nd ns =
     \<lparr>road = replicate (nat (nd + ns)) (replicate (nat l) None), len = l,
      num_def_lanes = nd, num_sd_lanes = ns\<rparr>"

section \<open>Drivers\<close>

datatype desire = CRUISE | LANE_CHANGE | LANE_CHANGE_LEFT | LANE_CHANGE_RIGHT

text \<open>
  \<open>driver\<close> is the \<^verbatim>\<open>Driver\<close> of \<^verbatim>\<open>highway_sim_V2.py\<close> (its field \<^verbatim>\<open>id\<close> is
  \<open>car_id\<close>); \<^verbatim>\<open>sim_client_requests.py\<close> adds \<^verbatim>\<open>is_drunk\<close>. \<^verbatim>\<open>avg_speed\<close> is a
  Python float; it is a real number here, so the rounding of the division is not
  modelled.
\<close>

record driver =
  car_id :: int
  desire :: desire
  is_human :: bool
  speed :: int
  safe_follow :: int
  arrive_time :: int
  final_time :: int
  travel_time :: int
  final_dist :: int
  avg_speed :: real

record driver_C = driver +
  is_drunk :: bool

definition Driver :: "int \<Rightarrow> int \<Rightarrow> int \<Rightarrow> bool \<Rightarrow> driver" where
  "Driver cid sp arrive human =
     \<lparr>car_id = cid, desire = CRUISE, is_human = human, speed = sp,
      safe_follow = (if human then HUMAN_SAFE_FOLLOW else SDC_SAFE_FOLLOW),
      arrive_time = arrive, final_time = 0, travel_time = 0, final_dist = 0,
      avg_speed = real_of_int sp\<rparr>"

definition Driver_C :: "int \<Rightarrow> int \<Rightarrow> int \<Rightarrow> bool \<Rightarrow> bool \<Rightarrow> driver_C" where
  "Driver_C cid sp arrive human drunk =
     \<lparr>car_id = cid, desire = CRUISE, is_human = human, speed = sp,
      safe_follow = (if human then HUMAN_SAFE_FOLLOW else SDC_SAFE_FOLLOW),
      arrive_time = arrive, final_time = 0, travel_time = 0, final_dist = 0,
      avg_speed = real_of_int sp, is_drunk = drunk\<rparr>"

record exit_record =
  out_id :: int
  out_speed :: int
  out_is_human :: bool
  out_arrive_time :: int
  out_final_time :: int
  out_travel_time :: int
  out_final_dist :: int
  out_avg_speed :: real

definition output_data :: "'a driver_scheme \<Rightarrow> exit_record" where
  "output_data d =
     \<lparr>out_id = car_id d, out_speed = speed d, out_is_human = is_human d,
      out_arrive_time = arrive_time d, out_final_time = final_time d,
      out_travel_time = travel_time d, out_final_dist = final_dist d,
      out_avg_speed = avg_speed d\<rparr>"

section \<open>The simulation state\<close>

text \<open>
  \<open>simulation\<close> is the \<^verbatim>\<open>Simulation\<close> object (its field \<^verbatim>\<open>road\<close> is \<open>hwy\<close>)
  together with what the Python run time keeps for it: \<open>heap\<close> is the store of the
  \<^verbatim>\<open>Driver\<close> objects, \<open>next_ref\<close> the address of the next object created, and
  \<open>draws\<close> the number of calls of \<^verbatim>\<open>random.random()\<close> made so far. The values those
  calls return are a parameter \<open>rng\<close> of every function that draws: call number \<open>n\<close>
  returns \<open>rng n\<close>. \<^verbatim>\<open>sim_client_requests.py\<close> adds the list \<^verbatim>\<open>crashes\<close>.
\<close>

record ('h, 'd) simulation =
  hwy :: 'h
  time_steps :: int
  current_step :: int
  num_cars :: int
  data :: "exit_record list"
  heap :: "nat \<Rightarrow> 'd"
  next_ref :: nat
  draws :: nat

record ('h, 'd) simulation_C = "('h, 'd) simulation" +
  crashes :: "int list"

type_synonym sim_V2 = "(highway_V2, driver) simulation"
type_synonym sim_C = "(highway_C, driver_C) simulation_C"

definition Simulation_V2 :: "int \<Rightarrow> sim_V2" where
  "Simulation_V2 ts =
     \<lparr>hwy = Highway_V2 HIGHWAY_LENGTH NUM_LANES, time_steps = ts, current_step = 0,
      num_cars = 0, data = [], heap = (\<lambda>_. Driver 0 0 0 True), next_ref = 0, draws = 0\<rparr>"

definition Simulation_C :: "int \<Rightarrow> sim_C" where
  "Simulation_C ts =
     \<lparr>hwy = Highway_C HIGHWAY_LENGTH NUM_DEF_LANES NUM_SD_LANES, time_steps = ts,
      current_step = 0, num_cars = 0, data = [],
      heap = (\<lambda>_. Driver_C 0 0 0 True False), next_ref = 0, draws = 0, crashes = []\<rparr>"

text \<open>\<^verbatim>\<open>self.road.set(lane, i, v)\<close> and \<^verbatim>\<open>driver.desire = v\<close> on the state.\<close>

definition set_road ::
  "int \<Rightarrow> int \<Rightarrow> cell \<Rightarrow> ('a highway_scheme, 'd, 'z) simulation_scheme
     \<Rightarrow> error + ('a highway_scheme, 'd, 'z) simulation_scheme" where
  "set_road lane i v s = ebind (set_cell (hwy s) lane i v) (\<lambda>hw. Inr (s\<lparr>hwy := hw\<rparr>))"

definition set_desire ::
  "nat \<Rightarrow> desire \<Rightarrow> ('h, 'b driver_scheme, 'z) simulation_scheme
     \<Rightarrow> ('h, 'b driver_scheme, 'z) simulation_scheme" where
  "set_desire r v s = s\<lparr>heap := (heap s)(r := (heap s r)\<lparr>desire := v\<rparr>)\<rparr>"

subsection \<open>Leaving the highway\<close>

text \<open>
  The first block of \<^verbatim>\<open>sim_driver\<close>, the same text in \<^verbatim>\<open>highway_sim_V2.py\<close> and
  \<^verbatim>\<open>sim_client_requests.py\<close>, for the driver object \<open>r\<close> read from \<open>(lane, i)\<close>.
  The division raises when the travel time is zero.
\<close>

definition leave_highway ::
  "int \<Rightarrow> int \<Rightarrow> nat \<Rightarrow> ('a highway_scheme, 'b driver_scheme, 'z) simulation_scheme
     \<Rightarrow> error + ('a highway_scheme, 'b driver_scheme, 'z) simulation_scheme" where
  "leave_highway lane i r s =
     ebind (set_road lane i None s) (\<lambda>s1.
       let d = heap s1 r;
           d1 = d\<lparr>final_time := current_step s1\<rparr>;
           d2 = d1\<lparr>final_dist := HIGHWAY_LENGTH\<rparr>;
           d3 = d2\<lparr>travel_time := final_time d2 - arrive_time d2\<rparr>
       in if travel_time d3 = 0 then Inl ZeroDivisionError
          else let d4 = d3\<lparr>avg_speed := real_of_int (final_dist d3) / real_of_int (travel_time d3)\<rparr>
               in Inr (s1\<lparr>heap := (heap s1)(r := d4), data := data s1 @ [output_data d4]\<rparr>))"


section \<open>The tick engine of \<^verbatim>\<open>highway_sim_V2.py\<close>\<close>

definition sim_cruise_V2 :: "int \<Rightarrow> int \<Rightarrow> sim_V2 \<Rightarrow> error + sim_V2" where
  "sim_cruise_V2 lane i s =
     ebind (get_cell (hwy s) lane i) (\<lambda>c.
       case c of None \<Rightarrow> Inl AttributeError
       | Some r \<Rightarrow>
         let d = heap s r in
         ebind (safe_distance_within (hwy s) lane i (speed d + safe_follow d)) (\<lambda>x.
         ebind (if x = speed d + safe_follow d then
                  set_road lane (i + speed d) (Some r) s
                else if x > safe_follow d then
                  set_road lane (i + x - safe_follow d) (Some r) (set_desire r LANE_CHANGE s)
                else
                  set_road lane (i + 1) (Some r) (set_desire r LANE_CHANGE s)) (\<lambda>s1.
           set_road lane i None s1)))"

text \<open>
  \<open>decide_direction_V2\<close> is the block under the comment "Decides if a car that wants
  to do a lane change will go left or right", for the value \<open>rv\<close> drawn before it;
  \<open>perform_V2\<close> is the block under "Performs lane change if necessary then calls
  cruise method".
\<close>

definition decide_direction_V2 :: "real \<Rightarrow> int \<Rightarrow> int \<Rightarrow> nat \<Rightarrow> sim_V2 \<Rightarrow> error + sim_V2" where
  "decide_direction_V2 rv lane i r s =
     (if desire (heap s r) = LANE_CHANGE \<and> rv \<le> LEFT_LANE_CHANGE_PROBABILITY then
        ebind (safe_left_lane_change (hwy s) lane i) (\<lambda>l.
          if l then Inr (set_desire r LANE_CHANGE_LEFT s)
          else ebind (safe_right_lane_change_V2 (hwy s) lane i) (\<lambda>rt.
            if rt then Inr (set_desire r LANE_CHANGE_RIGHT s) else Inr s))
      else if desire (heap s r) = LANE_CHANGE \<and> rv > LEFT_LANE_CHANGE_PROBABILITY then
        ebind (safe_right_lane_change_V2 (hwy s) lane i) (\<lambda>rt.
          if rt then Inr (set_desire r LANE_CHANGE_RIGHT s)
          else ebind (safe_left_lane_change (hwy s) lane i) (\<lambda>l.
            if l then Inr (set_desire r LANE_CHANGE_LEFT s) else Inr s))
      else Inr s)"

definition perform_V2 :: "int \<Rightarrow> int \<Rightarrow> nat \<Rightarrow> sim_V2 \<Rightarrow> error + sim_V2" where
  "perform_V2 lane i r s =
     (if desire (heap s r) = LANE_CHANGE_RIGHT then
        ebind (set_road (lane + 1) i (Some r) s) (\<lambda>s1.
        ebind (set_road lane i None s1) (\<lambda>s2.
          sim_cruise_V2 (lane + 1) i (set_desire r CRUISE s2)))
      else if desire (heap s r) = LANE_CHANGE_LEFT then
        ebind (set_road (lane - 1) i (Some r) s) (\<lambda>s1.
        ebind (set_road lane i None s1) (\<lambda>s2.
          sim_cruise_V2 (lane - 1) i (set_desire r CRUISE s2)))
      else if desire (heap s r) = CRUISE \<or> desire (heap s r) = LANE_CHANGE then
        sim_cruise_V2 lane i s
      else Inr s)"

definition sim_driver_V2 :: "(nat \<Rightarrow> real) \<Rightarrow> int \<Rightarrow> int \<Rightarrow> sim_V2 \<Rightarrow> error + sim_V2" where
  "sim_driver_V2 rng lane i s =
     ebind (get_cell (hwy s) lane i) (\<lambda>c.
       case c of None \<Rightarrow> Inl AttributeError
       | Some r \<Rightarrow>
         if speed (heap s r) + i \<ge> len (hwy s) - 1 then leave_highway lane i r s
         else
           let rv = rng (draws s); s1 = s\<lparr>draws := draws s + 1\<rparr>
           in ebind (decide_direction_V2 rv lane i r s1) (perform_V2 lane i r))"

text \<open>
  \<^verbatim>\<open>gen_new_drivers\<close>: \<open>gen_lane_V2\<close> is the body of the loop over the lanes, with the
  running \<^verbatim>\<open>current_car_id\<close> as \<open>cid\<close>. \<open>new_driver\<close> creates the object and stores
  the reference to it in the entry cell.
\<close>

definition new_driver ::
  "'d \<Rightarrow> int \<Rightarrow> ('a highway_scheme, 'd, 'z) simulation_scheme
     \<Rightarrow> error + ('a highway_scheme, 'd, 'z) simulation_scheme" where
  "new_driver d lane s =
     set_road lane 0 (Some (next_ref s))
       (s\<lparr>heap := (heap s)(next_ref s := d), next_ref := Suc (next_ref s)\<rparr>)"

definition gen_lane_V2 :: "(nat \<Rightarrow> real) \<Rightarrow> int \<Rightarrow> int \<Rightarrow> sim_V2 \<Rightarrow> error + (int \<times> sim_V2)" where
  "gen_lane_V2 rng lane cid s =
     (let r1 = rng (draws s); s1 = s\<lparr>draws := draws s + 1\<rparr> in
      if r1 < CAR_PROBABILITY then
        let r2 = rng (draws s1); s2 = s1\<lparr>draws := draws s1 + 1\<rparr>;
            human = (r2 < IS_HUMAN_PROBABILITY);
            r3 = rng (draws s2); s3 = s2\<lparr>draws := draws s2 + 1\<rparr>;
            sp = (if r3 < FAST_PROBABILITY then FAST else SLOW)
        in ebind (new_driver (Driver cid sp (current_step s3) human) lane s3) (\<lambda>s4.
             Inr (cid + 1, s4))
      else Inr (cid, s1))"

fun gen_loop_V2 ::
  "(nat \<Rightarrow> real) \<Rightarrow> int \<Rightarrow> nat \<Rightarrow> int \<Rightarrow> sim_V2 \<Rightarrow> error + (int \<times> sim_V2)" where
  "gen_loop_V2 rng lane 0 cid s = Inr (cid, s)"
| "gen_loop_V2 rng lane (Suc n) cid s =
     ebind (gen_lane_V2 rng lane cid s) (\<lambda>(cid', s'). gen_loop_V2 rng (lane + 1) n cid' s')"

definition gen_new_drivers_V2 :: "(nat \<Rightarrow> real) \<Rightarrow> int \<Rightarrow> sim_V2 \<Rightarrow> error + (int \<times> sim_V2)" where
  "gen_new_drivers_V2 rng n s = gen_loop_V2 rng 0 (nat (num_lanes (hwy s))) n s"

text \<open>
  \<^verbatim>\<open>execute_time_step\<close>: \<open>lanes_loop_V2\<close> is the inner loop at position \<open>i\<close>, from
  lane \<open>k\<close> with \<open>n\<close> lanes left; \<open>pass_V2 rng m\<close> is the outer loop over the positions
  \<open>m - 1\<close> down to \<open>0\<close>.
\<close>

fun lanes_loop_V2 :: "(nat \<Rightarrow> real) \<Rightarrow> int \<Rightarrow> int \<Rightarrow> nat \<Rightarrow> sim_V2 \<Rightarrow> error + sim_V2" where
  "lanes_loop_V2 rng i k 0 s = Inr s"
| "lanes_loop_V2 rng i k (Suc n) s =
     ebind (get_cell (hwy s) k i) (\<lambda>c.
     ebind (if c \<noteq> None then sim_driver_V2 rng k i s else Inr s)
       (lanes_loop_V2 rng i (k + 1) n))"

fun pass_V2 :: "(nat \<Rightarrow> real) \<Rightarrow> nat \<Rightarrow> sim_V2 \<Rightarrow> error + sim_V2" where
  "pass_V2 rng 0 s = Inr s"
| "pass_V2 rng (Suc i) s =
     ebind (lanes_loop_V2 rng (int i) 0 (nat (num_lanes (hwy s))) s) (pass_V2 rng i)"

definition execute_time_step_V2 :: "(nat \<Rightarrow> real) \<Rightarrow> sim_V2 \<Rightarrow> error + sim_V2" where
  "execute_time_step_V2 rng s =
     ebind (pass_V2 rng (nat (len (hwy s))) s) (\<lambda>s1.
     ebind (gen_new_drivers_V2 rng (num_cars s1) s1) (\<lambda>(n, s2).
       Inr (s2\<lparr>num_cars := n\<rparr>)))"

text \<open>
  \<^verbatim>\<open>run\<close> repeats \<open>tick_V2\<close>, the body of its loop (printing the road changes
  nothing); \<open>ticks_V2 n\<close> is \<open>n\<close> iterations of the body.
\<close>

definition tick_V2 :: "(nat \<Rightarrow> real) \<Rightarrow> sim_V2 \<Rightarrow> error + sim_V2" where
  "tick_V2 rng s =
     ebind (execute_time_step_V2 rng s) (\<lambda>s1.
       Inr (s1\<lparr>current_step := current_step s1 + 1\<rparr>))"

fun ticks_V2 :: "(nat \<Rightarrow> real) \<Rightarrow> nat \<Rightarrow> sim_V2 \<Rightarrow> error + sim_V2" where
  "ticks_V2 rng 0 s = Inr s"
| "ticks_V2 rng (Suc n) s = ebind (tick_V2 rng s) (ticks_V2 rng n)"



section \<open>The tick engine of \<^verbatim>\<open>sim_client_requests.py\<close>\<close>

text \<open>
  \<open>crash_roll\<close> is the test that both \<^verbatim>\<open>sim_driver\<close> and \<^verbatim>\<open>sim_cruise\<close> make on a
  drawn value \<open>rv\<close>: \<open>True\<close> when the driver's speed is appended to \<^verbatim>\<open>crashes\<close>.
  In \<^verbatim>\<open>sim_cruise\<close> the \<^verbatim>\<open>else\<close> that follows the test belongs to
  \<^verbatim>\<open>elif r < CRASH_PROB\<close>: it runs for a driver that is not drunk and whose draw is
  not below \<^verbatim>\<open>CRASH_PROB\<close>, whatever the clearance \<open>x\<close> was.
\<close>

definition log_crash :: "nat \<Rightarrow> sim_C \<Rightarrow> sim_C" where
  "log_crash r s = s\<lparr>crashes := crashes s @ [speed (heap s r)]\<rparr>"

definition sim_cruise_C :: "(nat \<Rightarrow> real) \<Rightarrow> int \<Rightarrow> int \<Rightarrow> sim_C \<Rightarrow> error + sim_C" where
  "sim_cruise_C rng lane i s =
     ebind (get_cell (hwy s) lane i) (\<lambda>c.
       case c of None \<Rightarrow> Inl AttributeError
       | Some r \<Rightarrow>
         let d = heap s r in
         ebind (safe_distance_within (hwy s) lane i (speed d + safe_follow d)) (\<lambda>x.
         ebind (if x = speed d + safe_follow d then
                  set_road lane (i + speed d) (Some r) s
                else if x > safe_follow d then
                  set_road lane (i + x - safe_follow d) (Some r) (set_desire r LANE_CHANGE s)
                else Inr s) (\<lambda>s1.
           let rv = rng (draws s1); s2 = s1\<lparr>draws := draws s1 + 1\<rparr> in
           ebind (if is_drunk (heap s2 r) then
                    (if rv < DRUNK_CRASH_PROB then Inr (log_crash r s2) else Inr s2)
                  else if rv < CRASH_PROB then Inr (log_crash r s2)
                  else set_road lane (i + 1) (Some r) (set_desire r LANE_CHANGE s2)) (\<lambda>s3.
             set_road lane i None s3))))"

text \<open>
  In \<^verbatim>\<open>sim_driver\<close> the crash test draws a second value into the same variable
  \<^verbatim>\<open>r\<close>, which the choice of the direction then reads: \<open>crash_check_C\<close> returns the
  value of \<^verbatim>\<open>r\<close> after the test, with the state.
\<close>

definition crash_check_C :: "(nat \<Rightarrow> real) \<Rightarrow> real \<Rightarrow> nat \<Rightarrow> sim_C \<Rightarrow> real \<times> sim_C" where
  "crash_check_C rng rv r s =
     (if desire (heap s r) \<noteq> CRUISE then
        let rv' = rng (draws s); s1 = s\<lparr>draws := draws s + 1\<rparr> in
        if is_drunk (heap s1 r) then
          (if rv' < DRUNK_CRASH_PROB then (rv', log_crash r s1) else (rv', s1))
        else if rv' < CRASH_PROB then (rv', log_crash r s1)
        else (rv', s1)
      else (rv, s))"

definition decide_direction_C :: "real \<Rightarrow> int \<Rightarrow> int \<Rightarrow> nat \<Rightarrow> sim_C \<Rightarrow> error + sim_C" where
  "decide_direction_C rv lane i r s =
     (if desire (heap s r) = LANE_CHANGE \<and> rv \<le> LEFT_LANE_CHANGE_PROBABILITY then
        ebind (safe_left_lane_change (hwy s) lane i) (\<lambda>l.
          if l then Inr (set_desire r LANE_CHANGE_LEFT s)
          else ebind (safe_right_lane_change_C (hwy s) lane i) (\<lambda>rt.
            if rt then Inr (set_desire r LANE_CHANGE_RIGHT s) else Inr s))
      else if desire (heap s r) = LANE_CHANGE \<and> rv > LEFT_LANE_CHANGE_PROBABILITY then
        ebind (safe_right_lane_change_C (hwy s) lane i) (\<lambda>rt.
          if rt then Inr (set_desire r LANE_CHANGE_RIGHT s)
          else ebind (safe_left_lane_change (hwy s) lane i) (\<lambda>l.
            if l then Inr (set_desire r LANE_CHANGE_LEFT s) else Inr s))
      else Inr s)"

definition perform_C :: "(nat \<Rightarrow> real) \<Rightarrow> int \<Rightarrow> int \<Rightarrow> nat \<Rightarrow> sim_C \<Rightarrow> error + sim_C" where
  "perform_C rng lane i r s =
     (if desire (heap s r) = LANE_CHANGE_RIGHT then
        ebind (set_road (lane + 1) i (Some r) s) (\<lambda>s1.
        ebind (set_road lane i None s1) (\<lambda>s2.
          sim_cruise_C rng (lane + 1) i (set_desire r CRUISE s2)))
      else if desire (heap s r) = LANE_CHANGE_LEFT then
        ebind (set_road (lane - 1) i (Some r) s) (\<lambda>s1.
        ebind (set_road lane i None s1) (\<lambda>s2.
          sim_cruise_C rng (lane - 1) i (set_desire r CRUISE s2)))
      else if desire (heap s r) = CRUISE \<or> desire (heap s r) = LANE_CHANGE then
        sim_cruise_C rng lane i s
      else Inr s)"

definition sim_driver_C :: "(nat \<Rightarrow> real) \<Rightarrow> int \<Rightarrow> int \<Rightarrow> sim_C \<Rightarrow> error + sim_C" where
  "sim_driver_C rng lane i s =
     ebind (get_cell (hwy s) lane i) (\<lambda>c.
       case c of None \<Rightarrow> Inl AttributeError
       | Some r \<Rightarrow>
         if speed (heap s r) + i \<ge> len (hwy s) - 1 then leave_highway lane i r s
         else
           let rv = rng (draws s); s1 = s\<lparr>draws := draws s + 1\<rparr>;
               (rv', s2) = crash_check_C rng rv r s1
           in ebind (decide_direction_C rv' lane i r s2) (perform_C rng lane i r))"

text \<open>
  \<^verbatim>\<open>gen_new_drivers\<close> reads the module variables \<^verbatim>\<open>def_car_prob\<close> and
  \<^verbatim>\<open>sd_car_prob\<close>, which \<^verbatim>\<open>main\<close> sets before each run: they are the parameters \<open>dp\<close>
  and \<open>sp\<close>. \<open>gen_def_lane\<close> and \<open>gen_sd_lane\<close> are the bodies of its two loops.
\<close>

definition gen_def_lane :: "(nat \<Rightarrow> real) \<Rightarrow> real \<Rightarrow> int \<Rightarrow> int \<Rightarrow> sim_C \<Rightarrow> error + (int \<times> sim_C)" where
  "gen_def_lane rng dp lane cid s =
     (let r1 = rng (draws s); s1 = s\<lparr>draws := draws s + 1\<rparr> in
      if r1 < dp then
        let r2 = rng (draws s1); s2 = s1\<lparr>draws := draws s1 + 1\<rparr>;
            v = (if r2 < FAST_PROBABILITY then FAST else SLOW);
            r3 = rng (draws s2); s3 = s2\<lparr>draws := draws s2 + 1\<rparr>;
            drunk = (r3 < DRUNK_PROBABILITY)
        in ebind (new_driver (Driver_C cid v (current_step s3) True drunk) lane s3) (\<lambda>s4.
             Inr (cid + 1, s4))
      else Inr (cid, s1))"

definition gen_sd_lane :: "(nat \<Rightarrow> real) \<Rightarrow> real \<Rightarrow> int \<Rightarrow> int \<Rightarrow> sim_C \<Rightarrow> error + (int \<times> sim_C)" where
  "gen_sd_lane rng sp lane cid s =
     (let r1 = rng (draws s); s1 = s\<lparr>draws := draws s + 1\<rparr> in
      if r1 < sp then
        let s2 = s1\<lparr>draws := draws s1 + 1\<rparr>
        in ebind (new_driver (Driver_C cid FAST (current_step s2) False False)
                    (lane + num_def_lanes (hwy s2) - 1) s2) (\<lambda>s3.
             Inr (cid + 1, s3))
      else Inr (cid, s1))"

fun gen_def_loop ::
  "(nat \<Rightarrow> real) \<Rightarrow> real \<Rightarrow> int \<Rightarrow> nat \<Rightarrow> int \<Rightarrow> sim_C \<Rightarrow> error + (int \<times> sim_C)" where
  "gen_def_loop rng dp lane 0 cid s = Inr (cid, s)"
| "gen_def_loop rng dp lane (Suc n) cid s =
     ebind (gen_def_lane rng dp lane cid s) (\<lambda>(cid', s'). gen_def_loop rng dp (lane + 1) n cid' s')"

fun gen_sd_loop ::
  "(nat \<Rightarrow> real) \<Rightarrow> real \<Rightarrow> int \<Rightarrow> nat \<Rightarrow> int \<Rightarrow> sim_C \<Rightarrow> error + (int \<times> sim_C)" where
  "gen_sd_loop rng sp lane 0 cid s = Inr (cid, s)"
| "gen_sd_loop rng sp lane (Suc n) cid s =
     ebind (gen_sd_lane rng sp lane cid s) (\<lambda>(cid', s'). gen_sd_loop rng sp (lane + 1) n cid' s')"

definition gen_new_drivers_C ::
  "(nat \<Rightarrow> real) \<Rightarrow> real \<Rightarrow> real \<Rightarrow> int \<Rightarrow> sim_C \<Rightarrow> error + (int \<times> sim_C)" where
  "gen_new_drivers_C rng dp sp n s =
     ebind (gen_def_loop rng dp 0 (nat (num_def_lanes (hwy s))) n s) (\<lambda>(cid, s1).
       gen_sd_loop rng sp 0 (nat (num_sd_lanes (hwy s1))) cid s1)"

fun lanes_loop_C :: "(nat \<Rightarrow> real) \<Rightarrow> int \<Rightarrow> int \<Rightarrow> nat \<Rightarrow> sim_C \<Rightarrow> error + sim_C" where
  "lanes_loop_C rng i k 0 s = Inr s"
| "lanes_loop_C rng i k (Suc n) s =
     ebind (get_cell (hwy s) k i) (\<lambda>c.
     ebind (if c \<noteq> None then sim_driver_C rng k i s else Inr s)
       (lanes_loop_C rng i (k + 1) n))"

fun pass_C :: "(nat \<Rightarrow> real) \<Rightarrow> nat \<Rightarrow> sim_C \<Rightarrow> error + sim_C" where
  "pass_C rng 0 s = Inr s"
| "pass_C rng (Suc i) s =
     ebind (lanes_loop_C rng (int i) 0
              (nat (num_def_lanes (hwy s) + num_sd_lanes (hwy s))) s) (pass_C rng i)"

definition execute_time_step_C :: "(nat \<Rightarrow> real) \<Rightarrow> real \<Rightarrow> real \<Rightarrow> sim_C \<Rightarrow> error + sim_C" where
  "execute_time_step_C rng dp sp s =
     ebind (pass_C rng (nat (len (hwy s))) s) (\<lambda>s1.
     ebind (gen_new_drivers_C rng dp sp (num_cars s1) s1) (\<lambda>(n, s2).
       Inr (s2\<lparr>num_cars := n\<rparr>)))"

text \<open>
  \<^verbatim>\<open>run\<close> repeats \<open>tick_C\<close>, the body of its loop, while
  \<^verbatim>\<open>current_step < time_steps\<close> (\<^verbatim>\<open>PRINT_ROAD\<close> is false, and printing changes
  nothing); \<open>ticks_C n\<close> is \<open>n\<close> iterations of the body.
\<close>

definition tick_C :: "(nat \<Rightarrow> real) \<Rightarrow> real \<Rightarrow> real \<Rightarrow> sim_C \<Rightarrow> error + sim_C" where
  "tick_C rng dp sp s =
     ebind (execute_time_step_C rng dp sp s) (\<lambda>s1.
       Inr (s1\<lparr>current_step := current_step s1 + 1\<rparr>))"

fun ticks_C :: "(nat \<Rightarrow> real) \<Rightarrow> real \<Rightarrow> real \<Rightarrow> nat \<Rightarrow> sim_C \<Rightarrow> error + sim_C" where
  "ticks_C rng dp sp 0 s = Inr s"
| "ticks_C rng dp sp (Suc n) s = ebind (tick_C rng dp sp s) (ticks_C rng dp sp n)"

section \<open>Predicates for stating the properties\<close>

text \<open>
  \<open>driver_at s lane i r\<close>: the grid of \<open>s\<close> is well formed, \<open>(lane, i)\<close> is a cell
  of it, and the cell holds the reference \<open>r\<close>.
\<close>

definition driver_at :: "('a highway_scheme, 'd, 'z) simulation_scheme \<Rightarrow> int \<Rightarrow> int \<Rightarrow> nat \<Rightarrow> bool" where
  "driver_at s lane i r \<longleftrightarrow>
     wf_highway (hwy s) \<and> valid_lane (hwy s) lane \<and> 0 \<le> i \<and> i < len (hwy s) \<and>
     cell_at (hwy s) lane i = Some r"

section \<open>Reachable states of \<^verbatim>\<open>sim_client_requests.py\<close>\<close>

text \<open>
  \<open>reach_C\<close> holds of the states a run passes through, at the grain of the calls that
  \<^verbatim>\<open>run\<close> and \<^verbatim>\<open>execute_time_step\<close> make: the state that \<^verbatim>\<open>Simulation\<close> builds, the
  state after a call of \<^verbatim>\<open>sim_driver\<close> on an occupied cell, the state after
  \<^verbatim>\<open>gen_new_drivers\<close> with its result stored in \<^verbatim>\<open>num_cars\<close>, and the state after the
  step counter is advanced. The order of the calls and the draws are left open, so it
  holds of more states than a run can reach.
\<close>

inductive reach_C :: "sim_C \<Rightarrow> bool" where
  reach_init: "reach_C (Simulation_C ts)"
| reach_drive: "reach_C s \<Longrightarrow> 0 \<le> k \<Longrightarrow> 0 \<le> i \<Longrightarrow> get_cell (hwy s) k i = Inr (Some r) \<Longrightarrow>
     sim_driver_C rng k i s = Inr s' \<Longrightarrow> reach_C s'"
| reach_arrive: "reach_C s \<Longrightarrow> gen_new_drivers_C rng dp sp n s = Inr (m, s') \<Longrightarrow>
     reach_C (s'\<lparr>num_cars := m\<rparr>)"
| reach_step: "reach_C s \<Longrightarrow> reach_C (s\<lparr>current_step := current_step s + 1\<rparr>)"

text \<open>
  The invariant behind the empty last lane: the grid is well formed with one
  self-driving lane after at least one default lane, the last lane (index
  \<^verbatim>\<open>num_def_lanes\<close>) is empty, and no driver object is left with the desire of a lane
  change under way.
\<close>

definition sd_grid :: "highway_C \<Rightarrow> bool" where
  "sd_grid hw \<longleftrightarrow> wf_highway_C hw \<and> num_sd_lanes hw = 1 \<and> 1 \<le> num_def_lanes hw \<and>
     lane_empty hw (num_def_lanes hw)"

definition settled :: "('h, 'b driver_scheme, 'z) simulation_scheme \<Rightarrow> bool" where
  "settled s \<longleftrightarrow> (\<forall>r. desire (heap s r) = CRUISE \<or> desire (heap s r) = LANE_CHANGE)"

text \<open>
  \<open>sd_step s t\<close>: from \<open>s\<close> to \<open>t\<close> the grid keeps the shape above and its empty last
  lane, and every driver object keeps its desire or has it set to \<^verbatim>\<open>CRUISE\<close> or
  \<^verbatim>\<open>LANE_CHANGE\<close>.
\<close>

definition sd_step :: "sim_C \<Rightarrow> sim_C \<Rightarrow> bool" where
  "sd_step s t \<longleftrightarrow> sd_grid (hwy t) \<and> num_def_lanes (hwy t) = num_def_lanes (hwy s) \<and>
     (\<forall>r. desire (heap t r) = desire (heap s r) \<or> desire (heap t r) = CRUISE \<or>
          desire (heap t r) = LANE_CHANGE)"

section \<open>The traversal of \<^verbatim>\<open>highway_sim_V2.py\<close>\<close>

text \<open>
  \<open>grid_ok s\<close> collects what holds of the grid between two ticks of a run: the grid
  is well formed; a vehicle on it was created earlier (its address is below
  \<open>next_ref\<close>), has a speed of at least 1 and a follow distance of at least 0 (the
  constructor gives 4 or 5, and 4 or 2), and its desire is \<^verbatim>\<open>CRUISE\<close> or
  \<^verbatim>\<open>LANE_CHANGE\<close>; and no reference is in two cells.
\<close>

definition grid_ok :: "sim_V2 \<Rightarrow> bool" where
  "grid_ok s \<longleftrightarrow> wf_highway_V2 (hwy s) \<and>
     (\<forall>l i r. driver_at s l i r \<longrightarrow>
        r < next_ref s \<and> 1 \<le> speed (heap s r) \<and> 0 \<le> safe_follow (heap s r) \<and>
        (desire (heap s r) = CRUISE \<or> desire (heap s r) = LANE_CHANGE)) \<and>
     (\<forall>l i l' i' r. driver_at s l i r \<and> driver_at s l' i' r \<longrightarrow> l = l' \<and> i = i')"

text \<open>
  \<open>step_cells hw hw' k i r tgt\<close>: the grid \<open>hw'\<close> is \<open>hw\<close> with the cell \<open>(k, i)\<close>
  emptied and, when \<open>tgt\<close> is a cell, the reference \<open>r\<close> written there.
\<close>

definition step_cells ::
  "'a highway_scheme \<Rightarrow> 'a highway_scheme \<Rightarrow> int \<Rightarrow> int \<Rightarrow> nat \<Rightarrow> (int \<times> int) option \<Rightarrow> bool" where
  "step_cells hw hw' k i r tgt \<longleftrightarrow>
     (\<forall>l q. valid_lane hw l \<and> 0 \<le> q \<and> q < len hw \<longrightarrow>
        cell_at hw' l q =
          (if tgt = Some (l, q) then Some r else if l = k \<and> q = i then None else cell_at hw l q))"

text \<open>
  \<open>processed s s' k i r\<close>: what a call of \<^verbatim>\<open>sim_driver\<close> on the vehicle \<open>r\<close> at
  \<open>(k, i)\<close> does to the state, as far as the traversal is concerned. The grid keeps
  its shape; the cell \<open>(k, i)\<close> is emptied and the vehicle is either written to no cell
  (it left the road) or, when the exit test \<open>speed + i \<ge> len - 1\<close> fails, to one cell
  between 1 and \<open>speed\<close> positions ahead; no other
  driver object changes, and the vehicle keeps its speed and follow distance and
  ends with the desire \<^verbatim>\<open>CRUISE\<close> or \<^verbatim>\<open>LANE_CHANGE\<close>.
\<close>

definition processed :: "sim_V2 \<Rightarrow> sim_V2 \<Rightarrow> int \<Rightarrow> int \<Rightarrow> nat \<Rightarrow> bool" where
  "processed s s' k i r \<longleftrightarrow>
     wf_highway_V2 (hwy s') \<and> len (hwy s') = len (hwy s) \<and>
     length (road (hwy s')) = length (road (hwy s)) \<and> next_ref s' = next_ref s \<and>
     (\<forall>r'. r' \<noteq> r \<longrightarrow> heap s' r' = heap s r') \<and>
     speed (heap s' r) = speed (heap s r) \<and> safe_follow (heap s' r) = safe_follow (heap s r) \<and>
     (desire (heap s' r) = CRUISE \<or> desire (heap s' r) = LANE_CHANGE) \<and>
     (\<exists>tgt. step_cells (hwy s) (hwy s') k i r tgt \<and>
        (\<forall>l j. tgt = Some (l, j) \<longrightarrow>
           valid_lane (hwy s) l \<and> i < j \<and> j \<le> i + speed (heap s r) \<and> j < len (hwy s) \<and>
           speed (heap s r) + i < len (hwy s) - 1))"

text \<open>
  \<open>todo c k l q\<close>: when the traversal of \<^verbatim>\<open>execute_time_step\<close> is at position \<open>c\<close>,
  about to look at lane \<open>k\<close>, the cell \<open>(l, q)\<close> is still to be visited. \<open>pass_inv s0 c k s\<close>
  relates the state \<open>s\<close> at that point to the state \<open>s0\<close> at the start of the tick:
  a vehicle in a cell still to be visited was in that cell in \<open>s0\<close>; a vehicle in a
  cell already visited was in \<open>s0\<close> between 1 and \<open>speed\<close> cells further back, in a
  cell where the exit test fails; and no reference is in two cells.
\<close>

definition todo :: "int \<Rightarrow> int \<Rightarrow> int \<Rightarrow> int \<Rightarrow> bool" where
  "todo c k l q \<longleftrightarrow> q < c \<or> (q = c \<and> k \<le> l)"

definition pass_inv :: "sim_V2 \<Rightarrow> int \<Rightarrow> int \<Rightarrow> sim_V2 \<Rightarrow> bool" where
  "pass_inv s0 c k s \<longleftrightarrow>
     wf_highway_V2 (hwy s) \<and> len (hwy s) = len (hwy s0) \<and>
     length (road (hwy s)) = length (road (hwy s0)) \<and> next_ref s = next_ref s0 \<and>
     (\<forall>r. speed (heap s r) = speed (heap s0 r) \<and>
          safe_follow (heap s r) = safe_follow (heap s0 r) \<and>
          (desire (heap s0 r) = CRUISE \<or> desire (heap s0 r) = LANE_CHANGE \<longrightarrow>
           desire (heap s r) = CRUISE \<or> desire (heap s r) = LANE_CHANGE)) \<and>
     (\<forall>l q r. driver_at s l q r \<and> todo c k l q \<longrightarrow> driver_at s0 l q r) \<and>
     (\<forall>l q r. driver_at s l q r \<and> \<not> todo c k l q \<longrightarrow>
        (\<exists>l0 q0. driver_at s0 l0 q0 r \<and> q0 < q \<and> q \<le> q0 + speed (heap s0 r) \<and>
           speed (heap s0 r) + q0 < len (hwy s0) - 1)) \<and>
     (\<forall>l q l' q' r. driver_at s l q r \<and> driver_at s l' q' r \<longrightarrow> l = l' \<and> q = q')"

text \<open>
  \<open>only_arrivals s1 s\<close>: from \<open>s1\<close> to \<open>s\<close> the grid keeps its shape, and a vehicle on
  the grid of \<open>s\<close> is in the cell it had in \<open>s1\<close> or was created after \<open>s1\<close>.
\<close>

definition only_arrivals :: "sim_V2 \<Rightarrow> sim_V2 \<Rightarrow> bool" where
  "only_arrivals s1 s \<longleftrightarrow>
     wf_highway_V2 (hwy s) \<and> len (hwy s) = len (hwy s1) \<and>
     length (road (hwy s)) = length (road (hwy s1)) \<and> next_ref s1 \<le> next_ref s \<and>
     (\<forall>l q x. driver_at s l q x \<longrightarrow> driver_at s1 l q x \<or> next_ref s1 \<le> x)"


section \<open>Concrete inputs\<close>

text \<open>
  States and draws on which the tick engine of \<^verbatim>\<open>sim_client_requests.py\<close> is run
  below. With the draws \<open>arrive_once\<close> a fast, sober vehicle arrives in lane 0 in the
  first tick and no other arrival or crash record follows. \<open>one_car_C\<close> is the state
  after that first tick. In \<open>two_cars_C drunk\<close> a slow vehicle (object 0) is at
  position 3 of lane 0 and a fast one (object 1), drunk or not, at position 0 behind
  it.
\<close>

definition arrive_once :: "nat \<Rightarrow> real" where
  "arrive_once n = (if n < 2 then 0 else 1 / 2)"

definition one_car_C :: sim_C where
  "one_car_C = (Simulation_C 100)
     \<lparr>hwy := put_cell (hwy (Simulation_C 100)) 0 0 (Some 0),
      heap := (heap (Simulation_C 100))(0 := Driver_C 0 FAST 0 True False),
      next_ref := 1, draws := 6, num_cars := 1, current_step := 1\<rparr>"

definition two_cars_C :: "bool \<Rightarrow> sim_C" where
  "two_cars_C drunk = (Simulation_C 100)
     \<lparr>hwy := put_cell (put_cell (hwy (Simulation_C 100)) 0 3 (Some 0)) 0 0 (Some 1),
      heap := (heap (Simulation_C 100))
        (0 := Driver_C 0 SLOW 0 True False, 1 := Driver_C 1 FAST 1 True drunk),
      next_ref := 2, num_cars := 2, current_step := 2\<rparr>"

text \<open>
  A run of \<^verbatim>\<open>sim_client_requests.py\<close> in which one vehicle reaches the end of the
  road. With the draws \<open>exit_run\<close> a fast, sober vehicle arrives in lane 0 in the first
  tick and nothing else arrives; each tick draws six values, the second of them in
  the crash test of \<^verbatim>\<open>sim_cruise\<close>. That test hits in the ticks 2 to 21 (draw 0, the
  speed is logged and the vehicle is moved by its speed only) and misses in tick 22
  (draw 1/2). \<open>solo_C n\<close> is the state after \<open>n + 1\<close> ticks, for \<open>n\<close> up to 20: the
  vehicle is at position \<open>5 n\<close>. \<open>exit_pair_C\<close> is the state after 22 ticks: the
  vehicle is referenced from the cells 101 and 105 of lane 0.
\<close>

definition exit_run :: "nat \<Rightarrow> real" where
  "exit_run n = (if n < 2 then 0 else if n mod 6 = 1 \<and> n < 126 then 0 else 1 / 2)"

definition solo_C :: "nat \<Rightarrow> sim_C" where
  "solo_C n = (Simulation_C 100)
     \<lparr>hwy := put_cell (hwy (Simulation_C 100)) 0 (5 * int n) (Some 0),
      heap := (heap (Simulation_C 100))(0 := Driver_C 0 FAST 0 True False),
      next_ref := 1, draws := 6 * n + 6, num_cars := 1, current_step := int n + 1,
      crashes := replicate n 5\<rparr>"

definition exit_pair_C :: sim_C where
  "exit_pair_C = (Simulation_C 100)
     \<lparr>hwy := put_cell (put_cell (hwy (Simulation_C 100)) 0 105 (Some 0)) 0 101 (Some 0),
      heap := (heap (Simulation_C 100))
        (0 := (Driver_C 0 FAST 0 True False)\<lparr>desire := LANE_CHANGE\<rparr>),
      next_ref := 1, draws := 132, num_cars := 1, current_step := 22,
      crashes := replicate 20 5\<rparr>"

text \<open>
  With the draws \<open>arrive_once\<close>, the first tick of \<^verbatim>\<open>highway_sim_V2.py\<close> brings a
  slow, human-driven vehicle into lane 0; \<open>one_car_V2\<close> is the state after that tick.
\<close>

definition one_car_V2 :: sim_V2 where
  "one_car_V2 = (Simulation_V2 100)
     \<lparr>hwy := put_cell (hwy (Simulation_V2 100)) 0 0 (Some 0),
      heap := (heap (Simulation_V2 100))(0 := Driver 0 SLOW 0 True),
      next_ref := 1, draws := 6, num_cars := 1, current_step := 1\<rparr>"

section \<open>Basic facts\<close>

lemma ebind_Inl [simp]: "ebind (Inl e) f = Inl e"
  by (simp add: ebind_def)

lemma ebind_Inr [simp]: "ebind (Inr x) f = f x"
  by (simp add: ebind_def)

lemma ebind_eq_Inr: "ebind m f = Inr y \<longleftrightarrow> (\<exists>x. m = Inr x \<and> f x = Inr y)"
  by (cases m) simp_all

lemma py_index_nonneg: "0 \<le> i \<Longrightarrow> i < int (length xs) \<Longrightarrow> py_index xs i = Inr (nat i)"
  by (simp add: py_index_def Let_def)

lemma py_index_neg:
  "i < 0 \<Longrightarrow> - int (length xs) \<le> i \<Longrightarrow> py_index xs i = Inr (nat (int (length xs) + i))"
  by (simp add: py_index_def Let_def)

lemma py_index_out:
  "i < - int (length xs) \<or> int (length xs) \<le> i \<Longrightarrow> py_index xs i = Inl IndexError"
  by (auto simp add: py_index_def Let_def)

lemma py_index_Inr: "py_index xs i = Inr j \<Longrightarrow> j < length xs"
  by (auto simp add: py_index_def Let_def split: if_splits)

lemma wf_row: "wf_highway hw \<Longrightarrow> valid_lane hw lane \<Longrightarrow> int (length (road hw ! nat lane)) = len hw"
  by (auto simp add: wf_highway_def valid_lane_def)

lemma get_cell_in_range:
  "wf_highway hw \<Longrightarrow> valid_lane hw lane \<Longrightarrow> 0 \<le> i \<Longrightarrow> i < len hw \<Longrightarrow>
   get_cell hw lane i = Inr (cell_at hw lane i)"
  using wf_row [of hw lane]
  by (simp add: get_cell_def py_get_def py_index_nonneg valid_lane_def cell_at_def)



section \<open>The gap measurement\<close>

lemma sdw_loop_clear:
  assumes "wf_highway hw" "valid_lane hw lane"
  shows "0 \<le> i \<Longrightarrow> \<forall>j. i \<le> j \<and> j < i + int n \<and> j < len hw \<longrightarrow> cell_at hw lane j = None \<Longrightarrow>
    sdw_loop hw lane k i n x = Inr (if len hw < i + int n \<and> 0 < n then k else x + int n)"
proof (induction n arbitrary: i x)
  case 0
  then show ?case by simp
next
  case (Suc n)
  show ?case
  proof (cases "len hw \<le> i")
    case True
    then show ?thesis by simp
  next
    case False
    then have g: "get_cell hw lane i = Inr None"
      using get_cell_in_range [OF assms Suc.prems(1)] Suc.prems(2) by simp
    have "sdw_loop hw lane k (i + 1) n (x + 1) =
        Inr (if len hw < i + 1 + int n \<and> 0 < n then k else x + 1 + int n)"
      using Suc.prems by (intro Suc.IH) auto
    moreover have "n = 0 \<Longrightarrow> \<not> len hw < i + 1" using False by simp
    ultimately show ?thesis using False g by (auto simp: algebra_simps)
  qed
qed


lemma sdw_loop_blocked:
  assumes "wf_highway hw" "valid_lane hw lane"
  shows "0 \<le> i \<Longrightarrow> m < n \<Longrightarrow> i + int m < len hw \<Longrightarrow> cell_at hw lane (i + int m) \<noteq> None \<Longrightarrow>
    \<forall>j. i \<le> j \<and> j < i + int m \<longrightarrow> cell_at hw lane j = None \<Longrightarrow>
    sdw_loop hw lane k i n x = Inr (x + int m)"
proof (induction n arbitrary: i x m)
  case 0
  then show ?case by simp
next
  case (Suc n)
  have lt: "i < len hw" using Suc.prems(3) by simp
  then have g: "get_cell hw lane i = Inr (cell_at hw lane i)"
    using get_cell_in_range [OF assms Suc.prems(1)] by simp
  show ?case
  proof (cases m)
    case 0
    then show ?thesis using Suc.prems lt g by simp
  next
    case (Suc m')
    then have e: "cell_at hw lane i = None" using Suc.prems(5) by simp
    have "sdw_loop hw lane k (i + 1) n (x + 1) = Inr (x + 1 + int m')"
      using Suc Suc.prems by (intro Suc.IH) (auto simp: algebra_simps)
    then show ?thesis using lt g e Suc by (simp add: algebra_simps)
  qed
qed


lemma first_occupied:
  assumes "\<exists>m<n. P (m::nat)"
  shows "\<exists>m<n. P m \<and> (\<forall>m'<m. \<not> P m')"
proof -
  from assms have "\<exists>m. m < n \<and> P m" by simp
  then obtain m where m: "m < n \<and> P m" "\<forall>m'<m. \<not> (m' < n \<and> P m')"
    unfolding exists_least_iff [of "\<lambda>m. m < n \<and> P m"] by blast
  then have "\<forall>m'<m. \<not> P m'" by auto
  with m(1) show ?thesis by blast
qed

lemma sdw_spec:
  assumes "wf_highway hw" and "valid_lane hw lane" and "0 \<le> pos" and "0 \<le> k"
  shows "\<exists>x. safe_distance_within hw lane pos k = Inr x \<and> 0 \<le> x \<and> x \<le> k \<and>
    (if \<forall>j. pos < j \<and> j \<le> pos + k \<and> j < len hw \<longrightarrow> cell_at hw lane j = None
     then x = k
     else pos + x + 1 < len hw \<and> x < k \<and> cell_at hw lane (pos + x + 1) \<noteq> None \<and>
          (\<forall>j. pos < j \<and> j \<le> pos + x \<longrightarrow> cell_at hw lane j = None))"
proof (cases "\<forall>j. pos < j \<and> j \<le> pos + k \<and> j < len hw \<longrightarrow> cell_at hw lane j = None")
  case True
  then have "\<forall>j. pos + 1 \<le> j \<and> j < pos + 1 + int (nat k) \<and> j < len hw \<longrightarrow> cell_at hw lane j = None"
    using assms(4) by auto
  from sdw_loop_clear [OF assms(1,2) _ this, of k 0] assms(3,4)
  have "safe_distance_within hw lane pos k = Inr k"
    by (auto simp: safe_distance_within_def)
  with True assms(4) show ?thesis by simp
next
  case False
  then obtain j where j: "pos < j" "j \<le> pos + k" "j < len hw" "cell_at hw lane j \<noteq> None"
    by blast
  define P where "P m \<longleftrightarrow> pos + 1 + int m < len hw \<and> cell_at hw lane (pos + 1 + int m) \<noteq> None" for m
  have "nat (j - pos - 1) < nat k \<and> P (nat (j - pos - 1))"
    using j by (simp add: P_def)
  then have "\<exists>m<nat k. P m" by blast
  from first_occupied [OF this] obtain m where
    m: "m < nat k" "P m" "\<forall>m'<m. \<not> P m'" by blast
  have emp: "\<forall>j. pos + 1 \<le> j \<and> j < pos + 1 + int m \<longrightarrow> cell_at hw lane j = None"
  proof (intro allI impI)
    fix j assume a: "pos + 1 \<le> j \<and> j < pos + 1 + int m"
    then have "nat (j - pos - 1) < m" by auto
    with m(3) have "\<not> P (nat (j - pos - 1))" by blast
    moreover have "pos + 1 + int (nat (j - pos - 1)) = j" using a by simp
    moreover have "j < len hw" using a m(2) by (simp add: P_def)
    ultimately show "cell_at hw lane j = None" by (simp add: P_def)
  qed
  have "sdw_loop hw lane k (pos + 1) (nat k) 0 = Inr (0 + int m)"
    using m(1,2) emp assms(3) by (intro sdw_loop_blocked [OF assms(1,2)]) (simp_all add: P_def)
  then have r: "safe_distance_within hw lane pos k = Inr (int m)"
    by (simp add: safe_distance_within_def)
  have "pos + int m + 1 < len hw" "cell_at hw lane (pos + int m + 1) \<noteq> None"
    using m(2) by (simp_all add: P_def algebra_simps)
  moreover have "\<forall>j. pos < j \<and> j \<le> pos + int m \<longrightarrow> cell_at hw lane j = None"
    using emp by auto
  moreover have "int m < k" using m(1) by simp
  ultimately show ?thesis using r False by simp
qed


text \<open>
  C5. On a well-formed grid, for a lane of the grid, a position \<open>pos \<ge> 0\<close> and a
  bound \<open>k \<ge> 0\<close>, \<^verbatim>\<open>safe_distance_within\<close> raises nothing and returns some \<open>x\<close>
  with \<open>0 \<le> x \<le> k\<close>. It returns \<open>k\<close> when every cell of \<open>pos + 1 .. pos + k\<close> that
  lies on the road is empty (the window is clear, or the scan reaches the end of the
  road before an occupied cell); otherwise \<open>x\<close> is the number of empty cells between
  \<open>pos\<close> and the first occupied cell, which is at \<open>pos + x + 1\<close>.
\<close>

theorem safe_distance_within_clear_run:
  assumes "wf_highway hw" and "valid_lane hw lane" and "0 \<le> pos" and "0 \<le> k"
  shows "\<exists>x. safe_distance_within hw lane pos k = Inr x \<and> 0 \<le> x \<and> x \<le> k \<and>
    (if \<forall>j. pos < j \<and> j \<le> pos + k \<and> j < len hw \<longrightarrow> cell_at hw lane j = None
     then x = k
     else pos + x + 1 < len hw \<and> x < k \<and> cell_at hw lane (pos + x + 1) \<noteq> None \<and>
          (\<forall>j. pos < j \<and> j \<le> pos + x \<longrightarrow> cell_at hw lane j = None))"
  using assms by (rule sdw_spec)

theorem safe_distance_within_clear_run_witness:
  "(\<exists>x. safe_distance_within \<lparr>road = [[None, None, Some 0, None]], len = 4\<rparr> 0 0 3 = Inr x
      \<and> 0 \<le> x \<and> x \<le> 3 \<and>
      (if \<forall>j. 0 < j \<and> j \<le> 0 + 3 \<and> j < len \<lparr>road = [[None, None, Some 0, None]], len = 4\<rparr>
            \<longrightarrow> cell_at \<lparr>road = [[None, None, Some 0, None]], len = 4\<rparr> 0 j = None
       then x = 3
       else 0 + x + 1 < len \<lparr>road = [[None, None, Some 0, None]], len = 4\<rparr> \<and> x < 3 \<and>
            cell_at \<lparr>road = [[None, None, Some 0, None]], len = 4\<rparr> 0 (0 + x + 1) \<noteq> None \<and>
            (\<forall>j. 0 < j \<and> j \<le> 0 + x \<longrightarrow>
               cell_at \<lparr>road = [[None, None, Some 0, None]], len = 4\<rparr> 0 j = None)))
   \<and> safe_distance_within \<lparr>road = [[None, None, Some 0, None]], len = 4\<rparr> 0 0 3 = Inr 1"
proof -
  have h1: "wf_highway \<lparr>road = [[None, None, Some 0, None]], len = 4\<rparr>"
    by (simp add: wf_highway_def)
  have h2: "valid_lane \<lparr>road = [[None, None, Some 0, None]], len = 4\<rparr> 0"
    by (simp add: valid_lane_def)
  have h3: "safe_distance_within \<lparr>road = [[None, None, Some 0, None]], len = 4\<rparr> 0 0 3 = Inr 1"
    by (simp add: safe_distance_within_def eval_nat_numeral get_cell_def py_get_def py_index_def)
  have h4: "(0::int) \<le> 0" and h5: "(0::int) \<le> 3" by simp_all
  from safe_distance_within_clear_run [OF h1 h2 h4 h5] h3 show ?thesis by (rule conjI)
qed


section \<open>The adjacent-lane safety check\<close>

lemma get_cell_wrap:
  assumes "wf_highway hw" "valid_lane hw nl"
  shows "get_cell hw nl k =
    (if - len hw \<le> k \<and> k < len hw then Inr (cell_at hw nl (wrap hw k)) else Inl IndexError)"
proof -
  have r: "py_get (road hw) nl = Inr (road hw ! nat nl)"
    using assms(2) by (simp add: py_get_def py_index_nonneg valid_lane_def)
  have l: "int (length (road hw ! nat nl)) = len hw"
    using assms by (rule wf_row)
  show ?thesis
    unfolding get_cell_def r ebind_Inr
    using l by (auto simp: py_get_def py_index_def Let_def cell_at_def wrap_def)
qed

lemma scan_cells_spec:
  assumes "wf_highway hw" "valid_lane hw nl"
  shows "scan_cells hw nl ks b =
    (if \<forall>k \<in> set ks. - len hw \<le> k \<and> k < len hw
     then Inr (b \<and> (\<forall>k \<in> set ks. cell_at hw nl (wrap hw k) = None))
     else Inl IndexError)"
proof (induction ks arbitrary: b)
  case Nil
  then show ?case by simp
next
  case (Cons k ks)
  show ?case
    by (simp add: get_cell_wrap [OF assms] Cons.IH)
qed

lemma set_range_up: "set (range_up a n) = {a ..< a + int n}"
  by (induction n arbitrary: a) auto

lemma set_range_down: "set (range_down a n) = {a - int n <.. a}"
  by (induction n arbitrary: a) auto

lemma lane_change_scan_spec:
  assumes "wf_highway hw" "valid_lane hw nl"
  shows "lane_change_scan hw nl i =
    (if - len hw \<le> i - LANE_CHANGE_SAFE_BACK \<and> i + LANE_CHANGE_SAFE_FORWARD < len hw
     then Inr (\<forall>k. i - LANE_CHANGE_SAFE_BACK \<le> k \<and> k \<le> i + LANE_CHANGE_SAFE_FORWARD
                 \<longrightarrow> cell_at hw nl (wrap hw k) = None)
     else Inl IndexError)"
proof -
  have B: "LANE_CHANGE_SAFE_BACK = 5" and F: "LANE_CHANGE_SAFE_FORWARD = 5"
    by (simp_all add: LANE_CHANGE_SAFE_BACK_def LANE_CHANGE_SAFE_FORWARD_def FAST_def)
  have split: "\<And>k. i - 5 \<le> k \<and> k \<le> i + 5 \<longleftrightarrow> k = i \<or> (i - 1 - 5 < k \<and> k \<le> i - 1) \<or> (i + 1 \<le> k \<and> k < i + 1 + 5)"
    by arith
  show ?thesis
  proof (cases "- len hw \<le> i - 5 \<and> i + 5 < len hw")
    case True
    then show ?thesis
      unfolding lane_change_scan_def B F
      by (auto simp: scan_cells_spec [OF assms] set_range_up set_range_down split simp del: scan_cells.simps)
  next
    case False
    then show ?thesis
      unfolding lane_change_scan_def B F
      by (auto simp: scan_cells_spec [OF assms] set_range_up set_range_down simp del: scan_cells.simps)
  qed
qed

lemma wf_Highway_V2: "0 \<le> l \<Longrightarrow> 0 \<le> n \<Longrightarrow> wf_highway_V2 (Highway_V2 l n)"
  by (simp add: wf_highway_V2_def wf_highway_def Highway_V2_def)

lemma wf_Highway_C: "0 \<le> l \<Longrightarrow> 0 \<le> nd \<Longrightarrow> 0 \<le> ns \<Longrightarrow> wf_highway_C (Highway_C l nd ns)"
  by (simp add: wf_highway_C_def wf_highway_def Highway_C_def)

lemma lane_empty_cell:
  "wf_highway hw \<Longrightarrow> valid_lane hw nl \<Longrightarrow> lane_empty hw nl \<Longrightarrow> 0 \<le> k \<Longrightarrow> k < len hw \<Longrightarrow>
   cell_at hw nl k = None"
  using wf_row [of hw nl] by (simp add: lane_empty_def cell_at_def)

lemma wrap_range: "- len hw \<le> k \<Longrightarrow> k < len hw \<Longrightarrow> 0 \<le> wrap hw k \<and> wrap hw k < len hw"
  by (simp add: wrap_def)

lemma lane_change_scan_empty:
  assumes "wf_highway hw" "valid_lane hw nl" "lane_empty hw nl"
    "- len hw \<le> i - LANE_CHANGE_SAFE_BACK" "i + LANE_CHANGE_SAFE_FORWARD < len hw"
  shows "lane_change_scan hw nl i = Inr True"
proof -
  have B: "LANE_CHANGE_SAFE_BACK = 5" and F: "LANE_CHANGE_SAFE_FORWARD = 5"
    by (simp_all add: LANE_CHANGE_SAFE_BACK_def LANE_CHANGE_SAFE_FORWARD_def FAST_def)
  have "cell_at hw nl (wrap hw k) = None"
    if "i - LANE_CHANGE_SAFE_BACK \<le> k \<and> k \<le> i + LANE_CHANGE_SAFE_FORWARD" for k
  proof -
    from that assms(4,5) have "- len hw \<le> k" "k < len hw" by simp_all
    from wrap_range [OF this] show ?thesis
      using lane_empty_cell [OF assms(1-3)] by simp
  qed
  then show ?thesis
    using assms(4,5) by (simp add: lane_change_scan_spec [OF assms(1,2)])
qed


lemma Highway_V2_fields [simp]:
  "len (Highway_V2 l n) = l" "num_lanes (Highway_V2 l n) = n"
  "road (Highway_V2 l n) = replicate (nat n) (replicate (nat l) None)"
  by (simp_all add: Highway_V2_def)

lemma Highway_C_fields [simp]:
  "len (Highway_C l nd ns) = l" "num_def_lanes (Highway_C l nd ns) = nd"
  "num_sd_lanes (Highway_C l nd ns) = ns"
  "road (Highway_C l nd ns) = replicate (nat (nd + ns)) (replicate (nat l) None)"
  by (simp_all add: Highway_C_def)

lemma lane_empty_replicate:
  "road hw = replicate n (replicate m None) \<Longrightarrow> 0 \<le> nl \<Longrightarrow> nat nl < n \<Longrightarrow> lane_empty hw nl"
  by (simp add: lane_empty_def)

lemma consts_simps:
  "HIGHWAY_LENGTH = 110" "NUM_LANES = 4" "NUM_DEF_LANES = 3" "NUM_SD_LANES = 1"
  "LANE_CHANGE_SAFE_BACK = 5" "LANE_CHANGE_SAFE_FORWARD = 5" "FAST = 5" "SLOW = 4"
  "HUMAN_SAFE_FOLLOW = 4" "SDC_SAFE_FOLLOW = 2"
  by (simp_all add: HIGHWAY_LENGTH_def NUM_LANES_def NUM_DEF_LANES_def NUM_SD_LANES_def
      LANE_CHANGE_SAFE_BACK_def LANE_CHANGE_SAFE_FORWARD_def FAST_def SLOW_def
      HUMAN_SAFE_FOLLOW_def SDC_SAFE_FOLLOW_def)


lemma three_cells_free_spec:
  assumes "wf_highway hw" "valid_lane hw nl"
  shows "three_cells_free hw nl i =
    (if \<not> (- len hw \<le> i \<and> i < len hw) then Inl IndexError
     else if cell_at hw nl (wrap hw i) \<noteq> None then Inr False
     else if \<not> i + 1 < len hw then Inl IndexError
     else if cell_at hw nl (wrap hw (i + 1)) \<noteq> None then Inr False
     else if \<not> i + 2 < len hw then Inl IndexError
     else Inr (cell_at hw nl (wrap hw (i + 2)) = None))"
  by (simp add: three_cells_free_def get_cell_wrap [OF assms])

text \<open>
  Against C4 as stated: on the empty grid that \<^verbatim>\<open>Simulation\<close> builds, the check from
  lane 0 towards lane 1 at position 0, where the window behind would need indices
  below 0, returns true; and at position 105, where the window ahead ends at index
  110, past the last cell, it raises \<^verbatim>\<open>IndexError\<close>.
\<close>

theorem lane_change_check_behind_ahead_counterexample:
  "safe_right_lane_change_V2 (Highway_V2 HIGHWAY_LENGTH NUM_LANES) 0 0 = Inr True
   \<and> safe_right_lane_change_V2 (Highway_V2 HIGHWAY_LENGTH NUM_LANES) 0 105 = Inl IndexError"
proof -
  let ?H = "Highway_V2 HIGHWAY_LENGTH NUM_LANES"
  have wf: "wf_highway ?H"
    using wf_Highway_V2 [of HIGHWAY_LENGTH NUM_LANES]
    by (simp add: wf_highway_V2_def consts_simps)
  have v: "valid_lane ?H 1" by (simp add: valid_lane_def consts_simps)
  have e: "lane_empty ?H 1"
    by (rule lane_empty_replicate [of _ 4 110]) (simp_all add: consts_simps)
  have "lane_change_scan ?H 1 0 = Inr True"
    by (rule lane_change_scan_empty [OF wf v e]) (simp_all add: consts_simps)
  moreover have "lane_change_scan ?H 1 105 = Inl IndexError"
    using lane_change_scan_spec [OF wf v, of 105] by (simp add: consts_simps)
  ultimately show ?thesis
    by (simp add: safe_right_lane_change_V2_def consts_simps)
qed

text \<open>
  C4, amended. In \<^verbatim>\<open>highway_sim_V2.py\<close> and \<^verbatim>\<open>sim_client_requests.py\<close>, on a
  well-formed grid and for a lane with a neighbour in the requested direction, the
  check reads the adjacent cell, the \<^verbatim>\<open>LANE_CHANGE_SAFE_BACK\<close> cells behind and the
  \<^verbatim>\<open>LANE_CHANGE_SAFE_FORWARD\<close> cells ahead in the neighbour lane. An index below 0
  is read from the end of the lane, as Python indexes lists (\<open>wrap\<close>). When every
  index lies in the list's index range, that is
  \<open>- len \<le> i - LANE_CHANGE_SAFE_BACK\<close> and \<open>i + LANE_CHANGE_SAFE_FORWARD < len\<close>, the
  check returns whether all the cells read are empty; otherwise it raises
  \<^verbatim>\<open>IndexError\<close>. The one exception is the rightward check of
  \<^verbatim>\<open>sim_client_requests.py\<close> from the lane \<^verbatim>\<open>num_def_lanes - 1\<close>, which returns
  false without reading a cell although that lane has a right neighbour.

  In \<^verbatim>\<open>highway_sim1.py\<close> the check reads the cells \<open>i\<close>, \<open>i + 1\<close> and \<open>i + 2\<close> of
  the other lane, in this order and with the same indexing; it returns false at the
  first occupied one without reading the rest, true when all three are empty, and
  raises \<^verbatim>\<open>IndexError\<close> when the cell it has to read next lies outside the index
  range. It reads no cell behind \<open>i\<close>.

  So in no file does a window behind that starts below index 0 make the check false,
  and in no file is a window ahead that passes the end of the road read as clear.
\<close>

theorem lane_change_check_windows:
  "(wf_highway_V2 hw \<and> valid_lane hw lane \<and> lane \<noteq> num_lanes hw - 1 \<longrightarrow>
      safe_right_lane_change_V2 hw lane i =
        (if - len hw \<le> i - LANE_CHANGE_SAFE_BACK \<and> i + LANE_CHANGE_SAFE_FORWARD < len hw
         then Inr (\<forall>k. i - LANE_CHANGE_SAFE_BACK \<le> k \<and> k \<le> i + LANE_CHANGE_SAFE_FORWARD
                     \<longrightarrow> cell_at hw (lane + 1) (wrap hw k) = None)
         else Inl IndexError))
   \<and> (wf_highway_C hc \<and> valid_lane hc lane \<and> valid_lane hc (lane + 1) \<longrightarrow>
      safe_right_lane_change_C hc lane i =
        (if lane = num_def_lanes hc - 1 then Inr False
         else if - len hc \<le> i - LANE_CHANGE_SAFE_BACK \<and> i + LANE_CHANGE_SAFE_FORWARD < len hc
         then Inr (\<forall>k. i - LANE_CHANGE_SAFE_BACK \<le> k \<and> k \<le> i + LANE_CHANGE_SAFE_FORWARD
                     \<longrightarrow> cell_at hc (lane + 1) (wrap hc k) = None)
         else Inl IndexError))
   \<and> (wf_highway hl \<and> valid_lane hl lane \<and> lane \<noteq> 0 \<longrightarrow>
      safe_left_lane_change hl lane i =
        (if - len hl \<le> i - LANE_CHANGE_SAFE_BACK \<and> i + LANE_CHANGE_SAFE_FORWARD < len hl
         then Inr (\<forall>k. i - LANE_CHANGE_SAFE_BACK \<le> k \<and> k \<le> i + LANE_CHANGE_SAFE_FORWARD
                     \<longrightarrow> cell_at hl (lane - 1) (wrap hl k) = None)
         else Inl IndexError))
   \<and> (wf_highway h1 \<and> length (road h1) = 2 \<longrightarrow>
      safe_right_lane_change_1 h1 i =
        (if \<not> (- len h1 \<le> i \<and> i < len h1) then Inl IndexError
         else if cell_at h1 RIGHT (wrap h1 i) \<noteq> None then Inr False
         else if \<not> i + 1 < len h1 then Inl IndexError
         else if cell_at h1 RIGHT (wrap h1 (i + 1)) \<noteq> None then Inr False
         else if \<not> i + 2 < len h1 then Inl IndexError
         else Inr (cell_at h1 RIGHT (wrap h1 (i + 2)) = None))
      \<and> safe_left_lane_change_1 h1 i =
        (if \<not> (- len h1 \<le> i \<and> i < len h1) then Inl IndexError
         else if cell_at h1 LEFT (wrap h1 i) \<noteq> None then Inr False
         else if \<not> i + 1 < len h1 then Inl IndexError
         else if cell_at h1 LEFT (wrap h1 (i + 1)) \<noteq> None then Inr False
         else if \<not> i + 2 < len h1 then Inl IndexError
         else Inr (cell_at h1 LEFT (wrap h1 (i + 2)) = None)))"
proof (intro conjI impI)
  assume a: "wf_highway_V2 hw \<and> valid_lane hw lane \<and> lane \<noteq> num_lanes hw - 1"
  then have "wf_highway hw" "valid_lane hw (lane + 1)"
    by (simp_all add: wf_highway_V2_def valid_lane_def)
  from lane_change_scan_spec [OF this] a
  show "safe_right_lane_change_V2 hw lane i =
        (if - len hw \<le> i - LANE_CHANGE_SAFE_BACK \<and> i + LANE_CHANGE_SAFE_FORWARD < len hw
         then Inr (\<forall>k. i - LANE_CHANGE_SAFE_BACK \<le> k \<and> k \<le> i + LANE_CHANGE_SAFE_FORWARD
                     \<longrightarrow> cell_at hw (lane + 1) (wrap hw k) = None)
         else Inl IndexError)"
    by (simp add: safe_right_lane_change_V2_def)
next
  assume a: "wf_highway_C hc \<and> valid_lane hc lane \<and> valid_lane hc (lane + 1)"
  then have "wf_highway hc" "valid_lane hc (lane + 1)"
    by (simp_all add: wf_highway_C_def)
  from lane_change_scan_spec [OF this]
  show "safe_right_lane_change_C hc lane i =
        (if lane = num_def_lanes hc - 1 then Inr False
         else if - len hc \<le> i - LANE_CHANGE_SAFE_BACK \<and> i + LANE_CHANGE_SAFE_FORWARD < len hc
         then Inr (\<forall>k. i - LANE_CHANGE_SAFE_BACK \<le> k \<and> k \<le> i + LANE_CHANGE_SAFE_FORWARD
                     \<longrightarrow> cell_at hc (lane + 1) (wrap hc k) = None)
         else Inl IndexError)"
    by (simp add: safe_right_lane_change_C_def)
next
  assume a: "wf_highway hl \<and> valid_lane hl lane \<and> lane \<noteq> 0"
  then have "wf_highway hl" "valid_lane hl (lane - 1)"
    by (simp_all add: valid_lane_def)
  from lane_change_scan_spec [OF this] a
  show "safe_left_lane_change hl lane i =
        (if - len hl \<le> i - LANE_CHANGE_SAFE_BACK \<and> i + LANE_CHANGE_SAFE_FORWARD < len hl
         then Inr (\<forall>k. i - LANE_CHANGE_SAFE_BACK \<le> k \<and> k \<le> i + LANE_CHANGE_SAFE_FORWARD
                     \<longrightarrow> cell_at hl (lane - 1) (wrap hl k) = None)
         else Inl IndexError)"
    by (simp add: safe_left_lane_change_def)
next
  assume a: "wf_highway h1 \<and> length (road h1) = 2"
  then have "wf_highway h1" "valid_lane h1 RIGHT"
    by (simp_all add: valid_lane_def RIGHT_def)
  from three_cells_free_spec [OF this]
  show "safe_right_lane_change_1 h1 i =
        (if \<not> (- len h1 \<le> i \<and> i < len h1) then Inl IndexError
         else if cell_at h1 RIGHT (wrap h1 i) \<noteq> None then Inr False
         else if \<not> i + 1 < len h1 then Inl IndexError
         else if cell_at h1 RIGHT (wrap h1 (i + 1)) \<noteq> None then Inr False
         else if \<not> i + 2 < len h1 then Inl IndexError
         else Inr (cell_at h1 RIGHT (wrap h1 (i + 2)) = None))"
    by (simp add: safe_right_lane_change_1_def)
next
  assume a: "wf_highway h1 \<and> length (road h1) = 2"
  then have "wf_highway h1" "valid_lane h1 LEFT"
    by (simp_all add: valid_lane_def LEFT_def)
  from three_cells_free_spec [OF this]
  show "safe_left_lane_change_1 h1 i =
        (if \<not> (- len h1 \<le> i \<and> i < len h1) then Inl IndexError
         else if cell_at h1 LEFT (wrap h1 i) \<noteq> None then Inr False
         else if \<not> i + 1 < len h1 then Inl IndexError
         else if cell_at h1 LEFT (wrap h1 (i + 1)) \<noteq> None then Inr False
         else if \<not> i + 2 < len h1 then Inl IndexError
         else Inr (cell_at h1 LEFT (wrap h1 (i + 2)) = None))"
    by (simp add: safe_left_lane_change_1_def)
qed


text \<open>
  The theorem at work. In \<^verbatim>\<open>highway_sim_V2.py\<close>, on a grid of two lanes of twelve
  cells with a vehicle in the last cell of lane 1, the check from lane 0 at position 2
  reads the indices \<open>-1\<close> to \<open>-3\<close>, which are the cells 11 to 9, and is false. In
  \<^verbatim>\<open>sim_client_requests.py\<close>, on the empty grid that \<^verbatim>\<open>Simulation\<close> builds, the
  rightward check from lane 2 is false although lane 3 is there and empty, and the
  leftward check from lane 1 at position 0 is true. In \<^verbatim>\<open>highway_sim1.py\<close>, on
  the empty grid the rightward check at position 108 raises \<^verbatim>\<open>IndexError\<close>; with a
  vehicle in cell 3 of the right lane it is true at position 0 (the vehicle is three
  cells ahead) and false at position 3, where the leftward check is true; and with a
  vehicle in cell 108 of the right lane it is false at position 108, the cell 110 not
  being read.
\<close>

theorem lane_change_check_windows_witness:
  "wf_highway_V2 \<lparr>road = [replicate 12 None, (replicate 12 None)[11 := Some 0]], len = 12, num_lanes = 2\<rparr>
   \<and> valid_lane \<lparr>road = [replicate 12 None, (replicate 12 None)[11 := Some 0]], len = 12, num_lanes = 2\<rparr> 0
   \<and> safe_right_lane_change_V2
        \<lparr>road = [replicate 12 None, (replicate 12 None)[11 := Some 0]], len = 12, num_lanes = 2\<rparr> 0 2
       = Inr False
   \<and> wf_highway_C (Highway_C HIGHWAY_LENGTH NUM_DEF_LANES NUM_SD_LANES)
   \<and> valid_lane (Highway_C HIGHWAY_LENGTH NUM_DEF_LANES NUM_SD_LANES) 2
   \<and> valid_lane (Highway_C HIGHWAY_LENGTH NUM_DEF_LANES NUM_SD_LANES) 3
   \<and> lane_empty (Highway_C HIGHWAY_LENGTH NUM_DEF_LANES NUM_SD_LANES) 3
   \<and> safe_right_lane_change_C (Highway_C HIGHWAY_LENGTH NUM_DEF_LANES NUM_SD_LANES) 2 50 = Inr False
   \<and> safe_left_lane_change (Highway_C HIGHWAY_LENGTH NUM_DEF_LANES NUM_SD_LANES) 1 0 = Inr True
   \<and> wf_highway (Highway_1 HIGHWAY_LENGTH)
   \<and> length (road (Highway_1 HIGHWAY_LENGTH)) = 2
   \<and> safe_right_lane_change_1 (Highway_1 HIGHWAY_LENGTH) 108 = Inl IndexError
   \<and> wf_highway \<lparr>road = [replicate 110 None, (replicate 110 None)[3 := Some 0]], len = 110\<rparr>
   \<and> safe_right_lane_change_1
        \<lparr>road = [replicate 110 None, (replicate 110 None)[3 := Some 0]], len = 110\<rparr> 0 = Inr True
   \<and> safe_right_lane_change_1
        \<lparr>road = [replicate 110 None, (replicate 110 None)[3 := Some 0]], len = 110\<rparr> 3 = Inr False
   \<and> safe_left_lane_change_1
        \<lparr>road = [replicate 110 None, (replicate 110 None)[3 := Some 0]], len = 110\<rparr> 3 = Inr True
   \<and> wf_highway \<lparr>road = [replicate 110 None, (replicate 110 None)[108 := Some 0]], len = 110\<rparr>
   \<and> safe_right_lane_change_1
        \<lparr>road = [replicate 110 None, (replicate 110 None)[108 := Some 0]], len = 110\<rparr> 108 = Inr False"
proof -
  let ?H = "\<lparr>road = [replicate 12 None, (replicate 12 None)[11 := Some 0]], len = 12, num_lanes = (2::int)\<rparr>"
  let ?C = "Highway_C HIGHWAY_LENGTH NUM_DEF_LANES NUM_SD_LANES"
  let ?E = "Highway_1 HIGHWAY_LENGTH"
  let ?A = "\<lparr>road = [replicate 110 None, (replicate 110 None)[3 := Some (0::nat)]], len = (110::int)\<rparr>"
  let ?B = "\<lparr>road = [replicate 110 None, (replicate 110 None)[108 := Some (0::nat)]], len = (110::int)\<rparr>"
  have h1: "wf_highway_V2 ?H"
    by (auto simp: wf_highway_V2_def wf_highway_def)
  have h2: "valid_lane ?H 0"
    by (simp add: valid_lane_def)
  have occ: "cell_at ?H (0 + 1) (wrap ?H (- 1)) \<noteq> None"
    by (simp add: cell_at_def wrap_def)
  have "\<not> (\<forall>k. 2 - LANE_CHANGE_SAFE_BACK \<le> k \<and> k \<le> 2 + LANE_CHANGE_SAFE_FORWARD
                          \<longrightarrow> cell_at ?H (0 + 1) (wrap ?H k) = None)"
    using occ by (intro notI) (auto simp: consts_simps dest!: spec [of _ "- 1"])
  with lane_change_check_windows [where hw = ?H and lane = 0 and i = 2, THEN conjunct1] h1 h2
  have r1: "safe_right_lane_change_V2 ?H 0 2 = Inr False"
    by (simp add: consts_simps)
  have wc: "wf_highway_C ?C"
    by (rule wf_Highway_C) (simp_all add: consts_simps)
  then have wcl: "wf_highway ?C" by (simp add: wf_highway_C_def)
  have vc: "valid_lane ?C 1" "valid_lane ?C 2" "valid_lane ?C 3" "valid_lane ?C 0"
    by (simp_all add: valid_lane_def consts_simps)
  have ec: "lane_empty ?C 3" "lane_empty ?C 0"
    by (rule lane_empty_replicate [of _ 4 110]; simp add: consts_simps)+
  from lane_change_check_windows [where hc = ?C and lane = 2 and i = 50, THEN conjunct2, THEN conjunct1] wc vc
  have r2: "safe_right_lane_change_C ?C 2 50 = Inr False"
    by (simp add: consts_simps)
  have "cell_at ?C (1 - 1) (wrap ?C k) = None" if "0 - 5 \<le> k \<and> k \<le> 0 + 5" for k
  proof -
    from that have "- len ?C \<le> k" "k < len ?C" by (simp_all add: consts_simps)
    from wrap_range [OF this] show ?thesis
      using lane_empty_cell [OF wcl vc(4) ec(2)] by simp
  qed
  with lane_change_check_windows [where hl = ?C and lane = 1 and i = 0, THEN conjunct2, THEN conjunct2, THEN conjunct1] wcl vc
  have r3: "safe_left_lane_change ?C 1 0 = Inr True"
    by (simp add: consts_simps)
  have wE: "wf_highway ?E \<and> length (road ?E) = 2"
    by (simp add: wf_highway_def Highway_1_def consts_simps)
  have wA: "wf_highway ?A \<and> length (road ?A) = 2"
    by (auto simp: wf_highway_def)
  have wB: "wf_highway ?B \<and> length (road ?B) = 2"
    by (auto simp: wf_highway_def)
  from lane_change_check_windows [where ?h1.0 = ?E and i = 108, THEN conjunct2, THEN conjunct2, THEN conjunct2] wE
  have r4: "safe_right_lane_change_1 ?E 108 = Inl IndexError"
    by (simp add: wrap_def cell_at_def RIGHT_def Highway_1_def consts_simps)
  from lane_change_check_windows [where ?h1.0 = ?A and i = 0, THEN conjunct2, THEN conjunct2, THEN conjunct2] wA
  have r5: "safe_right_lane_change_1 ?A 0 = Inr True"
    by (simp add: wrap_def cell_at_def RIGHT_def)
  from lane_change_check_windows [where ?h1.0 = ?A and i = 3, THEN conjunct2, THEN conjunct2, THEN conjunct2] wA
  have r6: "safe_right_lane_change_1 ?A 3 = Inr False" "safe_left_lane_change_1 ?A 3 = Inr True"
    by (simp_all add: wrap_def cell_at_def RIGHT_def LEFT_def)
  from lane_change_check_windows [where ?h1.0 = ?B and i = 108, THEN conjunct2, THEN conjunct2, THEN conjunct2] wB
  have r7: "safe_right_lane_change_1 ?B 108 = Inr False"
    by (simp add: wrap_def cell_at_def RIGHT_def)
  from h1 h2 r1 wc vc ec r2 r3 wE wA wB r4 r5 r6 r7 show ?thesis by simp
qed






section \<open>Writing cells\<close>

lemma set_cell_in_range:
  assumes "wf_highway hw" "valid_lane hw lane" "0 \<le> i" "i < len hw"
  shows "set_cell hw lane i v = Inr (put_cell hw lane i v)"
proof -
  have "py_index (road hw) lane = Inr (nat lane)"
    using assms(2) by (simp add: py_index_nonneg valid_lane_def)
  moreover have "py_index (road hw ! nat lane) i = Inr (nat i)"
    using wf_row [OF assms(1,2)] assms(3,4) by (simp add: py_index_nonneg)
  ultimately show ?thesis
    by (simp add: set_cell_def py_set_def put_cell_def)
qed

lemma put_cell_fields [simp]:
  "len (put_cell hw lane i v) = len hw"
  "length (road (put_cell hw lane i v)) = length (road hw)"
  "highway.more (put_cell hw lane i v) = highway.more hw"
  by (simp_all add: put_cell_def)

lemma put_cell_num_lanes [simp]: "num_lanes (put_cell hw lane i v) = num_lanes hw"
  by (simp add: put_cell_def)

lemma put_cell_num_C [simp]:
  "num_def_lanes (put_cell hw lane i v) = num_def_lanes hw"
  "num_sd_lanes (put_cell hw lane i v) = num_sd_lanes hw"
  by (simp_all add: put_cell_def)

lemma wf_put_cell [simp]: "wf_highway hw \<Longrightarrow> wf_highway (put_cell hw lane i v)"
proof -
  assume w: "wf_highway hw"
  have "int (length row) = len hw" if "row \<in> set (road (put_cell hw lane i v))" for row
  proof -
    from that obtain k where k: "k < length (road hw)"
      "row = (road hw)[nat lane := (road hw ! nat lane)[nat i := v]] ! k"
      by (auto simp: put_cell_def set_conv_nth)
    have "int (length (road hw ! k)) = len hw"
      using w k(1) by (simp add: wf_highway_def)
    then show ?thesis using k by (cases "k = nat lane") simp_all
  qed
  then show ?thesis using w by (simp add: wf_highway_def)
qed

lemma valid_lane_put_cell [simp]: "valid_lane (put_cell hw lane i v) l = valid_lane hw l"
  by (simp add: valid_lane_def)

lemma cell_at_put_cell:
  assumes "wf_highway hw" "valid_lane hw lane" "0 \<le> i" "i < len hw" "0 \<le> l" "0 \<le> j"
  shows "cell_at (put_cell hw lane i v) l j = (if l = lane \<and> j = i then v else cell_at hw l j)"
proof -
  have "nat i < length (road hw ! nat lane)"
    using wf_row [OF assms(1,2)] assms(3,4) by simp
  moreover have "nat lane < length (road hw)" using assms(2) by (auto simp: valid_lane_def)
  moreover have "nat l = nat lane \<longleftrightarrow> l = lane" "nat lane = nat l \<longleftrightarrow> l = lane"
    using assms(2,5) by (auto simp: valid_lane_def)
  moreover have "nat j = nat i \<longleftrightarrow> j = i" "nat i = nat j \<longleftrightarrow> j = i"
    using assms(3,6) by auto
  ultimately show ?thesis
    by (auto simp: cell_at_def put_cell_def nth_list_update)
qed

lemma set_road_in_range:
  "wf_highway (hwy s) \<Longrightarrow> valid_lane (hwy s) lane \<Longrightarrow> 0 \<le> i \<Longrightarrow> i < len (hwy s) \<Longrightarrow>
   set_road lane i v s = Inr (s\<lparr>hwy := put_cell (hwy s) lane i v\<rparr>)"
  by (simp add: set_road_def set_cell_in_range)

lemma driver_at_get:
  "driver_at s lane i r \<Longrightarrow> get_cell (hwy s) lane i = Inr (Some r)"
  by (simp add: driver_at_def get_cell_in_range)


lemma wf_Simulation_V2 [simp]: "wf_highway (hwy (Simulation_V2 ts))"
  using wf_Highway_V2 [of HIGHWAY_LENGTH NUM_LANES]
  by (simp add: Simulation_V2_def wf_highway_V2_def consts_simps)

lemma wf_Simulation_C [simp]: "wf_highway (hwy (Simulation_C ts))"
  using wf_Highway_C [of HIGHWAY_LENGTH NUM_DEF_LANES NUM_SD_LANES]
  by (simp add: Simulation_C_def wf_highway_C_def consts_simps)

lemma Simulation_fields [simp]:
  "len (hwy (Simulation_V2 ts)) = 110" "length (road (hwy (Simulation_V2 ts))) = 4"
  "len (hwy (Simulation_C ts)) = 110" "length (road (hwy (Simulation_C ts))) = 4"
  "num_lanes (hwy (Simulation_V2 ts)) = 4"
  "num_def_lanes (hwy (Simulation_C ts)) = 3" "num_sd_lanes (hwy (Simulation_C ts)) = 1"
  by (simp_all add: Simulation_V2_def Simulation_C_def consts_simps)

lemma put_cell_twice: "put_cell (put_cell hw l i v) l i w = put_cell hw l i w"
proof (cases "nat l < length (road hw)")
  case True
  then show ?thesis by (simp add: put_cell_def)
next
  case False
  then show ?thesis by (simp add: put_cell_def list_update_beyond)
qed

lemma put_cell_same: "cell_at hw l i = v \<Longrightarrow> put_cell hw l i v = hw"
  by (auto simp: put_cell_def cell_at_def)

lemma cell_at_Simulation [simp]:
  "0 \<le> l \<Longrightarrow> l < 4 \<Longrightarrow> 0 \<le> i \<Longrightarrow> i < 110 \<Longrightarrow> cell_at (hwy (Simulation_V2 ts)) l i = None"
  "0 \<le> l \<Longrightarrow> l < 4 \<Longrightarrow> 0 \<le> i \<Longrightarrow> i < 110 \<Longrightarrow> cell_at (hwy (Simulation_C ts)) l i = None"
  by (simp_all add: cell_at_def Simulation_V2_def Simulation_C_def consts_simps)

lemma Simulation_V2_sel [simp]:
  "data (Simulation_V2 ts) = []" "draws (Simulation_V2 ts) = 0" "next_ref (Simulation_V2 ts) = 0"
  "num_cars (Simulation_V2 ts) = 0" "current_step (Simulation_V2 ts) = 0"
  "time_steps (Simulation_V2 ts) = ts"
  by (simp_all add: Simulation_V2_def)

lemma Simulation_C_sel [simp]:
  "data (Simulation_C ts) = []" "draws (Simulation_C ts) = 0" "next_ref (Simulation_C ts) = 0"
  "num_cars (Simulation_C ts) = 0" "current_step (Simulation_C ts) = 0"
  "time_steps (Simulation_C ts) = ts" "crashes (Simulation_C ts) = []"
  by (simp_all add: Simulation_C_def)


section \<open>The traversal over empty cells\<close>

lemma lanes_loop_C_empty:
  assumes "wf_highway (hwy s)" "0 \<le> i" "i < len (hwy s)"
  shows "0 \<le> k \<Longrightarrow> k + int n \<le> int (length (road (hwy s))) \<Longrightarrow>
    \<forall>l. k \<le> l \<and> l < k + int n \<longrightarrow> cell_at (hwy s) l i = None \<Longrightarrow>
    lanes_loop_C rng i k n s = Inr s"
proof (induction n arbitrary: k)
  case 0
  then show ?case by simp
next
  case (Suc n)
  have v: "valid_lane (hwy s) k" using Suc.prems by (simp add: valid_lane_def)
  have "get_cell (hwy s) k i = Inr None"
    using get_cell_in_range [OF assms(1) v assms(2,3)] Suc.prems(3) by simp
  moreover have "lanes_loop_C rng i (k + 1) n s = Inr s"
    using Suc.prems by (intro Suc.IH) auto
  ultimately show ?case by simp
qed

lemma pass_C_skip:
  assumes "wf_highway_C (hwy s)"
  shows "m \<le> n \<Longrightarrow> int n \<le> len (hwy s) \<Longrightarrow>
    \<forall>j l. int m \<le> j \<and> j < int n \<and> 0 \<le> l \<and> l < int (length (road (hwy s)))
       \<longrightarrow> cell_at (hwy s) l j = None \<Longrightarrow>
    pass_C rng n s = pass_C rng m s"
proof (induction n)
  case 0
  then show ?case by simp
next
  case (Suc n)
  show ?case
  proof (cases "m = Suc n")
    case True
    then show ?thesis by simp
  next
    case False
    have wf: "wf_highway (hwy s)" using assms by (simp add: wf_highway_C_def)
    have nl: "int (nat (num_def_lanes (hwy s) + num_sd_lanes (hwy s))) = int (length (road (hwy s)))"
      using assms by (simp add: wf_highway_C_def)
    have "lanes_loop_C rng (int n) 0 (nat (num_def_lanes (hwy s) + num_sd_lanes (hwy s))) s = Inr s"
      using Suc.prems False nl by (intro lanes_loop_C_empty [OF wf]) auto
    moreover have "pass_C rng n s = pass_C rng m s"
      using Suc.prems False by (intro Suc.IH) auto
    ultimately show ?thesis by simp
  qed
qed

lemma wf_C_Simulation [simp]: "wf_highway_C (hwy (Simulation_C ts))"
  using wf_Highway_C [of HIGHWAY_LENGTH NUM_DEF_LANES NUM_SD_LANES]
  by (simp add: Simulation_C_def consts_simps)

lemma wf_C_put [simp]: "wf_highway_C hw \<Longrightarrow> wf_highway_C (put_cell hw l i v)"
  by (simp add: wf_highway_C_def)

lemma wf_V2_put [simp]: "wf_highway_V2 hw \<Longrightarrow> wf_highway_V2 (put_cell hw l i v)"
  by (simp add: wf_highway_V2_def)

lemma pass_init: "pass_C rng 110 (Simulation_C ts) = Inr (Simulation_C ts)"
  using pass_C_skip [of "Simulation_C ts" 0 110 rng] by simp


section \<open>Runs of \<^verbatim>\<open>sim_client_requests.py\<close>\<close>

lemmas prob_simps = CAR_PROBABILITY_def FAST_PROBABILITY_def IS_HUMAN_PROBABILITY_def
  DRUNK_PROBABILITY_def DRUNK_CRASH_PROB_def CRASH_PROB_def LEFT_LANE_CHANGE_PROBABILITY_def

lemma valid_lane_Simulation_C [simp]: "valid_lane (hwy (Simulation_C ts)) l \<longleftrightarrow> 0 \<le> l \<and> l < 4"
  by (simp add: valid_lane_def)

lemma valid_lane_Simulation_V2 [simp]: "valid_lane (hwy (Simulation_V2 ts)) l \<longleftrightarrow> 0 \<le> l \<and> l < 4"
  by (simp add: valid_lane_def)

lemma gen1: "gen_new_drivers_C arrive_once (1/10) (1/10) 0 (Simulation_C 100) =
   Inr (1, (Simulation_C 100)
     \<lparr>hwy := put_cell (hwy (Simulation_C 100)) 0 0 (Some 0),
      heap := (heap (Simulation_C 100))(0 := Driver_C 0 FAST 0 True False),
      next_ref := 1, draws := 6\<rparr>)"
  by (simp add: gen_new_drivers_C_def eval_nat_numeral gen_def_lane_def gen_sd_lane_def arrive_once_def
     new_driver_def set_road_in_range prob_simps Let_def)

lemma one_car_C_hwy [simp]:
  "wf_highway (hwy one_car_C)" "len (hwy one_car_C) = 110" "valid_lane (hwy one_car_C) l \<longleftrightarrow> 0 \<le> l \<and> l < 4"
  "0 \<le> l \<Longrightarrow> l < 4 \<Longrightarrow> 0 \<le> i \<Longrightarrow> i < 110 \<Longrightarrow>
     cell_at (hwy one_car_C) l i = (if l = 0 \<and> i = 0 then Some 0 else None)"
  by (simp_all add: one_car_C_def cell_at_put_cell)

lemma one_car_C_sel [simp]:
  "heap one_car_C 0 = Driver_C 0 FAST 0 True False" "draws one_car_C = 6" "crashes one_car_C = []"
  "data one_car_C = []"
  by (simp_all add: one_car_C_def)

lemma sdw_one_car_C: "safe_distance_within (hwy one_car_C) 0 0 9 = Inr 9"
proof -
  have "sdw_loop (hwy one_car_C) 0 9 (0 + 1) (nat 9) 0 = Inr (if len (hwy one_car_C) < 0 + 1 + int (nat 9) \<and> 0 < nat 9 then 9 else 0 + int (nat 9))"
    by (rule sdw_loop_clear) simp_all
  then show ?thesis by (simp add: safe_distance_within_def)
qed

lemma cruise1: "\<exists>s'. sim_cruise_C arrive_once 0 0 one_car_C = Inr s' \<and>
    cell_at (hwy s') 0 5 = Some 0 \<and> cell_at (hwy s') 0 1 = Some 0 \<and> cell_at (hwy s') 0 0 = None
    \<and> desire (heap s' 0) = LANE_CHANGE \<and> crashes s' = []"
proof -
  have g: "get_cell (hwy one_car_C) 0 0 = Inr (Some 0)"
    by (simp add: get_cell_in_range)
  show ?thesis
    using sdw_one_car_C
    by (simp add: sim_cruise_C_def g Driver_C_def consts_simps Let_def set_road_in_range
        set_desire_def arrive_once_def prob_simps cell_at_put_cell log_crash_def)
qed

lemma tick1: "tick_C arrive_once (1/10) (1/10) (Simulation_C 100) = Inr one_car_C"
proof -
  have "pass_C arrive_once (nat (len (hwy (Simulation_C 100)))) (Simulation_C 100) = Inr (Simulation_C 100)"
    using pass_init [of arrive_once 100] by simp
  then show ?thesis
    by (simp add: tick_C_def execute_time_step_C_def gen1 one_car_C_def)
qed

lemma one_car_C_sel2 [simp]: "num_cars one_car_C = 1" "current_step one_car_C = 1" "next_ref one_car_C = 1"
  by (simp_all add: one_car_C_def)

lemma driver1: "\<exists>s'. sim_driver_C arrive_once 0 0 one_car_C = Inr s' \<and>
    hwy s' = put_cell (put_cell (put_cell (hwy one_car_C) 0 5 (Some 0)) 0 1 (Some 0)) 0 0 None
    \<and> desire (heap s' 0) = LANE_CHANGE \<and> crashes s' = [] \<and> data s' = [] \<and> draws s' = 8
    \<and> num_cars s' = 1 \<and> current_step s' = 1 \<and> next_ref s' = 1"
proof -
  have g: "get_cell (hwy one_car_C) 0 0 = Inr (Some 0)"
    by (simp add: get_cell_in_range)
  show ?thesis
    using sdw_one_car_C
    by (simp add: sim_driver_C_def crash_check_C_def decide_direction_C_def perform_C_def
        sim_cruise_C_def g Driver_C_def consts_simps Let_def set_road_in_range
        set_desire_def arrive_once_def prob_simps cell_at_put_cell log_crash_def)
qed

lemma one_car_C_hwy2 [simp]: "wf_highway_C (hwy one_car_C)" "length (road (hwy one_car_C)) = 4"
  "num_def_lanes (hwy one_car_C) = 3" "num_sd_lanes (hwy one_car_C) = 1"
  by (simp_all add: one_car_C_def)

lemma tick2: "\<exists>s'. tick_C arrive_once (1/10) (1/10) one_car_C = Inr s' \<and>
    cell_at (hwy s') 0 1 = Some 0 \<and> cell_at (hwy s') 0 5 = Some 0 \<and> data s' = []"
proof -
  from driver1 obtain s1 where s1: "sim_driver_C arrive_once 0 0 one_car_C = Inr s1"
    "hwy s1 = put_cell (put_cell (put_cell (hwy one_car_C) 0 5 (Some 0)) 0 1 (Some 0)) 0 0 None"
    "data s1 = []" "draws s1 = 8" "num_cars s1 = 1"
    by blast
  have wf1: "wf_highway (hwy s1)" "len (hwy s1) = 110" "length (road (hwy s1)) = 4"
    "num_def_lanes (hwy s1) = 3" "num_sd_lanes (hwy s1) = 1"
    by (simp_all add: s1(2))
  have c1: "cell_at (hwy s1) l i = (if l = 0 \<and> (i = 1 \<or> i = 5) then Some 0 else None)"
    if "0 \<le> l" "l < 4" "0 \<le> i" "i < 110" for l i
    using that by (simp add: s1(2) cell_at_put_cell)
  have p1: "pass_C arrive_once 110 one_car_C = pass_C arrive_once 1 one_car_C"
    by (rule pass_C_skip) simp_all
  have g: "get_cell (hwy one_car_C) 0 0 = Inr (Some 0)"
    by (simp add: get_cell_in_range)
  have "lanes_loop_C arrive_once 0 (0 + 1) 3 s1 = Inr s1"
    by (rule lanes_loop_C_empty) (simp_all add: wf1 c1)
  then have "lanes_loop_C arrive_once 0 0 4 one_car_C = Inr s1"
    using g s1(1) by (simp add: eval_nat_numeral)
  then have p2: "pass_C arrive_once 110 one_car_C = Inr s1"
    using p1 by simp
  have gen: "gen_new_drivers_C arrive_once (1/10) (1/10) 1 s1 = Inr (1, s1\<lparr>draws := 12\<rparr>)"
    by (simp add: gen_new_drivers_C_def eval_nat_numeral gen_def_lane_def gen_sd_lane_def arrive_once_def
        wf1 s1 Let_def)
  have "tick_C arrive_once (1/10) (1/10) one_car_C = Inr (s1\<lparr>draws := 12, num_cars := 1, current_step := current_step s1 + 1\<rparr>)"
    by (simp add: tick_C_def execute_time_step_C_def p2 gen s1)
  then show ?thesis
    using s1(3) by (simp add: c1)
qed

lemma client_duplicate:
  "\<exists>s. ticks_C arrive_once (1/10) (1/10) 2 (Simulation_C 100) = Inr s \<and>
    cell_at (hwy s) 0 1 = Some 0 \<and> cell_at (hwy s) 0 5 = Some 0 \<and> data s = []"
  using tick2 by (auto simp: eval_nat_numeral tick1)

lemma gen_lost: "gen_new_drivers_C (\<lambda>_. 0) (1/10) (1/10) 0 (Simulation_C 100) =
    Inr (4, (Simulation_C 100)
     \<lparr>hwy := put_cell (put_cell (put_cell (put_cell (hwy (Simulation_C 100)) 0 0 (Some 0)) 1 0 (Some 1)) 2 0 (Some 2)) 2 0 (Some 3),
      heap := (heap (Simulation_C 100))(0 := Driver_C 0 FAST 0 True True,
          1 := Driver_C 1 FAST 0 True True, 2 := Driver_C 2 FAST 0 True True,
          3 := Driver_C 3 FAST 0 False False),
      next_ref := 4, draws := 11\<rparr>)"
    by (simp add: gen_new_drivers_C_def eval_nat_numeral gen_def_lane_def gen_sd_lane_def
     new_driver_def set_road_in_range prob_simps Let_def)


lemma client_lost:
  "\<exists>s. tick_C (\<lambda>_. 0) (1/10) (1/10) (Simulation_C 100) = Inr s \<and> num_cars s = 4 \<and> data s = [] \<and>
     hwy s = put_cell (put_cell (put_cell (hwy (Simulation_C 100)) 0 0 (Some 0)) 1 0 (Some 1)) 2 0 (Some 3)"
proof -
  have "pass_C (\<lambda>_. 0) 110 (Simulation_C 100) = Inr (Simulation_C 100)"
    by (rule pass_init)
  then show ?thesis
    by (simp add: tick_C_def execute_time_step_C_def gen_lost put_cell_twice)
qed

lemma two_cars_hwy [simp]:
  "wf_highway (hwy (two_cars_C b))" "len (hwy (two_cars_C b)) = 110"
  "valid_lane (hwy (two_cars_C b)) l \<longleftrightarrow> 0 \<le> l \<and> l < 4"
  "0 \<le> l \<Longrightarrow> l < 4 \<Longrightarrow> 0 \<le> i \<Longrightarrow> i < 110 \<Longrightarrow>
     cell_at (hwy (two_cars_C b)) l i =
       (if l = 0 \<and> i = 0 then Some 1 else if l = 0 \<and> i = 3 then Some 0 else None)"
  by (simp_all add: two_cars_C_def cell_at_put_cell)

lemma two_cars_sel [simp]:
  "heap (two_cars_C b) 1 = Driver_C 1 FAST 1 True b"
  "heap (two_cars_C b) (Suc 0) = Driver_C 1 FAST 1 True b" "draws (two_cars_C b) = 0"
  "crashes (two_cars_C b) = []" "data (two_cars_C b) = []"
  by (simp_all add: two_cars_C_def)

lemma put_cell_swap:
  "(l, i) \<noteq> (l', i') \<Longrightarrow> 0 \<le> l \<Longrightarrow> 0 \<le> l' \<Longrightarrow> 0 \<le> i \<Longrightarrow> 0 \<le> i' \<Longrightarrow>
   put_cell (put_cell hw l i v) l' i' w = put_cell (put_cell hw l' i' w) l i v"
proof (cases "l = l'")
  case True
  assume a: "(l, i) \<noteq> (l', i')" "0 \<le> i" "0 \<le> i'"
  with True have "nat i \<noteq> nat i'" by auto
  then show ?thesis using True
    by (cases "nat l < length (road hw)") (simp_all add: put_cell_def list_update_swap list_update_beyond)
next
  case False
  assume "0 \<le> l" "0 \<le> l'"
  with False have "nat l \<noteq> nat l'" by auto
  then show ?thesis
    by (simp add: put_cell_def list_update_swap)
qed

lemma sdw_two_cars: "safe_distance_within (hwy (two_cars_C b)) 0 0 9 = Inr 2"
proof -
  have "sdw_loop (hwy (two_cars_C b)) 0 9 (0 + 1) (nat 9) 0 = Inr (0 + int 2)"
    by (rule sdw_loop_blocked) simp_all
  then show ?thesis by (simp add: safe_distance_within_def)
qed



text \<open>
  C3 on \<^verbatim>\<open>sim_client_requests.py\<close>. The claim describes the cruise step of
  \<^verbatim>\<open>highway_sim_V2.py\<close>; in \<^verbatim>\<open>sim_client_requests.py\<close> the crash test was inserted
  between the \<^verbatim>\<open>elif\<close> and the \<^verbatim>\<open>else\<close> of that step, and the \<^verbatim>\<open>else\<close> now
  belongs to the crash test. Two runs of \<^verbatim>\<open>sim_cruise\<close> with a draw of 1/2:
  \<^item> in \<open>one_car_C\<close> the clearance is full (\<open>x = k = 9\<close>): the vehicle is written to
    position 5 and also to position 1, and its desire becomes \<^verbatim>\<open>LANE_CHANGE\<close>; the
    claim has it at position 5 only, with its desire unchanged;
  \<^item> in \<open>two_cars_C True\<close> the drunk vehicle at position 0 has \<open>x = 2\<close>, not above its
    follow distance 4: it is written to no cell and its origin is cleared, so it is
    no longer on the grid, and its desire stays \<^verbatim>\<open>CRUISE\<close>; the claim has it at
    position 1 with desire \<^verbatim>\<open>LANE_CHANGE\<close>.
\<close>

theorem client_cruise_step_misplaces:
  "safe_distance_within (hwy one_car_C) 0 0 9 = Inr 9
   \<and> speed (heap one_car_C 0) = 5 \<and> safe_follow (heap one_car_C 0) = 4
   \<and> desire (heap one_car_C 0) = CRUISE
   \<and> (\<exists>s. sim_cruise_C (\<lambda>_. 1 / 2) 0 0 one_car_C = Inr s
         \<and> hwy s = put_cell (put_cell (put_cell (hwy one_car_C) 0 5 (Some 0)) 0 1 (Some 0)) 0 0 None
         \<and> cell_at (hwy s) 0 5 = Some 0 \<and> cell_at (hwy s) 0 1 = Some 0
         \<and> desire (heap s 0) = LANE_CHANGE)
   \<and> safe_distance_within (hwy (two_cars_C True)) 0 0 9 = Inr 2
   \<and> speed (heap (two_cars_C True) 1) = 5 \<and> safe_follow (heap (two_cars_C True) 1) = 4
   \<and> (\<exists>s. sim_cruise_C (\<lambda>_. 1 / 2) 0 0 (two_cars_C True) = Inr s
         \<and> hwy s = put_cell (hwy (two_cars_C True)) 0 0 None
         \<and> cell_at (hwy s) 0 0 = None \<and> cell_at (hwy s) 0 1 = None
         \<and> desire (heap s 1) = CRUISE)"
proof -
  have g1: "get_cell (hwy one_car_C) 0 0 = Inr (Some 0)"
    by (simp add: get_cell_in_range)
  have g2: "get_cell (hwy (two_cars_C True)) 0 0 = Inr (Some 1)"
    by (simp add: get_cell_in_range)
  have a: "\<exists>s. sim_cruise_C (\<lambda>_. 1 / 2) 0 0 one_car_C = Inr s
         \<and> hwy s = put_cell (put_cell (put_cell (hwy one_car_C) 0 5 (Some 0)) 0 1 (Some 0)) 0 0 None
         \<and> cell_at (hwy s) 0 5 = Some 0 \<and> cell_at (hwy s) 0 1 = Some 0
         \<and> desire (heap s 0) = LANE_CHANGE"
    using sdw_one_car_C
    by (simp add: sim_cruise_C_def g1 Driver_C_def consts_simps Let_def set_road_in_range
        set_desire_def prob_simps cell_at_put_cell log_crash_def)
  have b: "\<exists>s. sim_cruise_C (\<lambda>_. 1 / 2) 0 0 (two_cars_C True) = Inr s
         \<and> hwy s = put_cell (hwy (two_cars_C True)) 0 0 None
         \<and> cell_at (hwy s) 0 0 = None \<and> cell_at (hwy s) 0 1 = None
         \<and> desire (heap s 1) = CRUISE"
    using sdw_two_cars [of True]
    by (simp add: sim_cruise_C_def g2 Driver_C_def consts_simps Let_def set_road_in_range
        set_desire_def prob_simps cell_at_put_cell log_crash_def)
  show ?thesis
    using a b sdw_one_car_C sdw_two_cars [of True]
    by (simp add: Driver_C_def consts_simps)
qed


text \<open>
  C2 on \<^verbatim>\<open>sim_client_requests.py\<close>. \<^verbatim>\<open>sim_driver\<close> processes the sober vehicle at
  position 0 of \<open>two_cars_C False\<close> (\<open>x = 2\<close>) under two sequences of draws that
  differ only in draw 1, the crash test of \<^verbatim>\<open>sim_cruise\<close>. When the test hits (draw
  0) the speed is logged, the vehicle is written to no cell and its origin is
  cleared; when it misses (draw 1/2) the vehicle moves to position 1 and its desire
  becomes \<^verbatim>\<open>LANE_CHANGE\<close>. The grid and the vehicle's state depend on the test.
\<close>

theorem client_crash_roll_alters_state:
  "(\<exists>s. sim_driver_C (\<lambda>n. if n = 1 then 0 else 1 / 2) 0 0 (two_cars_C False) = Inr s
       \<and> crashes s = [5]
       \<and> hwy s = put_cell (hwy (two_cars_C False)) 0 0 None
       \<and> cell_at (hwy s) 0 1 = None
       \<and> desire (heap s 1) = CRUISE)
   \<and> (\<exists>s. sim_driver_C (\<lambda>n. 1 / 2) 0 0 (two_cars_C False) = Inr s
       \<and> crashes s = []
       \<and> hwy s = put_cell (put_cell (hwy (two_cars_C False)) 0 1 (Some 1)) 0 0 None
       \<and> cell_at (hwy s) 0 1 = Some 1
       \<and> desire (heap s 1) = LANE_CHANGE)"
proof -
  have g: "get_cell (hwy (two_cars_C False)) 0 0 = Inr (Some 1)"
    by (simp add: get_cell_in_range)
  have a: "\<exists>s. sim_driver_C (\<lambda>n. if n = 1 then 0 else 1 / 2) 0 0 (two_cars_C False) = Inr s
       \<and> crashes s = [5]
       \<and> hwy s = put_cell (hwy (two_cars_C False)) 0 0 None
       \<and> cell_at (hwy s) 0 1 = None
       \<and> desire (heap s 1) = CRUISE"
    using sdw_two_cars [of False]
    by (simp add: sim_driver_C_def crash_check_C_def decide_direction_C_def perform_C_def
        sim_cruise_C_def g Driver_C_def consts_simps Let_def set_road_in_range
        set_desire_def prob_simps cell_at_put_cell log_crash_def)
  have b: "\<exists>s. sim_driver_C (\<lambda>n. 1 / 2) 0 0 (two_cars_C False) = Inr s
       \<and> crashes s = []
       \<and> hwy s = put_cell (put_cell (hwy (two_cars_C False)) 0 1 (Some 1)) 0 0 None
       \<and> cell_at (hwy s) 0 1 = Some 1
       \<and> desire (heap s 1) = LANE_CHANGE"
    using sdw_two_cars [of False]
    by (simp add: sim_driver_C_def crash_check_C_def decide_direction_C_def perform_C_def
        sim_cruise_C_def g Driver_C_def consts_simps Let_def set_road_in_range
        set_desire_def prob_simps cell_at_put_cell log_crash_def)
  from a b show ?thesis by (rule conjI)
qed


text \<open>
  C1 on \<^verbatim>\<open>sim_client_requests.py\<close>, from the initial state of \<^verbatim>\<open>Simulation\<close>, with
  both arrival probabilities 1/10 (the value the module gives them).
  \<^item> With the draws \<open>arrive_once\<close>, after two ticks the reference to the one vehicle
    that arrived is in two cells, positions 1 and 5 of lane 0, and nothing has left.
  \<^item> With every draw 0, the first tick creates four vehicles (\<^verbatim>\<open>num_cars\<close> is 4) and
    the grid holds three of them: the vehicle of lane 2 (object 2) was replaced in its
    entry cell by the self-driving arrival (object 3), which the second loop of
    \<^verbatim>\<open>gen_new_drivers\<close> writes to lane \<^verbatim>\<open>0 + num_def_lanes - 1 = 2\<close>. No exit was
    recorded.
\<close>

theorem client_tick_duplicates_and_loses:
  "(\<exists>s. ticks_C arrive_once (1 / 10) (1 / 10) 2 (Simulation_C 100) = Inr s
       \<and> cell_at (hwy s) 0 1 = Some 0 \<and> cell_at (hwy s) 0 5 = Some 0 \<and> data s = [])
   \<and> (\<exists>s. tick_C (\<lambda>_. 0) (1 / 10) (1 / 10) (Simulation_C 100) = Inr s
       \<and> num_cars s = 4 \<and> data s = []
       \<and> hwy s = put_cell (put_cell (put_cell (hwy (Simulation_C 100))
                     0 0 (Some 0)) 1 0 (Some 1)) 2 0 (Some 3))"
  using client_duplicate client_lost by (rule conjI)

section \<open>Leaving the highway\<close>

lemma leave_highway_result:
  assumes da: "driver_at s lane i r"
    and ne: "arrive_time (heap s r) \<noteq> current_step s"
  shows "leave_highway lane i r s =
     Inr (s\<lparr>hwy := put_cell (hwy s) lane i None,
            heap := (heap s)(r := (heap s r)
               \<lparr>final_time := current_step s,
                final_dist := HIGHWAY_LENGTH,
                travel_time := current_step s - arrive_time (heap s r),
                avg_speed := real_of_int HIGHWAY_LENGTH /
                             real_of_int (current_step s - arrive_time (heap s r))\<rparr>),
            data := data s @
              [\<lparr>out_id = car_id (heap s r), out_speed = speed (heap s r),
                out_is_human = is_human (heap s r),
                out_arrive_time = arrive_time (heap s r),
                out_final_time = current_step s,
                out_travel_time = current_step s - arrive_time (heap s r),
                out_final_dist = HIGHWAY_LENGTH,
                out_avg_speed = real_of_int HIGHWAY_LENGTH /
                             real_of_int (current_step s - arrive_time (heap s r))\<rparr>]\<rparr>)"
proof -
  have st: "set_road lane i None s = Inr (s\<lparr>hwy := put_cell (hwy s) lane i None\<rparr>)"
    using da by (intro set_road_in_range) (simp_all add: driver_at_def)
  show ?thesis
    using ne by (simp add: leave_highway_def st Let_def output_data_def)
qed

lemma exit_pair_C_hwy [simp]:
  "wf_highway (hwy exit_pair_C)" "len (hwy exit_pair_C) = 110"
  "valid_lane (hwy exit_pair_C) l \<longleftrightarrow> 0 \<le> l \<and> l < 4"
  "0 \<le> l \<Longrightarrow> l < 4 \<Longrightarrow> 0 \<le> i \<Longrightarrow> i < 110 \<Longrightarrow>
     cell_at (hwy exit_pair_C) l i = (if l = 0 \<and> (i = 101 \<or> i = 105) then Some 0 else None)"
  by (simp_all add: exit_pair_C_def cell_at_put_cell)

lemma exit_pair_C_sel [simp]:
  "heap exit_pair_C 0 = (Driver_C 0 FAST 0 True False)\<lparr>desire := LANE_CHANGE\<rparr>"
  "draws exit_pair_C = 132" "crashes exit_pair_C = replicate 20 5" "data exit_pair_C = []"
  "current_step exit_pair_C = 22" "num_cars exit_pair_C = 1" "next_ref exit_pair_C = 1"
  by (simp_all add: exit_pair_C_def)

text \<open>
  C7 on \<^verbatim>\<open>sim_client_requests.py\<close>. When \<^verbatim>\<open>sim_driver\<close> is called on the cell
  \<open>(lane, i)\<close> that holds the vehicle \<open>r\<close>, with \<open>i + speed \<ge> length - 1\<close> and an
  arrival step other than the current one, it stamps the vehicle, appends its exit
  record to \<^verbatim>\<open>data\<close> and empties that cell, and returns. It empties no other cell:
  a vehicle that is also referenced from a second cell \<open>(l2, i2)\<close>, as the cruise step
  of this file leaves it, is still on the grid after its exit was recorded, and the
  traversal will call \<^verbatim>\<open>sim_driver\<close> on it again.
\<close>

theorem client_exit_leaves_vehicle_on_grid:
  "driver_at c lane i r \<and> len (hwy c) - 1 \<le> speed (heap c r) + i
     \<and> arrive_time (heap c r) \<noteq> current_step c
     \<and> driver_at c l2 i2 r \<and> (l2, i2) \<noteq> (lane, i)
   \<longrightarrow> (\<exists>c'. sim_driver_C rng lane i c = Inr c'
          \<and> data c' = data c @ [output_data (heap c' r)]
          \<and> final_time (heap c' r) = current_step c
          \<and> cell_at (hwy c') lane i = None
          \<and> driver_at c' l2 i2 r)"
proof
  assume a: "driver_at c lane i r \<and> len (hwy c) - 1 \<le> speed (heap c r) + i
     \<and> arrive_time (heap c r) \<noteq> current_step c
     \<and> driver_at c l2 i2 r \<and> (l2, i2) \<noteq> (lane, i)"
  then have da: "driver_at c lane i r" and ne: "arrive_time (heap c r) \<noteq> current_step c"
    and d2: "driver_at c l2 i2 r" by simp_all
  have wf: "wf_highway (hwy c)" and v: "valid_lane (hwy c) lane" and i: "0 \<le> i" "i < len (hwy c)"
    using da by (simp_all add: driver_at_def)
  have v2: "valid_lane (hwy c) l2" "0 \<le> i2" "i2 < len (hwy c)" "cell_at (hwy c) l2 i2 = Some r"
    using d2 by (simp_all add: driver_at_def)
  have l0: "0 \<le> lane" "0 \<le> l2" using v v2(1) by (simp_all add: valid_lane_def)
  have g: "get_cell (hwy c) lane i = Inr (Some r)" using da by (rule driver_at_get)
  have c1: "cell_at (put_cell (hwy c) lane i None) lane i = None"
    using cell_at_put_cell [OF wf v i l0(1) i(1), of None] by simp
  have c2: "cell_at (put_cell (hwy c) lane i None) l2 i2 = Some r"
    using cell_at_put_cell [OF wf v i l0(2) v2(2), of None] a v2(4) by auto
  show "\<exists>c'. sim_driver_C rng lane i c = Inr c'
          \<and> data c' = data c @ [output_data (heap c' r)]
          \<and> final_time (heap c' r) = current_step c
          \<and> cell_at (hwy c') lane i = None
          \<and> driver_at c' l2 i2 r"
    using a wf v2 c1 c2
    by (simp add: sim_driver_C_def g leave_highway_result [OF da ne] output_data_def driver_at_def)
qed

text \<open>
  The theorem on \<open>exit_pair_C\<close>: the call on the cell 105 of lane 0 records the exit
  of vehicle 0, and the vehicle is still in the cell 101 of that lane.
\<close>

theorem client_exit_leaves_vehicle_on_grid_witness:
  "driver_at exit_pair_C 0 105 0
   \<and> len (hwy exit_pair_C) - 1 \<le> speed (heap exit_pair_C 0) + 105
   \<and> arrive_time (heap exit_pair_C 0) \<noteq> current_step exit_pair_C
   \<and> driver_at exit_pair_C 0 101 0
   \<and> (\<exists>c'. sim_driver_C (\<lambda>_. 1 / 2) 0 105 exit_pair_C = Inr c'
          \<and> data c' = [\<lparr>out_id = 0, out_speed = 5, out_is_human = True, out_arrive_time = 0,
                         out_final_time = 22, out_travel_time = 22, out_final_dist = 110,
                         out_avg_speed = 5\<rparr>]
          \<and> cell_at (hwy c') 0 105 = None
          \<and> driver_at c' 0 101 0)"
proof -
  have h: "driver_at exit_pair_C 0 105 0 \<and> len (hwy exit_pair_C) - 1 \<le> speed (heap exit_pair_C 0) + 105
     \<and> arrive_time (heap exit_pair_C 0) \<noteq> current_step exit_pair_C
     \<and> driver_at exit_pair_C 0 101 0 \<and> ((0::int), (101::int)) \<noteq> (0, 105)"
    by (simp add: driver_at_def Driver_C_def consts_simps)
  from client_exit_leaves_vehicle_on_grid [where c = exit_pair_C and lane = 0 and i = 105
      and r = 0 and ?l2.0 = 0 and ?i2.0 = 101 and rng = "\<lambda>_. 1 / 2"] h
  obtain c' where c': "sim_driver_C (\<lambda>_. 1 / 2) 0 105 exit_pair_C = Inr c'"
    "data c' = data exit_pair_C @ [output_data (heap c' 0)]"
    "cell_at (hwy c') 0 105 = None" "driver_at c' 0 101 0"
    by blast
  have da: "driver_at exit_pair_C 0 105 0" using h by simp
  have g: "get_cell (hwy exit_pair_C) 0 105 = Inr (Some 0)" using da by (rule driver_at_get)
  have "heap c' 0 = (heap exit_pair_C 0)
               \<lparr>final_time := 22, final_dist := 110, travel_time := 22, avg_speed := 5\<rparr>"
    using c'(1) leave_highway_result [OF da]
    by (auto simp: sim_driver_C_def g Driver_C_def consts_simps)
  with c'(2) have "data c' = [\<lparr>out_id = 0, out_speed = 5, out_is_human = True, out_arrive_time = 0,
                         out_final_time = 22, out_travel_time = 22, out_final_dist = 110,
                         out_avg_speed = 5\<rparr>]"
    by (simp add: output_data_def Driver_C_def consts_simps)
  with c' h show ?thesis by simp
qed

section \<open>Arrivals\<close>

lemma new_driver_in_range:
  "wf_highway (hwy s) \<Longrightarrow> valid_lane (hwy s) lane \<Longrightarrow> 0 < len (hwy s) \<Longrightarrow>
   new_driver d lane s =
     Inr (s\<lparr>hwy := put_cell (hwy s) lane 0 (Some (next_ref s)),
            heap := (heap s)(next_ref s := d), next_ref := Suc (next_ref s)\<rparr>)"
  by (simp add: new_driver_def set_road_in_range)


lemma one_car_V2_hwy [simp]:
  "wf_highway (hwy one_car_V2)" "len (hwy one_car_V2) = 110"
  "valid_lane (hwy one_car_V2) l \<longleftrightarrow> 0 \<le> l \<and> l < 4"
  "num_lanes (hwy one_car_V2) = 4"
  "0 \<le> l \<Longrightarrow> l < 4 \<Longrightarrow> 0 \<le> i \<Longrightarrow> i < 110 \<Longrightarrow>
     cell_at (hwy one_car_V2) l i = (if l = 0 \<and> i = 0 then Some 0 else None)"
  by (simp_all add: one_car_V2_def cell_at_put_cell)

lemma one_car_V2_sel [simp]:
  "heap one_car_V2 0 = Driver 0 SLOW 0 True" "draws one_car_V2 = 6" "data one_car_V2 = []"
  "num_cars one_car_V2 = 1" "current_step one_car_V2 = 1" "next_ref one_car_V2 = 1"
  by (simp_all add: one_car_V2_def)


text \<open>
  C9 on \<^verbatim>\<open>sim_client_requests.py\<close>. The first tick from the initial state of
  \<^verbatim>\<open>Simulation\<close>, with both arrival probabilities 1/10 and every draw 0, so that
  every arrival roll succeeds. The traversal finds the grid empty and changes nothing.
  The loop of \<^verbatim>\<open>gen_new_drivers\<close> over the default lanes then creates the objects 0,
  1 and 2 and writes them to the entry cells of the lanes 0, 1 and 2, which were
  empty. The loop over the self-driving lanes creates object 3 and writes it to the
  lane \<^verbatim>\<open>0 + num_def_lanes - 1 = 2\<close>: the entry cell of lane 2 is occupied by object
  2 at that moment, the arrival is not dropped, and object 3 replaces object 2 there.
  After the tick the human-driven vehicle 2 is in no cell, the entry cell of the
  self-driving lane 3 is still empty, and \<^verbatim>\<open>num_cars\<close> is 4.
\<close>

theorem client_arrival_overwrites_entry_cell:
  "pass_C (\<lambda>_. 0) (nat (len (hwy (Simulation_C 100)))) (Simulation_C 100) = Inr (Simulation_C 100)
   \<and> (\<exists>s1 s2.
        gen_def_loop (\<lambda>_. 0) (1 / 10) 0 3 0 (Simulation_C 100) = Inr (3, s1)
        \<and> hwy s1 = put_cell (put_cell (put_cell (hwy (Simulation_C 100))
                      0 0 (Some 0)) 1 0 (Some 1)) 2 0 (Some 2)
        \<and> cell_at (hwy s1) 2 0 = Some 2 \<and> cell_at (hwy s1) 3 0 = None
        \<and> gen_sd_lane (\<lambda>_. 0) (1 / 10) 0 3 s1 = Inr (4, s2)
        \<and> hwy s2 = put_cell (put_cell (put_cell (hwy (Simulation_C 100))
                      0 0 (Some 0)) 1 0 (Some 1)) 2 0 (Some 3)
        \<and> cell_at (hwy s2) 2 0 = Some 3 \<and> cell_at (hwy s2) 3 0 = None
        \<and> is_human (heap s2 2) \<and> \<not> is_human (heap s2 3)
        \<and> tick_C (\<lambda>_. 0) (1 / 10) (1 / 10) (Simulation_C 100) =
            Inr (s2\<lparr>num_cars := 4, current_step := 1\<rparr>))"
proof -
  have p: "pass_C (\<lambda>_. 0) (nat (len (hwy (Simulation_C 100)))) (Simulation_C 100) = Inr (Simulation_C 100)"
    using pass_init [of "\<lambda>_. 0" 100] by simp
  let ?s1 = "(Simulation_C 100)
     \<lparr>hwy := put_cell (put_cell (put_cell (hwy (Simulation_C 100)) 0 0 (Some 0)) 1 0 (Some 1)) 2 0 (Some 2),
      heap := (heap (Simulation_C 100))(0 := Driver_C 0 FAST 0 True True,
          1 := Driver_C 1 FAST 0 True True, 2 := Driver_C 2 FAST 0 True True),
      next_ref := 3, draws := 9\<rparr>"
  let ?s2 = "(Simulation_C 100)
     \<lparr>hwy := put_cell (put_cell (put_cell (hwy (Simulation_C 100)) 0 0 (Some 0)) 1 0 (Some 1)) 2 0 (Some 3),
      heap := (heap (Simulation_C 100))(0 := Driver_C 0 FAST 0 True True,
          1 := Driver_C 1 FAST 0 True True, 2 := Driver_C 2 FAST 0 True True,
          3 := Driver_C 3 FAST 0 False False),
      next_ref := 4, draws := 11\<rparr>"
  have a: "gen_def_loop (\<lambda>_. 0) (1 / 10) 0 3 0 (Simulation_C 100) = Inr (3, ?s1)"
    by (simp add: eval_nat_numeral gen_def_lane_def new_driver_def set_road_in_range
        prob_simps Let_def)
  have b: "gen_sd_lane (\<lambda>_. 0) (1 / 10) 0 3 ?s1 = Inr (4, ?s2)"
    by (simp add: gen_sd_lane_def new_driver_def set_road_in_range Let_def put_cell_twice)
  have c: "cell_at (hwy ?s1) 2 0 = Some 2 \<and> cell_at (hwy ?s1) 3 0 = None"
    "cell_at (hwy ?s2) 2 0 = Some 3 \<and> cell_at (hwy ?s2) 3 0 = None"
    "is_human (heap ?s2 2) \<and> \<not> is_human (heap ?s2 3)"
    by (simp_all add: cell_at_put_cell Driver_C_def)
  have t: "tick_C (\<lambda>_. 0) (1 / 10) (1 / 10) (Simulation_C 100) =
      Inr (?s2\<lparr>num_cars := 4, current_step := 1\<rparr>)"
    using p by (simp add: tick_C_def execute_time_step_C_def gen_lost put_cell_twice)
  have "gen_def_loop (\<lambda>_. 0) (1 / 10) 0 3 0 (Simulation_C 100) = Inr (3, ?s1)
        \<and> hwy ?s1 = put_cell (put_cell (put_cell (hwy (Simulation_C 100))
                      0 0 (Some 0)) 1 0 (Some 1)) 2 0 (Some 2)
        \<and> cell_at (hwy ?s1) 2 0 = Some 2 \<and> cell_at (hwy ?s1) 3 0 = None
        \<and> gen_sd_lane (\<lambda>_. 0) (1 / 10) 0 3 ?s1 = Inr (4, ?s2)
        \<and> hwy ?s2 = put_cell (put_cell (put_cell (hwy (Simulation_C 100))
                      0 0 (Some 0)) 1 0 (Some 1)) 2 0 (Some 3)
        \<and> cell_at (hwy ?s2) 2 0 = Some 3 \<and> cell_at (hwy ?s2) 3 0 = None
        \<and> is_human (heap ?s2 2) \<and> \<not> is_human (heap ?s2 3)
        \<and> tick_C (\<lambda>_. 0) (1 / 10) (1 / 10) (Simulation_C 100) =
            Inr (?s2\<lparr>num_cars := 4, current_step := 1\<rparr>)"
    using a b c t by simp
  then have "\<exists>s1 s2.
        gen_def_loop (\<lambda>_. 0) (1 / 10) 0 3 0 (Simulation_C 100) = Inr (3, s1)
        \<and> hwy s1 = put_cell (put_cell (put_cell (hwy (Simulation_C 100))
                      0 0 (Some 0)) 1 0 (Some 1)) 2 0 (Some 2)
        \<and> cell_at (hwy s1) 2 0 = Some 2 \<and> cell_at (hwy s1) 3 0 = None
        \<and> gen_sd_lane (\<lambda>_. 0) (1 / 10) 0 3 s1 = Inr (4, s2)
        \<and> hwy s2 = put_cell (put_cell (put_cell (hwy (Simulation_C 100))
                      0 0 (Some 0)) 1 0 (Some 1)) 2 0 (Some 3)
        \<and> cell_at (hwy s2) 2 0 = Some 3 \<and> cell_at (hwy s2) 3 0 = None
        \<and> is_human (heap s2 2) \<and> \<not> is_human (heap s2 3)
        \<and> tick_C (\<lambda>_. 0) (1 / 10) (1 / 10) (Simulation_C 100) =
            Inr (s2\<lparr>num_cars := 4, current_step := 1\<rparr>)"
    by (intro exI [of _ ?s1] exI [of _ ?s2])
  with p show ?thesis by (rule conjI)
qed

section \<open>The last lane of \<^verbatim>\<open>sim_client_requests.py\<close>\<close>

lemma set_cell_Inr:
  "set_cell hw l idx v = Inr hw' \<Longrightarrow>
   \<exists>L J. py_index (road hw) l = Inr L \<and> py_index (road hw ! L) idx = Inr J \<and>
     hw' = hw\<lparr>road := (road hw)[L := (road hw ! L)[J := v]]\<rparr>"
  by (auto simp: set_cell_def py_set_def ebind_eq_Inr)

lemma sd_grid_set_cell:
  assumes "sd_grid hw" "set_cell hw l idx v = Inr hw'" "0 \<le> l" "l < num_def_lanes hw"
  shows "sd_grid hw' \<and> num_def_lanes hw' = num_def_lanes hw \<and> len hw' = len hw"
proof -
  from set_cell_Inr [OF assms(2)] obtain L J where
    L: "py_index (road hw) l = Inr L" and h: "hw' = hw\<lparr>road := (road hw)[L := (road hw ! L)[J := v]]\<rparr>"
    by blast
  have Ll: "L = nat l" using L assms(3) by (auto simp: py_index_def Let_def split: if_splits)
  have wf: "wf_highway hw" using assms(1) by (simp add: sd_grid_def wf_highway_C_def)
  have ne: "L \<noteq> nat (num_def_lanes hw)" using Ll assms(3,4) by simp
  have "wf_highway hw'"
    unfolding h using wf_put_cell [OF wf, of "int L" "int J" v] by (simp add: put_cell_def)
  moreover have "lane_empty hw' (num_def_lanes hw)"
    using assms(1) ne by (simp add: h sd_grid_def lane_empty_def)
  ultimately show ?thesis
    using assms(1) by (simp add: sd_grid_def wf_highway_C_def h)
qed

lemma sd_grid_set_road:
  assumes "sd_grid (hwy s)" "set_road l idx v s = Inr s'" "0 \<le> l" "l < num_def_lanes (hwy s)"
  shows "sd_grid (hwy s') \<and> num_def_lanes (hwy s') = num_def_lanes (hwy s) \<and> len (hwy s') = len (hwy s)
     \<and> heap s' = heap s"
proof -
  from assms(2) obtain hw' where hw': "set_cell (hwy s) l idx v = Inr hw'" "s' = s\<lparr>hwy := hw'\<rparr>"
    by (auto simp: set_road_def ebind_eq_Inr)
  from sd_grid_set_cell [OF assms(1) hw'(1) assms(3,4)] hw'(2) show ?thesis by simp
qed

lemma sd_step_refl: "sd_grid (hwy s) \<Longrightarrow> sd_step s s"
  by (simp add: sd_step_def)

lemma sd_step_trans:
  assumes "sd_step s t" "sd_step t u"
  shows "sd_step s u"
proof -
  have "desire (heap u r) = desire (heap s r) \<or> desire (heap u r) = CRUISE \<or>
          desire (heap u r) = LANE_CHANGE" for r
  proof -
    have "desire (heap t r) = desire (heap s r) \<or> desire (heap t r) = CRUISE \<or>
          desire (heap t r) = LANE_CHANGE"
      using assms(1) by (simp add: sd_step_def)
    moreover have "desire (heap u r) = desire (heap t r) \<or> desire (heap u r) = CRUISE \<or>
          desire (heap u r) = LANE_CHANGE"
      using assms(2) by (simp add: sd_step_def)
    ultimately show ?thesis by auto
  qed
  then show ?thesis using assms by (simp add: sd_step_def)
qed

lemma sd_step_set_road:
  "sd_grid (hwy s) \<Longrightarrow> set_road l idx v s = Inr s' \<Longrightarrow> 0 \<le> l \<Longrightarrow> l < num_def_lanes (hwy s) \<Longrightarrow>
   sd_step s s'"
  using sd_grid_set_road [of s l idx v s'] by (simp add: sd_step_def)

lemma sd_step_desire:
  "sd_grid (hwy s) \<Longrightarrow> v = CRUISE \<or> v = LANE_CHANGE \<Longrightarrow> sd_step s (set_desire r v s)"
  by (auto simp: sd_step_def set_desire_def)

lemma sd_step_draws: "sd_grid (hwy s) \<Longrightarrow> sd_step s (s\<lparr>draws := n\<rparr>)"
  by (simp add: sd_step_def)

lemma sd_step_crash: "sd_grid (hwy s) \<Longrightarrow> sd_step s (log_crash r s)"
  by (simp add: sd_step_def log_crash_def)

lemma sd_stepD: "sd_step s t \<Longrightarrow> sd_grid (hwy t)" "sd_step s t \<Longrightarrow> num_def_lanes (hwy t) = num_def_lanes (hwy s)"
  by (simp_all add: sd_step_def)

lemma sd_step_desire_road:
  assumes g: "sd_grid (hwy s)" and l: "0 \<le> lane" "lane < num_def_lanes (hwy s)"
    and v: "v = CRUISE \<or> v = LANE_CHANGE"
    and r: "set_road lane j c (set_desire ref v s) = Inr t"
  shows "sd_step s t"
proof -
  have d: "sd_step s (set_desire ref v s)"
    using g v by (rule sd_step_desire)
  have h: "hwy (set_desire ref v s) = hwy s" by (simp add: set_desire_def)
  have "sd_step (set_desire ref v s) t"
    by (rule sd_step_set_road [OF _ r l(1)]) (simp_all add: h g l(2))
  with d show ?thesis by (rule sd_step_trans)
qed

lemma cruise_move_step:
  assumes g: "sd_grid (hwy s)" and l: "0 \<le> lane" "lane < num_def_lanes (hwy s)"
    and s1: "(if x = k then set_road lane a (Some ref) s
              else if f < x then set_road lane b (Some ref) (set_desire ref LANE_CHANGE s)
              else Inr s) = Inr s1"
  shows "sd_step s s1"
proof (cases "x = k")
  case True
  with s1 have "set_road lane a (Some ref) s = Inr s1" by simp
  then show ?thesis using l by (rule sd_step_set_road [OF g])
next
  case False
  show ?thesis
  proof (cases "f < x")
    case True
    with False s1 have "set_road lane b (Some ref) (set_desire ref LANE_CHANGE s) = Inr s1"
      by simp
    then show ?thesis by (intro sd_step_desire_road [OF g l]) simp_all
  next
    case F2: False
    with False s1 have "s1 = s" by simp
    then show ?thesis using g by (simp add: sd_step_refl)
  qed
qed

lemma cruise_roll_step:
  assumes g: "sd_grid (hwy s)" and l: "0 \<le> lane" "lane < num_def_lanes (hwy s)"
    and s3: "(if dr then (if rv < p then Inr (log_crash ref s) else Inr s)
              else if rv < q then Inr (log_crash ref s)
              else set_road lane b (Some ref) (set_desire ref LANE_CHANGE s)) = Inr s3"
  shows "sd_step s s3"
proof -
  consider (crash) "s3 = log_crash ref s" | (same) "s3 = s"
    | (move) "set_road lane b (Some ref) (set_desire ref LANE_CHANGE s) = Inr s3"
  proof (cases dr)
    case True
    then show ?thesis using s3 crash same by (cases "rv < p") simp_all
  next
    case False
    then show ?thesis using s3 crash move by (cases "rv < q") simp_all
  qed
  then show ?thesis
  proof cases
    case crash
    then show ?thesis using g by (simp add: sd_step_crash)
  next
    case same
    then show ?thesis using g by (simp add: sd_step_refl)
  next
    case move
    then show ?thesis by (intro sd_step_desire_road [OF g l]) simp_all
  qed
qed

lemma sim_cruise_C_step:
  assumes g: "sd_grid (hwy s)" and l: "0 \<le> lane" "lane < num_def_lanes (hwy s)"
    and r: "sim_cruise_C rng lane i s = Inr s'"
  shows "sd_step s s'"
proof -
  from r obtain c where c: "get_cell (hwy s) lane i = Inr c"
    by (auto simp: sim_cruise_C_def ebind_eq_Inr)
  with r obtain ref where ref: "c = Some ref"
    by (cases c) (auto simp: sim_cruise_C_def)
  let ?d = "heap s ref"
  from r c ref obtain x s1 s3 where
    x: "safe_distance_within (hwy s) lane i (speed ?d + safe_follow ?d) = Inr x"
    and s1: "(if x = speed ?d + safe_follow ?d then
                  set_road lane (i + speed ?d) (Some ref) s
                else if x > safe_follow ?d then
                  set_road lane (i + x - safe_follow ?d) (Some ref) (set_desire ref LANE_CHANGE s)
                else Inr s) = Inr s1"
    and s3: "(if is_drunk (heap s1 ref) then
                    (if rng (draws s1) < DRUNK_CRASH_PROB then Inr (log_crash ref (s1\<lparr>draws := Suc (draws s1)\<rparr>)) else Inr (s1\<lparr>draws := Suc (draws s1)\<rparr>))
                  else if rng (draws s1) < CRASH_PROB then Inr (log_crash ref (s1\<lparr>draws := Suc (draws s1)\<rparr>))
                  else set_road lane (i + 1) (Some ref) (set_desire ref LANE_CHANGE (s1\<lparr>draws := Suc (draws s1)\<rparr>))) = Inr s3"
    and fin: "set_road lane i None s3 = Inr s'"
    by (auto simp: sim_cruise_C_def ebind_eq_Inr Let_def)
  let ?s2 = "s1\<lparr>draws := Suc (draws s1)\<rparr>"
  have a1: "sd_step s s1"
    using g l s1 by (rule cruise_move_step)
  have g1: "sd_grid (hwy s1)" and n1: "num_def_lanes (hwy s1) = num_def_lanes (hwy s)"
    using sd_stepD [OF a1] by simp_all
  have a2: "sd_step s1 ?s2" using g1 by (rule sd_step_draws)
  have g2: "sd_grid (hwy ?s2)" and l2: "lane < num_def_lanes (hwy ?s2)"
    using g1 n1 l by simp_all
  have a3: "sd_step ?s2 s3"
    using g2 l(1) l2 s3 by (rule cruise_roll_step)
  have a123: "sd_step s s3"
    by (rule sd_step_trans [OF sd_step_trans [OF a1 a2] a3])
  have g3: "sd_grid (hwy s3)" and l3: "lane < num_def_lanes (hwy s3)"
    using sd_stepD [OF a123] l by simp_all
  have "sd_step s3 s'"
    using g3 fin l(1) l3 by (rule sd_step_set_road)
  with a123 show ?thesis by (rule sd_step_trans)
qed

lemma settled_step: "settled s \<Longrightarrow> sd_step s t \<Longrightarrow> settled t"
  unfolding settled_def sd_step_def
proof (intro allI)
  fix r
  assume a: "\<forall>r. desire (heap s r) = CRUISE \<or> desire (heap s r) = LANE_CHANGE"
    and b: "sd_grid (hwy t) \<and> num_def_lanes (hwy t) = num_def_lanes (hwy s) \<and>
     (\<forall>r. desire (heap t r) = desire (heap s r) \<or> desire (heap t r) = CRUISE \<or>
          desire (heap t r) = LANE_CHANGE)"
  from a have "desire (heap s r) = CRUISE \<or> desire (heap s r) = LANE_CHANGE" by (rule spec)
  moreover from b have "desire (heap t r) = desire (heap s r) \<or> desire (heap t r) = CRUISE \<or>
          desire (heap t r) = LANE_CHANGE" by simp
  ultimately show "desire (heap t r) = CRUISE \<or> desire (heap t r) = LANE_CHANGE" by auto
qed

lemma safe_left_True: "safe_left_lane_change hw lane i = Inr True \<Longrightarrow> lane \<noteq> 0"
  by (auto simp: safe_left_lane_change_def)

lemma safe_right_C_True: "safe_right_lane_change_C hw lane i = Inr True \<Longrightarrow> lane \<noteq> num_def_lanes hw - 1"
  by (auto simp: safe_right_lane_change_C_def)

lemma choose_cases:
  assumes "ebind m (\<lambda>a. if a then Inr x else ebind n (\<lambda>b. if b then Inr y else Inr z)) = Inr t"
  shows "(m = Inr True \<and> t = x) \<or> (m = Inr False \<and> n = Inr True \<and> t = y) \<or>
         (m = Inr False \<and> n = Inr False \<and> t = z)"
proof (cases m)
  case (Inl e)
  with assms show ?thesis by simp
next
  case (Inr a)
  show ?thesis
  proof (cases a)
    case True
    with Inr assms show ?thesis by simp
  next
    case False
    with Inr assms have n: "ebind n (\<lambda>b. if b then Inr y else Inr z) = Inr t" by simp
    show ?thesis
    proof (cases n)
      case (Inl e)
      with n show ?thesis by simp
    next
      case nr: (Inr b)
      with n Inr False show ?thesis by (cases b) simp_all
    qed
  qed
qed

lemma decide_direction_C_cases:
  assumes "decide_direction_C rv lane i r s = Inr s1"
  shows "s1 = s \<or> (s1 = set_desire r LANE_CHANGE_LEFT s \<and> lane \<noteq> 0) \<or>
     (s1 = set_desire r LANE_CHANGE_RIGHT s \<and> lane \<noteq> num_def_lanes (hwy s) - 1)"
proof (cases "desire (heap s r) = LANE_CHANGE")
  case False
  with assms show ?thesis by (simp add: decide_direction_C_def)
next
  case True
  show ?thesis
  proof (cases "rv \<le> LEFT_LANE_CHANGE_PROBABILITY")
    case le: True
    from assms True le have
      "ebind (safe_left_lane_change (hwy s) lane i) (\<lambda>l.
          if l then Inr (set_desire r LANE_CHANGE_LEFT s)
          else ebind (safe_right_lane_change_C (hwy s) lane i) (\<lambda>rt.
            if rt then Inr (set_desire r LANE_CHANGE_RIGHT s) else Inr s)) = Inr s1"
      unfolding decide_direction_C_def by simp
    from choose_cases [OF this] show ?thesis
      using safe_left_True [of "hwy s" lane i] safe_right_C_True [of "hwy s" lane i] by blast
  next
    case gt: False
    from assms True gt have
      "ebind (safe_right_lane_change_C (hwy s) lane i) (\<lambda>rt.
          if rt then Inr (set_desire r LANE_CHANGE_RIGHT s)
          else ebind (safe_left_lane_change (hwy s) lane i) (\<lambda>l.
            if l then Inr (set_desire r LANE_CHANGE_LEFT s) else Inr s)) = Inr s1"
      unfolding decide_direction_C_def by simp
    from choose_cases [OF this] show ?thesis
      using safe_left_True [of "hwy s" lane i] safe_right_C_True [of "hwy s" lane i] by blast
  qed
qed

lemma lane_change_C_step:
  assumes g: "sd_grid (hwy s)" and l: "0 \<le> lane" "lane < num_def_lanes (hwy s)"
    and nl: "0 \<le> nl" "nl < num_def_lanes (hwy s)"
    and oth: "\<forall>r'. r' \<noteq> r \<longrightarrow> desire (heap s r') = CRUISE \<or> desire (heap s r') = LANE_CHANGE"
    and p: "ebind (set_road nl i (Some r) s) (\<lambda>s1.
            ebind (set_road lane i None s1) (\<lambda>s2.
              sim_cruise_C rng nl i (set_desire r CRUISE s2))) = Inr s'"
  shows "sd_grid (hwy s') \<and> num_def_lanes (hwy s') = num_def_lanes (hwy s) \<and> settled s'"
proof -
  from p obtain s1 s2 where
    s1: "set_road nl i (Some r) s = Inr s1" and
    s2: "set_road lane i None s1 = Inr s2" and
    s3: "sim_cruise_C rng nl i (set_desire r CRUISE s2) = Inr s'"
    unfolding ebind_eq_Inr by blast
  from sd_grid_set_road [OF g s1 nl] have
    g1: "sd_grid (hwy s1)" and n1: "num_def_lanes (hwy s1) = num_def_lanes (hwy s)"
    and h1: "heap s1 = heap s" by simp_all
  have l1: "lane < num_def_lanes (hwy s1)" using l n1 by simp
  from sd_grid_set_road [OF g1 s2 l(1) l1] have
    g2: "sd_grid (hwy s2)" and n2: "num_def_lanes (hwy s2) = num_def_lanes (hwy s)"
    and h2: "heap s2 = heap s" using n1 h1 by simp_all
  let ?s3 = "set_desire r CRUISE s2"
  have g3: "sd_grid (hwy ?s3)" and n3: "num_def_lanes (hwy ?s3) = num_def_lanes (hwy s)"
    using g2 n2 by (simp_all add: set_desire_def)
  have st3: "settled ?s3"
    using oth h2 by (simp add: settled_def set_desire_def)
  have nl3: "nl < num_def_lanes (hwy ?s3)" using nl n3 by simp
  have step: "sd_step ?s3 s'"
    using g3 nl(1) nl3 s3 by (rule sim_cruise_C_step)
  from sd_stepD [OF step] n3 settled_step [OF st3 step] show ?thesis by simp
qed

lemma perform_C_inv:
  assumes g: "sd_grid (hwy s)" and l: "0 \<le> lane" "lane < num_def_lanes (hwy s)"
    and oth: "\<forall>r'. r' \<noteq> r \<longrightarrow> desire (heap s r') = CRUISE \<or> desire (heap s r') = LANE_CHANGE"
    and right: "desire (heap s r) = LANE_CHANGE_RIGHT \<Longrightarrow> lane \<noteq> num_def_lanes (hwy s) - 1"
    and left: "desire (heap s r) = LANE_CHANGE_LEFT \<Longrightarrow> lane \<noteq> 0"
    and p: "perform_C rng lane i r s = Inr s'"
  shows "sd_grid (hwy s') \<and> num_def_lanes (hwy s') = num_def_lanes (hwy s) \<and> settled s'"
proof (cases "desire (heap s r)")
  case LANE_CHANGE_RIGHT
  with p have q: "ebind (set_road (lane + 1) i (Some r) s) (\<lambda>s1.
            ebind (set_road lane i None s1) (\<lambda>s2.
              sim_cruise_C rng (lane + 1) i (set_desire r CRUISE s2))) = Inr s'"
    by (simp add: perform_C_def)
  have "0 \<le> lane + 1" "lane + 1 < num_def_lanes (hwy s)"
    using l right [OF LANE_CHANGE_RIGHT] by simp_all
  from lane_change_C_step [OF g l this oth q] show ?thesis .
next
  case LANE_CHANGE_LEFT
  with p have q: "ebind (set_road (lane - 1) i (Some r) s) (\<lambda>s1.
            ebind (set_road lane i None s1) (\<lambda>s2.
              sim_cruise_C rng (lane - 1) i (set_desire r CRUISE s2))) = Inr s'"
    by (simp add: perform_C_def)
  have "0 \<le> lane - 1" "lane - 1 < num_def_lanes (hwy s)"
    using l left [OF LANE_CHANGE_LEFT] by simp_all
  from lane_change_C_step [OF g l this oth q] show ?thesis .
next
  case CRUISE
  with p have q: "sim_cruise_C rng lane i s = Inr s'" by (simp add: perform_C_def)
  have st: "settled s" unfolding settled_def using oth CRUISE by metis
  have step: "sd_step s s'" using g l q by (rule sim_cruise_C_step)
  from sd_stepD [OF step] settled_step [OF st step] show ?thesis by simp
next
  case LANE_CHANGE
  with p have q: "sim_cruise_C rng lane i s = Inr s'" by (simp add: perform_C_def)
  have st: "settled s" unfolding settled_def using oth LANE_CHANGE by metis
  have step: "sd_step s s'" using g l q by (rule sim_cruise_C_step)
  from sd_stepD [OF step] settled_step [OF st step] show ?thesis by simp
qed

lemma py_get_mem: "py_get xs i = Inr v \<Longrightarrow> v \<in> set xs"
proof -
  assume "py_get xs i = Inr v"
  then obtain j where j: "py_index xs i = Inr j" "v = xs ! j"
    unfolding py_get_def ebind_eq_Inr by auto
  from py_index_Inr [OF j(1)] j(2) show ?thesis by simp
qed

lemma occupied_not_last:
  assumes g: "sd_grid hw" and k: "0 \<le> k" and c: "get_cell hw k i = Inr (Some r)"
  shows "k < num_def_lanes hw"
proof (rule ccontr)
  assume "\<not> k < num_def_lanes hw"
  from c obtain row where row: "py_get (road hw) k = Inr row" "py_get row i = Inr (Some r)"
    unfolding get_cell_def ebind_eq_Inr by blast
  from row(1) k have kk: "nat k < length (road hw)" "row = road hw ! nat k"
    by (auto simp: py_get_def py_index_def Let_def ebind_eq_Inr split: if_splits)
  have len: "int (length (road hw)) = num_def_lanes hw + 1"
    using g by (simp add: sd_grid_def wf_highway_C_def)
  with kk(1) \<open>\<not> k < num_def_lanes hw\<close> k have "k = num_def_lanes hw" by linarith
  with g kk(2) have e: "\<forall>c \<in> set row. c = None" by (simp add: sd_grid_def lane_empty_def)
  from row(2) have "Some r \<in> set row" by (rule py_get_mem)
  with e show False by blast
qed

lemma leave_highway_inv:
  assumes g: "sd_grid (hwy s)" and l: "0 \<le> lane" "lane < num_def_lanes (hwy s)"
    and st: "settled s" and p: "leave_highway lane i r s = Inr s'"
  shows "sd_grid (hwy s') \<and> num_def_lanes (hwy s') = num_def_lanes (hwy s) \<and> settled s'"
proof -
  from p obtain s1 where s1: "set_road lane i None s = Inr s1"
    unfolding leave_highway_def ebind_eq_Inr by blast
  from sd_grid_set_road [OF g s1 l] have
    g1: "sd_grid (hwy s1)" and n1: "num_def_lanes (hwy s1) = num_def_lanes (hwy s)"
    and h1: "heap s1 = heap s" by simp_all
  from p s1 have "hwy s' = hwy s1 \<and> (\<forall>r'. desire (heap s' r') = desire (heap s1 r'))"
    by (auto simp: leave_highway_def Let_def split: if_splits)
  with g1 n1 h1 st show ?thesis by (simp add: settled_def)
qed

lemma crash_check_C_same:
  "crash_check_C rng rv r s = (rv', s2) \<Longrightarrow> hwy s2 = hwy s \<and> heap s2 = heap s"
  by (auto simp: crash_check_C_def Let_def log_crash_def split: if_splits)

lemma sim_driver_C_inv:
  assumes g: "sd_grid (hwy s)" and st: "settled s" and k: "0 \<le> k"
    and c: "get_cell (hwy s) k i = Inr (Some r)"
    and p: "sim_driver_C rng k i s = Inr s'"
  shows "sd_grid (hwy s') \<and> num_def_lanes (hwy s') = num_def_lanes (hwy s) \<and> settled s'"
proof -
  have l: "k < num_def_lanes (hwy s)" using g k c by (rule occupied_not_last)
  show ?thesis
  proof (cases "len (hwy s) - 1 \<le> speed (heap s r) + i")
    case True
    with p c have "leave_highway k i r s = Inr s'" by (simp add: sim_driver_C_def)
    with g k l st show ?thesis by (intro leave_highway_inv)
  next
    case False
    let ?s1 = "s\<lparr>draws := draws s + 1\<rparr>"
    obtain rv' s2 where cc: "crash_check_C rng (rng (draws s)) r ?s1 = (rv', s2)"
      by (cases "crash_check_C rng (rng (draws s)) r ?s1") blast
    from crash_check_C_same [OF cc] have h2: "hwy s2 = hwy s" "heap s2 = heap s" by simp_all
    from p c False cc have "ebind (decide_direction_C rv' k i r s2) (perform_C rng k i r) = Inr s'"
      by (simp add: sim_driver_C_def Let_def)
    then obtain s3 where d: "decide_direction_C rv' k i r s2 = Inr s3"
      and pf: "perform_C rng k i r s3 = Inr s'"
      unfolding ebind_eq_Inr by blast
    from decide_direction_C_cases [OF d] have
      cases: "s3 = s2 \<or> (s3 = set_desire r LANE_CHANGE_LEFT s2 \<and> k \<noteq> 0) \<or>
        (s3 = set_desire r LANE_CHANGE_RIGHT s2 \<and> k \<noteq> num_def_lanes (hwy s2) - 1)" .
    have stl: "\<And>r'. desire (heap s r') = CRUISE \<or> desire (heap s r') = LANE_CHANGE"
      using st by (simp add: settled_def)
    have h3: "hwy s3 = hwy s"
      using cases h2 by (auto simp: set_desire_def)
    have oth: "\<forall>r'. r' \<noteq> r \<longrightarrow> desire (heap s3 r') = CRUISE \<or> desire (heap s3 r') = LANE_CHANGE"
    proof (intro allI impI)
      fix r' assume ne: "r' \<noteq> r"
      from cases h2 ne have "heap s3 r' = heap s r'" by (auto simp: set_desire_def)
      with stl [of r'] show "desire (heap s3 r') = CRUISE \<or> desire (heap s3 r') = LANE_CHANGE"
        by simp
    qed
    have right: "desire (heap s3 r) = LANE_CHANGE_RIGHT \<Longrightarrow> k \<noteq> num_def_lanes (hwy s3) - 1"
      using cases h2 stl [of r] by (auto simp: set_desire_def)
    have left: "desire (heap s3 r) = LANE_CHANGE_LEFT \<Longrightarrow> k \<noteq> 0"
      using cases h2 stl [of r] by (auto simp: set_desire_def)
    have g3: "sd_grid (hwy s3)" and l3: "k < num_def_lanes (hwy s3)"
      using g l h3 by simp_all
    from perform_C_inv [OF g3 k l3 oth right left pf] h3 show ?thesis by simp
  qed
qed

lemma new_driver_C_inv:
  assumes g: "sd_grid (hwy s)" and st: "settled s" and d: "desire d = CRUISE"
    and l: "0 \<le> l" "l < num_def_lanes (hwy s)" and p: "new_driver d l s = Inr s'"
  shows "sd_grid (hwy s') \<and> num_def_lanes (hwy s') = num_def_lanes (hwy s) \<and> settled s'"
proof -
  let ?s1 = "s\<lparr>heap := (heap s)(next_ref s := d), next_ref := Suc (next_ref s)\<rparr>"
  have p1: "set_road l 0 (Some (next_ref s)) ?s1 = Inr s'"
    using p by (simp add: new_driver_def)
  have g1: "sd_grid (hwy ?s1)" and l1: "l < num_def_lanes (hwy ?s1)" using g l by simp_all
  have st1: "settled ?s1" using st d by (simp add: settled_def)
  from sd_grid_set_road [OF g1 p1 l(1) l1] st1 show ?thesis by (simp add: settled_def)
qed

lemma gen_def_lane_inv:
  assumes g: "sd_grid (hwy s)" and st: "settled s"
    and l: "0 \<le> l" "l < num_def_lanes (hwy s)" and p: "gen_def_lane rng dp l cid s = Inr (cid', s')"
  shows "sd_grid (hwy s') \<and> num_def_lanes (hwy s') = num_def_lanes (hwy s) \<and> settled s'"
proof (cases "rng (draws s) < dp")
  case False
  with p have "s' = s\<lparr>draws := draws s + 1\<rparr>" by (simp add: gen_def_lane_def Let_def)
  with g st show ?thesis by (simp add: settled_def)
next
  case True
  let ?s3 = "s\<lparr>draws := Suc (Suc (Suc (draws s)))\<rparr>"
  let ?d = "Driver_C cid (if rng (draws s + 1) < FAST_PROBABILITY then FAST else SLOW)
      (current_step s) True (rng (draws s + 2) < DRUNK_PROBABILITY)"
  from p True have "new_driver ?d l ?s3 = Inr s'"
    by (auto simp: gen_def_lane_def Let_def ebind_eq_Inr)
  moreover have "desire ?d = CRUISE" by (simp add: Driver_C_def)
  ultimately obtain d where d: "desire d = CRUISE" "new_driver d l ?s3 = Inr s'"
    by blast
  have "sd_grid (hwy ?s3)" "settled ?s3" "l < num_def_lanes (hwy ?s3)"
    using g st l by (simp_all add: settled_def)
  from new_driver_C_inv [OF this(1,2) d(1) l(1) this(3) d(2)] show ?thesis by simp
qed

lemma gen_def_loop_inv:
  "sd_grid (hwy s) \<Longrightarrow> settled s \<Longrightarrow> 0 \<le> l \<Longrightarrow> l + int n \<le> num_def_lanes (hwy s) \<Longrightarrow>
   gen_def_loop rng dp l n cid s = Inr (cid', s') \<Longrightarrow>
   sd_grid (hwy s') \<and> num_def_lanes (hwy s') = num_def_lanes (hwy s) \<and> settled s'"
proof (induction n arbitrary: l cid s)
  case 0
  then show ?case by simp
next
  case (Suc n)
  from Suc.prems(5) obtain c1 s1 where
    a: "gen_def_lane rng dp l cid s = Inr (c1, s1)" and
    b: "gen_def_loop rng dp (l + 1) n c1 s1 = Inr (cid', s')"
    by (auto simp: ebind_eq_Inr)
  have "l < num_def_lanes (hwy s)" using Suc.prems(4) by simp
  from gen_def_lane_inv [OF Suc.prems(1,2,3) this a] have
    i1: "sd_grid (hwy s1)" "num_def_lanes (hwy s1) = num_def_lanes (hwy s)" "settled s1"
    by simp_all
  have "0 \<le> l + 1" "l + 1 + int n \<le> num_def_lanes (hwy s1)"
    using Suc.prems(3,4) i1(2) by simp_all
  from Suc.IH [OF i1(1,3) this b] i1(2) show ?case by simp
qed

lemma gen_sd_lane_inv:
  assumes g: "sd_grid (hwy s)" and st: "settled s"
    and p: "gen_sd_lane rng sp 0 cid s = Inr (cid', s')"
  shows "sd_grid (hwy s') \<and> num_def_lanes (hwy s') = num_def_lanes (hwy s) \<and> settled s'"
proof (cases "rng (draws s) < sp")
  case False
  with p have "s' = s\<lparr>draws := draws s + 1\<rparr>" by (simp add: gen_sd_lane_def Let_def)
  with g st show ?thesis by (simp add: settled_def)
next
  case True
  let ?s2 = "s\<lparr>draws := Suc (Suc (draws s))\<rparr>"
  let ?d = "Driver_C cid FAST (current_step s) False False"
  from p True have "new_driver ?d (num_def_lanes (hwy s) - 1) ?s2 = Inr s'"
    by (auto simp: gen_sd_lane_def Let_def ebind_eq_Inr)
  moreover have "desire ?d = CRUISE" by (simp add: Driver_C_def)
  ultimately obtain d where d: "desire d = CRUISE"
    "new_driver d (num_def_lanes (hwy s) - 1) ?s2 = Inr s'"
    by blast
  have n: "1 \<le> num_def_lanes (hwy s)" using g by (simp add: sd_grid_def)
  have "sd_grid (hwy ?s2)" "settled ?s2" "0 \<le> num_def_lanes (hwy s) - 1"
    "num_def_lanes (hwy s) - 1 < num_def_lanes (hwy ?s2)"
    using g st n by (simp_all add: settled_def)
  from new_driver_C_inv [OF this(1,2) d(1) this(3,4) d(2)] show ?thesis by simp
qed

lemma gen_new_drivers_C_inv:
  assumes g: "sd_grid (hwy s)" and st: "settled s"
    and p: "gen_new_drivers_C rng dp sp n s = Inr (m, s')"
  shows "sd_grid (hwy s') \<and> num_def_lanes (hwy s') = num_def_lanes (hwy s) \<and> settled s'"
proof -
  from p obtain c1 s1 where
    a: "gen_def_loop rng dp 0 (nat (num_def_lanes (hwy s))) n s = Inr (c1, s1)" and
    b: "gen_sd_loop rng sp 0 (nat (num_sd_lanes (hwy s1))) c1 s1 = Inr (m, s')"
    by (auto simp: gen_new_drivers_C_def ebind_eq_Inr)
  have "0 + int (nat (num_def_lanes (hwy s))) \<le> num_def_lanes (hwy s)"
    using g by (simp add: sd_grid_def)
  from gen_def_loop_inv [OF g st _ this a] have
    i1: "sd_grid (hwy s1)" "settled s1" and n1: "num_def_lanes (hwy s1) = num_def_lanes (hwy s)"
    by simp_all
  have "nat (num_sd_lanes (hwy s1)) = Suc 0" using i1(1) by (simp add: sd_grid_def)
  with b obtain c2 where "gen_sd_lane rng sp 0 c1 s1 = Inr (c2, s')"
    by (auto simp: ebind_eq_Inr)
  from gen_sd_lane_inv [OF i1 this] n1 show ?thesis by simp
qed

lemma sd_grid_Simulation_C: "sd_grid (hwy (Simulation_C ts))" "settled (Simulation_C ts)"
proof -
  have "lane_empty (hwy (Simulation_C ts)) 3"
    by (rule lane_empty_replicate [of _ 4 110]) (simp_all add: Simulation_C_def consts_simps)
  then show "sd_grid (hwy (Simulation_C ts))" by (simp add: sd_grid_def)
  show "settled (Simulation_C ts)" by (simp add: settled_def Simulation_C_def Driver_C_def)
qed

lemma reach_C_inv:
  "reach_C s \<Longrightarrow> sd_grid (hwy s) \<and> settled s \<and> num_def_lanes (hwy s) = NUM_DEF_LANES"
proof (induction rule: reach_C.induct)
  case (reach_init ts)
  show ?case using sd_grid_Simulation_C by (simp add: consts_simps)
next
  case (reach_drive s k i r rng s')
  then show ?case using sim_driver_C_inv [of s k i r rng s'] by simp
next
  case (reach_arrive s rng dp sp n m s')
  then show ?case using gen_new_drivers_C_inv [of s rng dp sp n m s'] by (simp add: settled_def)
next
  case (reach_step s)
  then show ?case by (simp add: settled_def)
qed

lemma lanes_loop_C_reach:
  "reach_C s \<Longrightarrow> 0 \<le> i \<Longrightarrow> 0 \<le> k \<Longrightarrow> lanes_loop_C rng i k n s = Inr s' \<Longrightarrow> reach_C s'"
proof (induction n arbitrary: k s)
  case 0
  then show ?case by simp
next
  case (Suc n)
  from Suc.prems(4) obtain c s1 where
    c: "get_cell (hwy s) k i = Inr c" and
    d: "(if c \<noteq> None then sim_driver_C rng k i s else Inr s) = Inr s1" and
    e: "lanes_loop_C rng i (k + 1) n s1 = Inr s'"
    unfolding lanes_loop_C.simps ebind_eq_Inr by blast
  have "reach_C s1"
  proof (cases c)
    case None
    with d Suc.prems(1) show ?thesis by simp
  next
    case (Some r)
    with d have "sim_driver_C rng k i s = Inr s1" by simp
    with Suc.prems(1,2,3) c Some show ?thesis by (intro reach_drive [of s k i r rng s1]) simp_all
  qed
  moreover have "0 \<le> k + 1" using Suc.prems(3) by simp
  ultimately show ?case using Suc.prems(2) e Suc.IH [of s1 "k + 1"] by blast
qed

lemma pass_C_reach: "reach_C s \<Longrightarrow> pass_C rng n s = Inr s' \<Longrightarrow> reach_C s'"
proof (induction n arbitrary: s)
  case 0
  then show ?case by simp
next
  case (Suc n)
  from Suc.prems(2) obtain s1 where
    a: "lanes_loop_C rng (int n) 0 (nat (num_def_lanes (hwy s) + num_sd_lanes (hwy s))) s = Inr s1"
    and b: "pass_C rng n s1 = Inr s'"
    unfolding pass_C.simps ebind_eq_Inr by blast
  have "reach_C s1" using Suc.prems(1) _ _ a by (rule lanes_loop_C_reach) simp_all
  then show ?case using b by (rule Suc.IH)
qed

lemma tick_C_reach: "reach_C s \<Longrightarrow> tick_C rng dp sp s = Inr s' \<Longrightarrow> reach_C s'"
proof -
  assume r: "reach_C s" and t: "tick_C rng dp sp s = Inr s'"
  from t obtain s1 where e: "execute_time_step_C rng dp sp s = Inr s1"
    and s': "s' = s1\<lparr>current_step := current_step s1 + 1\<rparr>"
    unfolding tick_C_def ebind_eq_Inr by auto
  from e obtain s2 m s3 where p: "pass_C rng (nat (len (hwy s))) s = Inr s2"
    and g: "gen_new_drivers_C rng dp sp (num_cars s2) s2 = Inr (m, s3)"
    and s1: "s1 = s3\<lparr>num_cars := m\<rparr>"
    unfolding execute_time_step_C_def ebind_eq_Inr by auto
  have "reach_C s2" using r p by (rule pass_C_reach)
  then have "reach_C (s3\<lparr>num_cars := m\<rparr>)" using g by (rule reach_arrive)
  then have "reach_C ((s3\<lparr>num_cars := m\<rparr>)\<lparr>current_step := current_step (s3\<lparr>num_cars := m\<rparr>) + 1\<rparr>)"
    by (rule reach_step)
  with s' s1 show ?thesis by simp
qed

lemma ticks_C_reach: "reach_C s \<Longrightarrow> ticks_C rng dp sp n s = Inr s' \<Longrightarrow> reach_C s'"
proof (induction n arbitrary: s)
  case 0
  then show ?case by simp
next
  case (Suc n)
  from Suc.prems(2) obtain s1 where a: "tick_C rng dp sp s = Inr s1"
    and b: "ticks_C rng dp sp n s1 = Inr s'"
    unfolding ticks_C.simps ebind_eq_Inr by blast
  from tick_C_reach [OF Suc.prems(1) a] b show ?case by (rule Suc.IH)
qed


text \<open>
  C10. In \<^verbatim>\<open>sim_client_requests.py\<close> every cell of the highest lane, index
  \<^verbatim>\<open>NUM_DEF_LANES + NUM_SD_LANES - 1 = 3\<close>, is empty in every state that \<open>reach_C\<close>
  holds of, and every state that a run reaches after any number of ticks, whatever
  the draws and the arrival probabilities, is such a state. The proof is the
  invariant \<open>sd_grid\<close>: a vehicle is only found in lanes below the last one; a move
  writes to the lane it is in; a change to the right is made only after the check
  that rejects it from lane \<^verbatim>\<open>num_def_lanes - 1\<close>, a change to the left only after the
  check that rejects it from lane 0 (so that no lane index wraps around); and the
  arrivals are written to the lanes \<open>0 .. num_def_lanes - 1\<close>, the self-driving one to
  \<^verbatim>\<open>0 + num_def_lanes - 1\<close>.
\<close>

theorem last_lane_never_entered:
  "(reach_C s \<longrightarrow> lane_empty (hwy s) (NUM_DEF_LANES + NUM_SD_LANES - 1))
   \<and> (ticks_C rng dp sp n (Simulation_C ts) = Inr t \<longrightarrow> reach_C t)"
proof (intro conjI impI)
  assume "reach_C s"
  from reach_C_inv [OF this] have a: "lane_empty (hwy s) (num_def_lanes (hwy s))"
    and b: "num_def_lanes (hwy s) = 3"
    by (auto simp: sd_grid_def consts_simps)
  from a show "lane_empty (hwy s) (NUM_DEF_LANES + NUM_SD_LANES - 1)"
    by (simp add: b consts_simps)
next
  assume "ticks_C rng dp sp n (Simulation_C ts) = Inr t"
  with reach_init [of ts] show "reach_C t" by (rule ticks_C_reach)
qed


text \<open>The state after the two ticks of the run above: a vehicle is on the grid, the last lane is empty.\<close>

theorem last_lane_never_entered_witness:
  "\<exists>s. ticks_C arrive_once (1 / 10) (1 / 10) 2 (Simulation_C 100) = Inr s \<and> reach_C s \<and>
       cell_at (hwy s) 0 1 = Some 0 \<and>
       lane_empty (hwy s) (NUM_DEF_LANES + NUM_SD_LANES - 1)"
proof -
  from client_duplicate obtain s where
    s: "ticks_C arrive_once (1 / 10) (1 / 10) 2 (Simulation_C 100) = Inr s"
    "cell_at (hwy s) 0 1 = Some 0" by blast
  note inst = last_lane_never_entered [where s = s and t = s and rng = arrive_once
      and dp = "1 / 10" and sp = "1 / 10" and n = 2 and ts = 100]
  from inst s(1) have r: "reach_C s" by blast
  with inst have "lane_empty (hwy s) (NUM_DEF_LANES + NUM_SD_LANES - 1)" by blast
  with s r show ?thesis by blast
qed


section \<open>The traversal of \<^verbatim>\<open>highway_sim_V2.py\<close>\<close>

subsection \<open>The cruise step\<close>

lemma set_road_Inr_range:
  assumes wf: "wf_highway (hwy s)" and v: "valid_lane (hwy s) l" and j: "0 \<le> j"
    and r: "set_road l j c s = Inr s'"
  shows "j < len (hwy s) \<and> s' = s\<lparr>hwy := put_cell (hwy s) l j c\<rparr>"
proof (cases "j < len (hwy s)")
  case True
  with set_road_in_range [OF wf v j True, of c] r show ?thesis by simp
next
  case False
  have "py_index (road (hwy s)) l = Inr (nat l)"
    using v by (simp add: py_index_nonneg valid_lane_def)
  moreover have "py_index (road (hwy s) ! nat l) j = Inl IndexError"
    using wf_row [OF wf v] False by (intro py_index_out) simp
  ultimately have "set_road l j c s = Inl IndexError"
    by (simp add: set_road_def set_cell_def py_set_def)
  with r show ?thesis by simp
qed

lemma sim_cruise_V2_places:
  assumes da: "driver_at s lane i r"
    and sp: "1 \<le> speed (heap s r)" and sf: "0 \<le> safe_follow (heap s r)"
    and res: "sim_cruise_V2 lane i s = Inr s'"
  shows "\<exists>x. safe_distance_within (hwy s) lane i (speed (heap s r) + safe_follow (heap s r)) = Inr x \<and>
    (if x = speed (heap s r) + safe_follow (heap s r) then
       i + speed (heap s r) < len (hwy s) \<and>
       s' = s\<lparr>hwy := put_cell (put_cell (hwy s) lane (i + speed (heap s r)) (Some r)) lane i None\<rparr>
     else if safe_follow (heap s r) < x then
       i + x - safe_follow (heap s r) < len (hwy s) \<and>
       s' = (set_desire r LANE_CHANGE s)
             \<lparr>hwy := put_cell (put_cell (hwy s) lane (i + x - safe_follow (heap s r)) (Some r)) lane i None\<rparr>
     else
       i + 1 < len (hwy s) \<and>
       s' = (set_desire r LANE_CHANGE s)
             \<lparr>hwy := put_cell (put_cell (hwy s) lane (i + 1) (Some r)) lane i None\<rparr>)"
proof -
  let ?d = "heap s r"
  have wf: "wf_highway (hwy s)" and v: "valid_lane (hwy s) lane" and i: "0 \<le> i" "i < len (hwy s)"
    using da by (simp_all add: driver_at_def)
  have g: "get_cell (hwy s) lane i = Inr (Some r)" using da by (rule driver_at_get)
  from sdw_spec [OF wf v i(1), of "speed ?d + safe_follow ?d"] sp sf obtain x where
    x: "safe_distance_within (hwy s) lane i (speed ?d + safe_follow ?d) = Inr x"
    and xr: "0 \<le> x" "x \<le> speed ?d + safe_follow ?d"
    by auto
  from res g x obtain s1 where
    s1: "(if x = speed ?d + safe_follow ?d then
            set_road lane (i + speed ?d) (Some r) s
          else if x > safe_follow ?d then
            set_road lane (i + x - safe_follow ?d) (Some r) (set_desire r LANE_CHANGE s)
          else
            set_road lane (i + 1) (Some r) (set_desire r LANE_CHANGE s)) = Inr s1"
    and fin: "set_road lane i None s1 = Inr s'"
    by (auto simp: sim_cruise_V2_def Let_def ebind_eq_Inr)
  have hd: "hwy (set_desire r LANE_CHANGE s) = hwy s" by (simp add: set_desire_def)
  have clear: "s' = t\<lparr>hwy := put_cell (put_cell (hwy s) lane j (Some r)) lane i None\<rparr>"
    if "set_road lane j (Some r) t = Inr s1" "hwy t = hwy s" "0 \<le> j" "j < len (hwy s)" for t j
  proof -
    from set_road_in_range [of t lane j "Some r"] that wf v
    have e1: "s1 = t\<lparr>hwy := put_cell (hwy s) lane j (Some r)\<rparr>" by simp
    have "set_road lane i None s1 = Inr (s1\<lparr>hwy := put_cell (hwy s1) lane i None\<rparr>)"
      using wf v i by (intro set_road_in_range) (simp_all add: e1)
    with fin e1 show ?thesis by simp
  qed
  have rng: "j < len (hwy s)" if "set_road lane j (Some r) t = Inr s1" "hwy t = hwy s" "0 \<le> j" for t j
    using set_road_Inr_range [of t lane j "Some r" s1] that wf v by simp
  show ?thesis
  proof (cases "x = speed ?d + safe_follow ?d")
    case True
    with s1 have a: "set_road lane (i + speed ?d) (Some r) s = Inr s1" by simp
    have j: "0 \<le> i + speed ?d" using i sp by simp
    from rng [OF a refl j] clear [OF a refl j] x True show ?thesis by simp
  next
    case False
    show ?thesis
    proof (cases "safe_follow ?d < x")
      case True
      with False s1 have a: "set_road lane (i + x - safe_follow ?d) (Some r) (set_desire r LANE_CHANGE s) = Inr s1"
        by simp
      have j: "0 \<le> i + x - safe_follow ?d" using i True by simp
      from rng [OF a hd j] clear [OF a hd j] x True False show ?thesis by simp
    next
      case F2: False
      with False s1 have a: "set_road lane (i + 1) (Some r) (set_desire r LANE_CHANGE s) = Inr s1"
        by simp
      have j: "0 \<le> i + 1" using i by simp
      from rng [OF a hd j] clear [OF a hd j] x F2 False show ?thesis by simp
    qed
  qed
qed

subsection \<open>The lane change\<close>

lemma lane_change_scan_True:
  assumes wf: "wf_highway hw" and v: "valid_lane hw nl" and i: "0 \<le> i"
    and t: "lane_change_scan hw nl i = Inr True"
  shows "cell_at hw nl i = None"
proof -
  from t lane_change_scan_spec [OF wf v, of i] have
    a: "\<forall>k. i - LANE_CHANGE_SAFE_BACK \<le> k \<and> k \<le> i + LANE_CHANGE_SAFE_FORWARD
          \<longrightarrow> cell_at hw nl (wrap hw k) = None"
    by (simp split: if_splits)
  have "i - LANE_CHANGE_SAFE_BACK \<le> i \<and> i \<le> i + LANE_CHANGE_SAFE_FORWARD"
    by (simp add: consts_simps)
  with a have "cell_at hw nl (wrap hw i) = None" by blast
  with i show ?thesis by (simp add: wrap_def)
qed

lemma safe_right_V2_True:
  assumes wf: "wf_highway_V2 hw" and v: "valid_lane hw k" and i: "0 \<le> i"
    and t: "safe_right_lane_change_V2 hw k i = Inr True"
  shows "valid_lane hw (k + 1) \<and> cell_at hw (k + 1) i = None"
proof -
  from t have ne: "k \<noteq> num_lanes hw - 1" and sc: "lane_change_scan hw (k + 1) i = Inr True"
    by (auto simp: safe_right_lane_change_V2_def split: if_splits)
  have v1: "valid_lane hw (k + 1)" using wf v ne by (simp add: wf_highway_V2_def valid_lane_def)
  have "wf_highway hw" using wf by (simp add: wf_highway_V2_def)
  from lane_change_scan_True [OF this v1 i sc] v1 show ?thesis by simp
qed

lemma safe_left_V2_True:
  assumes wf: "wf_highway hw" and v: "valid_lane hw k" and i: "0 \<le> i"
    and t: "safe_left_lane_change hw k i = Inr True"
  shows "valid_lane hw (k - 1) \<and> cell_at hw (k - 1) i = None"
proof -
  from t have ne: "k \<noteq> 0" and sc: "lane_change_scan hw (k - 1) i = Inr True"
    by (auto simp: safe_left_lane_change_def split: if_splits)
  have v1: "valid_lane hw (k - 1)" using v ne by (simp add: valid_lane_def)
  from lane_change_scan_True [OF wf v1 i sc] v1 show ?thesis by simp
qed

lemma decide_direction_V2_cases:
  assumes "decide_direction_V2 rv lane i r s = Inr s1"
  shows "s1 = s \<or>
     (s1 = set_desire r LANE_CHANGE_LEFT s \<and> safe_left_lane_change (hwy s) lane i = Inr True) \<or>
     (s1 = set_desire r LANE_CHANGE_RIGHT s \<and> safe_right_lane_change_V2 (hwy s) lane i = Inr True)"
proof (cases "desire (heap s r) = LANE_CHANGE")
  case False
  with assms show ?thesis by (simp add: decide_direction_V2_def)
next
  case True
  show ?thesis
  proof (cases "rv \<le> LEFT_LANE_CHANGE_PROBABILITY")
    case le: True
    from assms True le have
      "ebind (safe_left_lane_change (hwy s) lane i) (\<lambda>l.
          if l then Inr (set_desire r LANE_CHANGE_LEFT s)
          else ebind (safe_right_lane_change_V2 (hwy s) lane i) (\<lambda>rt.
            if rt then Inr (set_desire r LANE_CHANGE_RIGHT s) else Inr s)) = Inr s1"
      unfolding decide_direction_V2_def by simp
    from choose_cases [OF this] show ?thesis by blast
  next
    case gt: False
    from assms True gt have
      "ebind (safe_right_lane_change_V2 (hwy s) lane i) (\<lambda>rt.
          if rt then Inr (set_desire r LANE_CHANGE_RIGHT s)
          else ebind (safe_left_lane_change (hwy s) lane i) (\<lambda>l.
            if l then Inr (set_desire r LANE_CHANGE_LEFT s) else Inr s)) = Inr s1"
      unfolding decide_direction_V2_def by simp
    from choose_cases [OF this] show ?thesis by blast
  qed
qed

subsection \<open>One call of \<^verbatim>\<open>sim_driver\<close>\<close>

lemma step_cells_move:
  assumes wf: "wf_highway hw" and v: "valid_lane hw k" and i: "0 \<le> i" "i < len hw"
    and j: "0 \<le> j" "j < len hw" "j \<noteq> i"
  shows "step_cells hw (put_cell (put_cell hw k j (Some r)) k i None) k i r (Some (k, j))"
  unfolding step_cells_def
proof (intro allI impI)
  fix l q assume a: "valid_lane hw l \<and> 0 \<le> q \<and> q < len hw"
  then have l0: "0 \<le> l" by (simp add: valid_lane_def)
  have wf1: "wf_highway (put_cell hw k j (Some r))" using wf by simp
  have "cell_at (put_cell (put_cell hw k j (Some r)) k i None) l q =
      (if l = k \<and> q = i then None else cell_at (put_cell hw k j (Some r)) l q)"
    using a l0 i v wf1 by (intro cell_at_put_cell) simp_all
  also have "cell_at (put_cell hw k j (Some r)) l q = (if l = k \<and> q = j then Some r else cell_at hw l q)"
    using a l0 j v wf by (intro cell_at_put_cell) simp_all
  finally show "cell_at (put_cell (put_cell hw k j (Some r)) k i None) l q =
      (if Some (k, j) = Some (l, q) then Some r else if l = k \<and> q = i then None else cell_at hw l q)"
    using j(3) by auto
qed

lemma sim_cruise_V2_cells:
  assumes da: "driver_at s lane i r"
    and sp: "1 \<le> speed (heap s r)" and sf: "0 \<le> safe_follow (heap s r)"
    and res: "sim_cruise_V2 lane i s = Inr s'"
  shows "\<exists>j. i < j \<and> j \<le> i + speed (heap s r) \<and> j < len (hwy s) \<and>
     hwy s' = put_cell (put_cell (hwy s) lane j (Some r)) lane i None \<and>
     next_ref s' = next_ref s \<and>
     (\<forall>r'. r' \<noteq> r \<longrightarrow> heap s' r' = heap s r') \<and>
     speed (heap s' r) = speed (heap s r) \<and> safe_follow (heap s' r) = safe_follow (heap s r) \<and>
     (desire (heap s' r) = desire (heap s r) \<or> desire (heap s' r) = LANE_CHANGE)"
proof -
  let ?d = "heap s r"
  have wf: "wf_highway (hwy s)" and v: "valid_lane (hwy s) lane" and i: "0 \<le> i" "i < len (hwy s)"
    using da by (simp_all add: driver_at_def)
  from sdw_spec [OF wf v i(1), of "speed ?d + safe_follow ?d"] sp sf obtain x0 where
    x0: "safe_distance_within (hwy s) lane i (speed ?d + safe_follow ?d) = Inr x0"
    and xr: "0 \<le> x0" "x0 \<le> speed ?d + safe_follow ?d"
    by auto
  from sim_cruise_V2_places [OF da sp sf res] x0 have
    pl: "(if x0 = speed ?d + safe_follow ?d then
       i + speed ?d < len (hwy s) \<and>
       s' = s\<lparr>hwy := put_cell (put_cell (hwy s) lane (i + speed ?d) (Some r)) lane i None\<rparr>
     else if safe_follow ?d < x0 then
       i + x0 - safe_follow ?d < len (hwy s) \<and>
       s' = (set_desire r LANE_CHANGE s)
             \<lparr>hwy := put_cell (put_cell (hwy s) lane (i + x0 - safe_follow ?d) (Some r)) lane i None\<rparr>
     else
       i + 1 < len (hwy s) \<and>
       s' = (set_desire r LANE_CHANGE s)
             \<lparr>hwy := put_cell (put_cell (hwy s) lane (i + 1) (Some r)) lane i None\<rparr>)"
    by auto
  show ?thesis
  proof (cases "x0 = speed ?d + safe_follow ?d")
    case True
    with pl sp show ?thesis by (intro exI [of _ "i + speed ?d"]) simp
  next
    case False
    show ?thesis
    proof (cases "safe_follow ?d < x0")
      case True
      with False pl xr show ?thesis
        by (intro exI [of _ "i + x0 - safe_follow ?d"]) (simp add: set_desire_def)
    next
      case F2: False
      with False pl sp show ?thesis
        by (intro exI [of _ "i + 1"]) (simp add: set_desire_def)
    qed
  qed
qed

lemma processed_leave:
  assumes wfv: "wf_highway_V2 (hwy s)" and da: "driver_at s k i r"
    and des: "desire (heap s r) = CRUISE \<or> desire (heap s r) = LANE_CHANGE"
    and res: "leave_highway k i r s = Inr s'"
  shows "processed s s' k i r"
proof -
  have wf: "wf_highway (hwy s)" and v: "valid_lane (hwy s) k" and i: "0 \<le> i" "i < len (hwy s)"
    using da by (simp_all add: driver_at_def)
  have st: "set_road k i None s = Inr (s\<lparr>hwy := put_cell (hwy s) k i None\<rparr>)"
    using wf v i by (rule set_road_in_range)
  from res have h: "hwy s' = put_cell (hwy s) k i None" "next_ref s' = next_ref s"
    "\<forall>r'. r' \<noteq> r \<longrightarrow> heap s' r' = heap s r'"
    "speed (heap s' r) = speed (heap s r)" "safe_follow (heap s' r) = safe_follow (heap s r)"
    "desire (heap s' r) = desire (heap s r)"
    by (auto simp: leave_highway_def st Let_def split: if_splits)
  have "step_cells (hwy s) (hwy s') k i r None"
    unfolding step_cells_def h(1)
  proof (intro allI impI)
    fix l q assume a: "valid_lane (hwy s) l \<and> 0 \<le> q \<and> q < len (hwy s)"
    then have "0 \<le> l" by (simp add: valid_lane_def)
    with a show "cell_at (put_cell (hwy s) k i None) l q =
        (if None = Some (l, q) then Some r else if l = k \<and> q = i then None else cell_at (hwy s) l q)"
      using cell_at_put_cell [OF wf v i, of l q None] by simp
  qed
  then have "\<exists>tgt. step_cells (hwy s) (hwy s') k i r tgt \<and>
        (\<forall>l j. tgt = Some (l, j) \<longrightarrow>
           valid_lane (hwy s) l \<and> i < j \<and> j \<le> i + speed (heap s r) \<and> j < len (hwy s) \<and>
           speed (heap s r) + i < len (hwy s) - 1)"
    by (intro exI [of _ None]) simp
  with h des wfv show ?thesis by (simp add: processed_def)
qed

lemma processed_cruise:
  assumes wfv: "wf_highway_V2 (hwy s)" and da: "driver_at s k i r"
    and sp: "1 \<le> speed (heap s r)" and sf: "0 \<le> safe_follow (heap s r)"
    and des: "desire (heap s r) = CRUISE \<or> desire (heap s r) = LANE_CHANGE"
    and ne: "speed (heap s r) + i < len (hwy s) - 1"
    and res: "sim_cruise_V2 k i s = Inr s'"
  shows "processed s s' k i r"
proof -
  have wf: "wf_highway (hwy s)" and v: "valid_lane (hwy s) k" and i: "0 \<le> i" "i < len (hwy s)"
    using da by (simp_all add: driver_at_def)
  from sim_cruise_V2_cells [OF da sp sf res] obtain j where
    j: "i < j" "j \<le> i + speed (heap s r)" "j < len (hwy s)"
    and h: "hwy s' = put_cell (put_cell (hwy s) k j (Some r)) k i None"
      "next_ref s' = next_ref s" "\<forall>r'. r' \<noteq> r \<longrightarrow> heap s' r' = heap s r'"
      "speed (heap s' r) = speed (heap s r)" "safe_follow (heap s' r) = safe_follow (heap s r)"
      "desire (heap s' r) = desire (heap s r) \<or> desire (heap s' r) = LANE_CHANGE"
    by blast
  have "step_cells (hwy s) (hwy s') k i r (Some (k, j))"
    unfolding h(1) using wf v i j by (intro step_cells_move) simp_all
  then have "\<exists>tgt. step_cells (hwy s) (hwy s') k i r tgt \<and>
        (\<forall>l j. tgt = Some (l, j) \<longrightarrow>
           valid_lane (hwy s) l \<and> i < j \<and> j \<le> i + speed (heap s r) \<and> j < len (hwy s) \<and>
           speed (heap s r) + i < len (hwy s) - 1)"
    using j v ne by (intro exI [of _ "Some (k, j)"]) simp
  moreover have "desire (heap s' r) = CRUISE \<or> desire (heap s' r) = LANE_CHANGE"
    using h(6) des by auto
  ultimately show ?thesis using h wfv by (simp add: processed_def)
qed

lemma processed_lane_change:
  assumes wfv: "wf_highway_V2 (hwy s)" and da: "driver_at s k i r"
    and sp: "1 \<le> speed (heap s r)" and sf: "0 \<le> safe_follow (heap s r)"
    and nl: "valid_lane (hwy s) nl" "nl \<noteq> k" "cell_at (hwy s) nl i = None"
    and ne: "speed (heap s r) + i < len (hwy s) - 1"
    and res: "ebind (set_road nl i (Some r) s) (\<lambda>s1.
              ebind (set_road k i None s1) (\<lambda>s2.
                sim_cruise_V2 nl i (set_desire r CRUISE s2))) = Inr s'"
  shows "processed s s' k i r"
proof -
  have wf: "wf_highway (hwy s)" and v: "valid_lane (hwy s) k" and i: "0 \<le> i" "i < len (hwy s)"
    using da by (simp_all add: driver_at_def)
  have nl0: "0 \<le> nl" and k0: "0 \<le> k" using nl(1) v by (simp_all add: valid_lane_def)
  let ?h1 = "put_cell (hwy s) nl i (Some r)"
  let ?h2 = "put_cell ?h1 k i None"
  let ?t = "set_desire r CRUISE (s\<lparr>hwy := ?h2\<rparr>)"
  have a1: "set_road nl i (Some r) s = Inr (s\<lparr>hwy := ?h1\<rparr>)"
    using wf nl(1) i by (rule set_road_in_range)
  have a2: "set_road k i None (s\<lparr>hwy := ?h1\<rparr>) = Inr (s\<lparr>hwy := ?h2\<rparr>)"
    using set_road_in_range [of "s\<lparr>hwy := ?h1\<rparr>" k i None] wf v i by simp
  from res have cr: "sim_cruise_V2 nl i ?t = Inr s'"
    by (simp add: a1 a2)
  have ht: "hwy ?t = ?h2" "heap ?t r = (heap s r)\<lparr>desire := CRUISE\<rparr>"
    "next_ref ?t = next_ref s" "\<And>r'. r' \<noteq> r \<Longrightarrow> heap ?t r' = heap s r'"
    by (simp_all add: set_desire_def)
  have wf2: "wf_highway ?h2" using wf by simp
  have c2: "cell_at ?h2 l q = (if l = k \<and> q = i then None else if l = nl \<and> q = i then Some r else cell_at (hwy s) l q)"
    if "valid_lane (hwy s) l" "0 \<le> q" "q < len (hwy s)" for l q
  proof -
    have l0: "0 \<le> l" using that by (simp add: valid_lane_def)
    have "cell_at ?h2 l q = (if l = k \<and> q = i then None else cell_at ?h1 l q)"
      using wf v i l0 that by (intro cell_at_put_cell) simp_all
    also have "cell_at ?h1 l q = (if l = nl \<and> q = i then Some r else cell_at (hwy s) l q)"
      using wf nl(1) i l0 that by (intro cell_at_put_cell) simp_all
    finally show ?thesis .
  qed
  have dt: "driver_at ?t nl i r"
    using wf2 nl i c2 [of nl i] by (simp add: driver_at_def ht(1))
  from sim_cruise_V2_cells [OF dt _ _ cr] sp sf obtain j where
    j: "i < j" "j \<le> i + speed (heap s r)" "j < len (hwy s)"
    and h: "hwy s' = put_cell (put_cell ?h2 nl j (Some r)) nl i None"
      "next_ref s' = next_ref s" "\<forall>r'. r' \<noteq> r \<longrightarrow> heap s' r' = heap s r'"
      "speed (heap s' r) = speed (heap s r)" "safe_follow (heap s' r) = safe_follow (heap s r)"
      "desire (heap s' r) = CRUISE \<or> desire (heap s' r) = LANE_CHANGE"
    by (auto simp: ht)
  have v2: "valid_lane ?h2 nl" using nl(1) by simp
  have sc: "step_cells ?h2 (hwy s') nl i r (Some (nl, j))"
    unfolding h(1) using wf2 v2 i j by (intro step_cells_move) simp_all
  have "step_cells (hwy s) (hwy s') k i r (Some (nl, j))"
    unfolding step_cells_def
  proof (intro allI impI)
    fix l q assume a: "valid_lane (hwy s) l \<and> 0 \<le> q \<and> q < len (hwy s)"
    with sc have "cell_at (hwy s') l q =
        (if Some (nl, j) = Some (l, q) then Some r else if l = nl \<and> q = i then None else cell_at ?h2 l q)"
      by (simp add: step_cells_def)
    also have "cell_at ?h2 l q = (if l = k \<and> q = i then None else if l = nl \<and> q = i then Some r else cell_at (hwy s) l q)"
      using a by (intro c2) simp_all
    finally show "cell_at (hwy s') l q =
        (if Some (nl, j) = Some (l, q) then Some r else if l = k \<and> q = i then None else cell_at (hwy s) l q)"
      using nl(3) by auto
  qed
  then have "\<exists>tgt. step_cells (hwy s) (hwy s') k i r tgt \<and>
        (\<forall>l j. tgt = Some (l, j) \<longrightarrow>
           valid_lane (hwy s) l \<and> i < j \<and> j \<le> i + speed (heap s r) \<and> j < len (hwy s) \<and>
           speed (heap s r) + i < len (hwy s) - 1)"
    using j nl(1) ne by (intro exI [of _ "Some (nl, j)"]) simp
  with h wfv show ?thesis by (simp add: processed_def)
qed

lemma sim_driver_V2_processed:
  assumes wfv: "wf_highway_V2 (hwy s)" and da: "driver_at s k i r"
    and sp: "1 \<le> speed (heap s r)" and sf: "0 \<le> safe_follow (heap s r)"
    and des: "desire (heap s r) = CRUISE \<or> desire (heap s r) = LANE_CHANGE"
    and res: "sim_driver_V2 rng k i s = Inr s'"
  shows "processed s s' k i r"
proof -
  have wf: "wf_highway (hwy s)" and v: "valid_lane (hwy s) k" and i: "0 \<le> i" "i < len (hwy s)"
    using da by (simp_all add: driver_at_def)
  have g: "get_cell (hwy s) k i = Inr (Some r)" using da by (rule driver_at_get)
  show ?thesis
  proof (cases "len (hwy s) - 1 \<le> speed (heap s r) + i")
    case True
    with res g have "leave_highway k i r s = Inr s'" by (simp add: sim_driver_V2_def)
    with wfv da des show ?thesis by (intro processed_leave)
  next
    case False
    then have ne: "speed (heap s r) + i < len (hwy s) - 1" by simp
    let ?s1 = "s\<lparr>draws := draws s + 1\<rparr>"
    from res g False obtain s3 where
      d: "decide_direction_V2 (rng (draws s)) k i r ?s1 = Inr s3" and
      p: "perform_V2 k i r s3 = Inr s'"
      by (auto simp: sim_driver_V2_def Let_def ebind_eq_Inr)
    have da1: "driver_at ?s1 k i r" using da by (simp add: driver_at_def)
    have pr1: "processed ?s1 s' k i r \<Longrightarrow> processed s s' k i r"
      by (simp add: processed_def)
    from decide_direction_V2_cases [OF d] consider
      (stay) "s3 = ?s1"
      | (left) "s3 = set_desire r LANE_CHANGE_LEFT ?s1" "safe_left_lane_change (hwy s) k i = Inr True"
      | (right) "s3 = set_desire r LANE_CHANGE_RIGHT ?s1" "safe_right_lane_change_V2 (hwy s) k i = Inr True"
      by auto
    then show ?thesis
    proof cases
      case stay
      with p des have "sim_cruise_V2 k i ?s1 = Inr s'"
        by (auto simp: perform_V2_def)
      then have "processed ?s1 s' k i r"
        using wfv da1 sp sf des ne by (intro processed_cruise) simp_all
      then show ?thesis by (rule pr1)
    next
      case left
      from safe_left_V2_True [OF wf v i(1) left(2)] have
        nl: "valid_lane (hwy s) (k - 1)" "cell_at (hwy s) (k - 1) i = None" by simp_all
      have da3: "driver_at s3 k i r" using da left(1) by (simp add: driver_at_def set_desire_def)
      from p left(1) have "ebind (set_road (k - 1) i (Some r) s3) (\<lambda>s1.
              ebind (set_road k i None s1) (\<lambda>s2.
                sim_cruise_V2 (k - 1) i (set_desire r CRUISE s2))) = Inr s'"
        by (simp add: perform_V2_def set_desire_def)
      then have "processed s3 s' k i r"
        using wfv da3 sp sf nl left(1) ne
        by (intro processed_lane_change [where nl = "k - 1"]) (simp_all add: set_desire_def)
      then show ?thesis using left(1) by (simp add: processed_def set_desire_def)
    next
      case right
      from safe_right_V2_True [OF wfv v i(1) right(2)] have
        nl: "valid_lane (hwy s) (k + 1)" "cell_at (hwy s) (k + 1) i = None" by simp_all
      have da3: "driver_at s3 k i r" using da right(1) by (simp add: driver_at_def set_desire_def)
      from p right(1) have "ebind (set_road (k + 1) i (Some r) s3) (\<lambda>s1.
              ebind (set_road k i None s1) (\<lambda>s2.
                sim_cruise_V2 (k + 1) i (set_desire r CRUISE s2))) = Inr s'"
        by (simp add: perform_V2_def set_desire_def)
      then have "processed s3 s' k i r"
        using wfv da3 sp sf nl right(1) ne
        by (intro processed_lane_change [where nl = "k + 1"]) (simp_all add: set_desire_def)
      then show ?thesis using right(1) by (simp add: processed_def set_desire_def)
    qed
  qed
qed

subsection \<open>The invariant of the traversal\<close>

lemma processed_driver_at:
  assumes pr: "step_cells (hwy s) (hwy s') k i r tgt"
    and sh: "wf_highway (hwy s)" "len (hwy s') = len (hwy s)"
      "length (road (hwy s')) = length (road (hwy s))"
    and d: "driver_at s' l q x"
  shows "(tgt = Some (l, q) \<and> x = r) \<or>
     (driver_at s l q x \<and> \<not> (l = k \<and> q = i) \<and> tgt \<noteq> Some (l, q))"
proof -
  from d sh have v: "valid_lane (hwy s) l" "0 \<le> q" "q < len (hwy s)"
    and c: "cell_at (hwy s') l q = Some x"
    by (simp_all add: driver_at_def valid_lane_def)
  from pr v have "cell_at (hwy s') l q =
      (if tgt = Some (l, q) then Some r else if l = k \<and> q = i then None else cell_at (hwy s) l q)"
    by (simp add: step_cells_def)
  with c have "(tgt = Some (l, q) \<and> x = r) \<or>
     (cell_at (hwy s) l q = Some x \<and> \<not> (l = k \<and> q = i) \<and> tgt \<noteq> Some (l, q))"
    by (auto split: if_splits)
  with v sh(1) show ?thesis by (auto simp: driver_at_def)
qed

lemma pass_inv_step:
  assumes inv: "pass_inv s0 i k s" and da: "driver_at s k i r"
    and pr: "processed s s' k i r"
  shows "pass_inv s0 i (k + 1) s'"
proof -
  from inv have
    sh: "wf_highway_V2 (hwy s)" "len (hwy s) = len (hwy s0)"
      "length (road (hwy s)) = length (road (hwy s0))" "next_ref s = next_ref s0"
    and hp: "\<And>x. speed (heap s x) = speed (heap s0 x) \<and>
          safe_follow (heap s x) = safe_follow (heap s0 x) \<and>
          (desire (heap s0 x) = CRUISE \<or> desire (heap s0 x) = LANE_CHANGE \<longrightarrow>
           desire (heap s x) = CRUISE \<or> desire (heap s x) = LANE_CHANGE)"
    and U: "\<And>l q x. driver_at s l q x \<Longrightarrow> todo i k l q \<Longrightarrow> driver_at s0 l q x"
    and P: "\<And>l q x. driver_at s l q x \<Longrightarrow> \<not> todo i k l q \<Longrightarrow>
        \<exists>l0 q0. driver_at s0 l0 q0 x \<and> q0 < q \<and> q \<le> q0 + speed (heap s0 x) \<and>
           speed (heap s0 x) + q0 < len (hwy s0) - 1"
    and D: "\<And>l q l' q' x. driver_at s l q x \<Longrightarrow> driver_at s l' q' x \<Longrightarrow> l = l' \<and> q = q'"
    unfolding pass_inv_def by blast+
  from pr obtain tgt where
    sh': "wf_highway_V2 (hwy s')" "len (hwy s') = len (hwy s)"
      "length (road (hwy s')) = length (road (hwy s))" "next_ref s' = next_ref s"
    and ho: "\<And>x. x \<noteq> r \<Longrightarrow> heap s' x = heap s x"
    and hr: "speed (heap s' r) = speed (heap s r)" "safe_follow (heap s' r) = safe_follow (heap s r)"
      "desire (heap s' r) = CRUISE \<or> desire (heap s' r) = LANE_CHANGE"
    and sc: "step_cells (hwy s) (hwy s') k i r tgt"
    and tg: "\<And>l j. tgt = Some (l, j) \<Longrightarrow>
           valid_lane (hwy s) l \<and> i < j \<and> j \<le> i + speed (heap s r) \<and> j < len (hwy s) \<and>
           speed (heap s r) + i < len (hwy s) - 1"
    unfolding processed_def by blast
  have wf: "wf_highway (hwy s)" using sh(1) by (simp add: wf_highway_V2_def)
  note A = processed_driver_at [OF sc wf sh'(2,3)]
  have or0: "driver_at s0 k i r" using da by (rule U) (simp add: todo_def)
  have heap': "speed (heap s' x) = speed (heap s0 x) \<and>
          safe_follow (heap s' x) = safe_follow (heap s0 x) \<and>
          (desire (heap s0 x) = CRUISE \<or> desire (heap s0 x) = LANE_CHANGE \<longrightarrow>
           desire (heap s' x) = CRUISE \<or> desire (heap s' x) = LANE_CHANGE)" for x
  proof (cases "x = r")
    case True
    with hr hp [of r] show ?thesis by simp
  next
    case False
    with ho [of x] hp [of x] show ?thesis by simp
  qed
  have U': "driver_at s0 l q x" if d: "driver_at s' l q x" and t: "todo i (k + 1) l q" for l q x
  proof -
    from A [OF d] show ?thesis
    proof
      assume "tgt = Some (l, q) \<and> x = r"
      with tg [of l q] t show ?thesis by (simp add: todo_def)
    next
      assume a: "driver_at s l q x \<and> \<not> (l = k \<and> q = i) \<and> tgt \<noteq> Some (l, q)"
      moreover from t have "todo i k l q" by (auto simp: todo_def)
      ultimately show ?thesis using U by blast
    qed
  qed
  have P': "\<exists>l0 q0. driver_at s0 l0 q0 x \<and> q0 < q \<and> q \<le> q0 + speed (heap s0 x) \<and>
           speed (heap s0 x) + q0 < len (hwy s0) - 1"
    if d: "driver_at s' l q x" and t: "\<not> todo i (k + 1) l q" for l q x
  proof -
    from A [OF d] show ?thesis
    proof
      assume a: "tgt = Some (l, q) \<and> x = r"
      with tg [of l q] hp [of r] sh(2) have "i < q \<and> q \<le> i + speed (heap s0 r) \<and>
           speed (heap s0 r) + i < len (hwy s0) - 1" by simp
      with or0 a show ?thesis by blast
    next
      assume a: "driver_at s l q x \<and> \<not> (l = k \<and> q = i) \<and> tgt \<noteq> Some (l, q)"
      with t have "\<not> todo i k l q" by (auto simp: todo_def)
      with a P show ?thesis by blast
    qed
  qed
  have D': "l = l' \<and> q = q'" if d1: "driver_at s' l q x" and d2: "driver_at s' l' q' x" for l q l' q' x
  proof -
    from A [OF d1] A [OF d2] show ?thesis
    proof (elim disjE)
      assume "tgt = Some (l, q) \<and> x = r" "tgt = Some (l', q') \<and> x = r"
      then show ?thesis by simp
    next
      assume a: "tgt = Some (l, q) \<and> x = r"
        and b: "driver_at s l' q' x \<and> \<not> (l' = k \<and> q' = i) \<and> tgt \<noteq> Some (l', q')"
      with D [OF da, of l' q'] show ?thesis by blast
    next
      assume b: "driver_at s l q x \<and> \<not> (l = k \<and> q = i) \<and> tgt \<noteq> Some (l, q)"
        and a: "tgt = Some (l', q') \<and> x = r"
      with D [OF da, of l q] show ?thesis by blast
    next
      assume "driver_at s l q x \<and> \<not> (l = k \<and> q = i) \<and> tgt \<noteq> Some (l, q)"
        "driver_at s l' q' x \<and> \<not> (l' = k \<and> q' = i) \<and> tgt \<noteq> Some (l', q')"
      with D show ?thesis by blast
    qed
  qed
  show ?thesis
    unfolding pass_inv_def
    using sh sh' heap' U' P' D' by (intro conjI allI impI) (simp_all, blast+)
qed

lemma pass_inv_cong:
  assumes inv: "pass_inv s0 c k s"
    and eq: "\<And>l q. 0 \<le> l \<Longrightarrow> l < int (length (road (hwy s))) \<Longrightarrow> 0 \<le> q \<Longrightarrow> todo c' k' l q = todo c k l q"
  shows "pass_inv s0 c' k' s"
proof -
  have t: "todo c' k' l q = todo c k l q" if "driver_at s l q x" for l q x
    using that eq [of l q] by (simp add: driver_at_def valid_lane_def)
  from inv show ?thesis
    unfolding pass_inv_def using t by (intro conjI allI impI) (simp_all, blast+)
qed

lemma pass_inv_skip:
  assumes inv: "pass_inv s0 i k s" and e: "\<And>x. \<not> driver_at s k i x"
  shows "pass_inv s0 i (k + 1) s"
proof -
  have t: "todo i (k + 1) l q = todo i k l q" if "driver_at s l q x" for l q x
  proof -
    from that e have "\<not> (l = k \<and> q = i)" by blast
    then show ?thesis by (auto simp: todo_def)
  qed
  from inv show ?thesis
    unfolding pass_inv_def using t by (intro conjI allI impI) (simp_all, blast+)
qed

lemma get_cell_Inr_valid:
  assumes wf: "wf_highway hw" and k: "0 \<le> k" and i: "0 \<le> i" "i < len hw"
    and g: "get_cell hw k i = Inr c"
  shows "valid_lane hw k \<and> c = cell_at hw k i"
proof -
  from g obtain row where row: "py_get (road hw) k = Inr row"
    unfolding get_cell_def ebind_eq_Inr by blast
  then obtain L where "py_index (road hw) k = Inr L"
    unfolding py_get_def ebind_eq_Inr by blast
  from py_index_Inr [OF this] this k have v: "valid_lane hw k"
    by (auto simp: valid_lane_def py_index_def Let_def split: if_splits)
  from get_cell_in_range [OF wf v i] g show ?thesis using v by simp
qed

lemma lanes_loop_V2_inv:
  assumes ok: "grid_ok s0"
  shows "pass_inv s0 i k s \<Longrightarrow> 0 \<le> i \<Longrightarrow> i < len (hwy s0) \<Longrightarrow> 0 \<le> k \<Longrightarrow>
    lanes_loop_V2 rng i k n s = Inr s' \<Longrightarrow> pass_inv s0 i (k + int n) s'"
proof (induction n arbitrary: k s)
  case 0
  then show ?case by simp
next
  case (Suc n)
  note inv = Suc.prems(1)
  from inv have wfv: "wf_highway_V2 (hwy s)" and ln: "len (hwy s) = len (hwy s0)"
    unfolding pass_inv_def by blast+
  then have wf: "wf_highway (hwy s)" by (simp add: wf_highway_V2_def)
  from Suc.prems(5) obtain c s1 where
    c: "get_cell (hwy s) k i = Inr c" and
    d: "(if c \<noteq> None then sim_driver_V2 rng k i s else Inr s) = Inr s1" and
    e: "lanes_loop_V2 rng i (k + 1) n s1 = Inr s'"
    unfolding lanes_loop_V2.simps ebind_eq_Inr by blast
  from get_cell_Inr_valid [OF wf Suc.prems(4,2) _ c] Suc.prems(3) ln
  have v: "valid_lane (hwy s) k" and cc: "c = cell_at (hwy s) k i" by simp_all
  have inv1: "pass_inv s0 i (k + 1) s1"
  proof (cases c)
    case None
    with d have "s1 = s" by simp
    moreover have "\<not> driver_at s k i x" for x using None cc by (simp add: driver_at_def)
    ultimately show ?thesis using pass_inv_skip [OF inv] by simp
  next
    case (Some r)
    with d have sd: "sim_driver_V2 rng k i s = Inr s1" by simp
    have da: "driver_at s k i r"
      using wf v Suc.prems(2,3) ln Some cc by (simp add: driver_at_def)
    from inv da have d0: "driver_at s0 k i r"
      unfolding pass_inv_def by (auto simp: todo_def)
    with ok have p0: "1 \<le> speed (heap s0 r)" "0 \<le> safe_follow (heap s0 r)"
      "desire (heap s0 r) = CRUISE \<or> desire (heap s0 r) = LANE_CHANGE"
      unfolding grid_ok_def by blast+
    from inv have "speed (heap s r) = speed (heap s0 r) \<and>
          safe_follow (heap s r) = safe_follow (heap s0 r) \<and>
          (desire (heap s0 r) = CRUISE \<or> desire (heap s0 r) = LANE_CHANGE \<longrightarrow>
           desire (heap s r) = CRUISE \<or> desire (heap s r) = LANE_CHANGE)"
      unfolding pass_inv_def by blast
    with p0 have p: "1 \<le> speed (heap s r)" "0 \<le> safe_follow (heap s r)"
      "desire (heap s r) = CRUISE \<or> desire (heap s r) = LANE_CHANGE"
      by simp_all
    from sim_driver_V2_processed [OF wfv da p sd] have "processed s s1 k i r" .
    with inv da show ?thesis by (rule pass_inv_step)
  qed
  have "0 \<le> k + 1" using Suc.prems(4) by simp
  from Suc.IH [OF inv1 Suc.prems(2,3) this e] show ?case by (simp add: algebra_simps)
qed

lemma pass_V2_inv:
  assumes ok: "grid_ok s0"
  shows "pass_inv s0 (int m - 1) 0 s \<Longrightarrow> int m \<le> len (hwy s0) \<Longrightarrow>
    pass_V2 rng m s = Inr s' \<Longrightarrow> pass_inv s0 (- 1) 0 s'"
proof (induction m arbitrary: s)
  case 0
  then show ?case by simp
next
  case (Suc m)
  from Suc.prems(1) have inv: "pass_inv s0 (int m) 0 s" by simp
  then have wfv: "wf_highway_V2 (hwy s)" unfolding pass_inv_def by blast
  from Suc.prems(3) obtain s1 where
    a: "lanes_loop_V2 rng (int m) 0 (nat (num_lanes (hwy s))) s = Inr s1" and
    b: "pass_V2 rng m s1 = Inr s'"
    unfolding pass_V2.simps ebind_eq_Inr by blast
  have "pass_inv s0 (int m) (0 + int (nat (num_lanes (hwy s)))) s1"
    using inv _ _ _ a Suc.prems(2) by (intro lanes_loop_V2_inv [OF ok]) simp_all
  then have i1: "pass_inv s0 (int m) (int (length (road (hwy s)))) s1"
    using wfv by (simp add: wf_highway_V2_def)
  have l1: "length (road (hwy s1)) = length (road (hwy s))"
    using i1 inv unfolding pass_inv_def by simp
  have "pass_inv s0 (int m - 1) 0 s1"
    using i1 by (rule pass_inv_cong) (auto simp: todo_def l1)
  moreover have "int m \<le> len (hwy s0)" using Suc.prems(2) by simp
  ultimately show ?case using b by (rule Suc.IH)
qed

lemma pass_inv_start:
  assumes ok: "grid_ok s"
  shows "pass_inv s (len (hwy s) - 1) 0 s"
proof -
  have D: "\<forall>l q l' q' r. driver_at s l q r \<and> driver_at s l' q' r \<longrightarrow> l = l' \<and> q = q'"
    and wfv: "wf_highway_V2 (hwy s)"
    using ok unfolding grid_ok_def by blast+
  have T: "todo (len (hwy s) - 1) 0 l q" if "driver_at s l q r" for l q r
    using that by (auto simp: todo_def driver_at_def valid_lane_def)
  show ?thesis
    unfolding pass_inv_def using D wfv T by (intro conjI allI impI) (simp_all, blast+)
qed

subsection \<open>Arrivals and the whole tick\<close>

lemma set_cell_Inr_put:
  assumes wf: "wf_highway hw" and r: "set_cell hw l idx v = Inr hw'"
  shows "\<exists>L J. hw' = put_cell hw L J v \<and> valid_lane hw L \<and> 0 \<le> J \<and> J < len hw"
proof -
  from set_cell_Inr [OF r] obtain L J where
    L: "py_index (road hw) l = Inr L" and J: "py_index (road hw ! L) idx = Inr J"
    and h: "hw' = hw\<lparr>road := (road hw)[L := (road hw ! L)[J := v]]\<rparr>" by blast
  have vl: "valid_lane hw (int L)" using py_index_Inr [OF L] by (simp add: valid_lane_def)
  have "J < length (road hw ! L)" using J by (rule py_index_Inr)
  moreover have "int (length (road hw ! L)) = len hw" using wf_row [OF wf vl] by simp
  ultimately have "int J < len hw" by simp
  moreover have "hw' = put_cell hw (int L) (int J) v" using h by (simp add: put_cell_def)
  ultimately show ?thesis using vl by (intro exI [of _ "int L"] exI [of _ "int J"]) simp
qed

lemma driver_at_upd [simp]:
  "driver_at (s\<lparr>draws := n\<rparr>) l q x = driver_at s l q x"
  "driver_at (s\<lparr>num_cars := m\<rparr>) l q x = driver_at s l q x"
  "driver_at (s\<lparr>current_step := c\<rparr>) l q x = driver_at s l q x"
  by (simp_all add: driver_at_def)

lemma grid_ok_upd [simp]:
  "grid_ok (s\<lparr>draws := n\<rparr>) = grid_ok s"
  "grid_ok (s\<lparr>num_cars := m\<rparr>) = grid_ok s"
  "grid_ok (s\<lparr>current_step := c\<rparr>) = grid_ok s"
  by (simp_all add: grid_ok_def)

lemma only_arrivals_refl: "wf_highway_V2 (hwy s) \<Longrightarrow> only_arrivals s s"
  by (simp add: only_arrivals_def)

lemma only_arrivals_upd [simp]:
  "only_arrivals s1 (s\<lparr>draws := n\<rparr>) = only_arrivals s1 s"
  "only_arrivals s1 (s\<lparr>num_cars := m\<rparr>) = only_arrivals s1 s"
  "only_arrivals (s1\<lparr>draws := n\<rparr>) s = only_arrivals s1 s"
  by (simp_all add: only_arrivals_def)

lemma only_arrivals_trans:
  assumes a: "only_arrivals s1 s" and b: "only_arrivals s s'"
  shows "only_arrivals s1 s'"
proof -
  from a have a1: "len (hwy s) = len (hwy s1)" "length (road (hwy s)) = length (road (hwy s1))"
    "next_ref s1 \<le> next_ref s"
    and a2: "\<And>l q x. driver_at s l q x \<Longrightarrow> driver_at s1 l q x \<or> next_ref s1 \<le> x"
    unfolding only_arrivals_def by blast+
  from b have b1: "wf_highway_V2 (hwy s')" "len (hwy s') = len (hwy s)"
    "length (road (hwy s')) = length (road (hwy s))" "next_ref s \<le> next_ref s'"
    and b2: "\<And>l q x. driver_at s' l q x \<Longrightarrow> driver_at s l q x \<or> next_ref s \<le> x"
    unfolding only_arrivals_def by blast+
  have "driver_at s1 l q x \<or> next_ref s1 \<le> x" if "driver_at s' l q x" for l q x
    using b2 [OF that] a2 [of l q x] a1(3) by auto
  then show ?thesis
    unfolding only_arrivals_def using a1 b1 by (intro conjI allI impI) simp_all
qed

lemma new_driver_arrival:
  assumes ok: "grid_ok s"
    and d: "1 \<le> speed d" "0 \<le> safe_follow d" "desire d = CRUISE"
    and r: "new_driver d lane s = Inr s'"
  shows "grid_ok s' \<and> only_arrivals s s'"
proof -
  let ?n = "next_ref s"
  from ok have wfv: "wf_highway_V2 (hwy s)"
    and pr: "\<And>l i x. driver_at s l i x \<Longrightarrow>
        x < next_ref s \<and> 1 \<le> speed (heap s x) \<and> 0 \<le> safe_follow (heap s x) \<and>
        (desire (heap s x) = CRUISE \<or> desire (heap s x) = LANE_CHANGE)"
    and un: "\<And>l i l' i' x. driver_at s l i x \<Longrightarrow> driver_at s l' i' x \<Longrightarrow> l = l' \<and> i = i'"
    unfolding grid_ok_def by blast+
  have wf: "wf_highway (hwy s)" using wfv by (simp add: wf_highway_V2_def)
  from r obtain hw' where
    sc: "set_cell (hwy s) lane 0 (Some ?n) = Inr hw'" and
    s': "hwy s' = hw'" "next_ref s' = Suc ?n" "heap s' = (heap s)(?n := d)"
    by (auto simp: new_driver_def set_road_def ebind_eq_Inr)
  from set_cell_Inr_put [OF wf sc] obtain L J where
    p: "hw' = put_cell (hwy s) L J (Some ?n)" and
    v: "valid_lane (hwy s) L" "0 \<le> J" "J < len (hwy s)" by blast
  have A: "(x = ?n \<and> l = L \<and> q = J) \<or> (driver_at s l q x \<and> \<not> (l = L \<and> q = J))"
    if dd: "driver_at s' l q x" for l q x
  proof -
    from dd have vl: "valid_lane (hwy s) l" "0 \<le> q" "q < len (hwy s)"
      and c: "cell_at (put_cell (hwy s) L J (Some ?n)) l q = Some x"
      by (simp_all add: driver_at_def s' p)
    have "0 \<le> l" using vl(1) by (simp add: valid_lane_def)
    from cell_at_put_cell [OF wf v this vl(2), of "Some ?n"] c
    have "(x = ?n \<and> l = L \<and> q = J) \<or> (cell_at (hwy s) l q = Some x \<and> \<not> (l = L \<and> q = J))"
      by (auto split: if_splits)
    with wf vl show ?thesis by (auto simp: driver_at_def)
  qed
  have wfv': "wf_highway_V2 (hwy s')" using wfv by (simp add: s' p)
  have P: "x < next_ref s' \<and> 1 \<le> speed (heap s' x) \<and> 0 \<le> safe_follow (heap s' x) \<and>
        (desire (heap s' x) = CRUISE \<or> desire (heap s' x) = LANE_CHANGE)"
    if dd: "driver_at s' l q x" for l q x
  proof -
    from A [OF dd] show ?thesis
    proof
      assume "x = ?n \<and> l = L \<and> q = J"
      with d show ?thesis by (simp add: s')
    next
      assume a: "driver_at s l q x \<and> \<not> (l = L \<and> q = J)"
      with pr [of l q x] have "x < ?n" by simp
      with pr [of l q x] a show ?thesis by (simp add: s')
    qed
  qed
  have U: "l = l' \<and> q = q'" if d1: "driver_at s' l q x" and d2: "driver_at s' l' q' x" for l q l' q' x
  proof -
    from A [OF d1] A [OF d2] show ?thesis
    proof (elim disjE)
      assume "x = ?n \<and> l = L \<and> q = J" "x = ?n \<and> l' = L \<and> q' = J"
      then show ?thesis by simp
    next
      assume "x = ?n \<and> l = L \<and> q = J" "driver_at s l' q' x \<and> \<not> (l' = L \<and> q' = J)"
      with pr [of l' q' x] show ?thesis by simp
    next
      assume "driver_at s l q x \<and> \<not> (l = L \<and> q = J)" "x = ?n \<and> l' = L \<and> q' = J"
      with pr [of l q x] show ?thesis by simp
    next
      assume "driver_at s l q x \<and> \<not> (l = L \<and> q = J)" "driver_at s l' q' x \<and> \<not> (l' = L \<and> q' = J)"
      with un show ?thesis by blast
    qed
  qed
  have g: "grid_ok s'"
    unfolding grid_ok_def using wfv' P U by (intro conjI allI impI) blast+
  have "driver_at s l q x \<or> next_ref s \<le> x" if "driver_at s' l q x" for l q x
    using A [OF that] by auto
  then have "only_arrivals s s'"
    unfolding only_arrivals_def using wfv' by (intro conjI allI impI) (simp_all add: s' p)
  with g show ?thesis ..
qed

lemma Driver_props:
  "1 \<le> speed (Driver cid (if b then FAST else SLOW) t h)"
  "0 \<le> safe_follow (Driver cid sp t h)" "desire (Driver cid sp t h) = CRUISE"
  by (simp_all add: Driver_def consts_simps)

lemma gen_lane_V2_arrival:
  assumes ok: "grid_ok s" and r: "gen_lane_V2 rng lane cid s = Inr (cid', s')"
  shows "grid_ok s' \<and> only_arrivals s s'"
proof (cases "rng (draws s) < CAR_PROBABILITY")
  case False
  with r have "s' = s\<lparr>draws := draws s + 1\<rparr>" by (simp add: gen_lane_V2_def Let_def)
  moreover have "wf_highway_V2 (hwy s)" using ok by (simp add: grid_ok_def)
  ultimately show ?thesis using ok by (simp add: only_arrivals_refl)
next
  case True
  let ?t = "s\<lparr>draws := Suc (Suc (Suc (draws s)))\<rparr>"
  let ?d = "Driver cid (if rng (Suc (Suc (draws s))) < FAST_PROBABILITY then FAST else SLOW)
      (current_step s) (rng (Suc (draws s)) < IS_HUMAN_PROBABILITY)"
  from r True have nd: "new_driver ?d lane ?t = Inr s'"
    by (auto simp: gen_lane_V2_def Let_def ebind_eq_Inr)
  have "grid_ok ?t" using ok by simp
  from new_driver_arrival [OF this Driver_props nd] show ?thesis by simp
qed

lemma gen_loop_V2_arrival:
  "grid_ok s \<Longrightarrow> gen_loop_V2 rng lane n cid s = Inr (cid', s') \<Longrightarrow>
   grid_ok s' \<and> only_arrivals s s'"
proof (induction n arbitrary: lane cid s)
  case 0
  then show ?case by (simp add: only_arrivals_refl grid_ok_def)
next
  case (Suc n)
  from Suc.prems(2) obtain c1 t where
    a: "gen_lane_V2 rng lane cid s = Inr (c1, t)" and
    b: "gen_loop_V2 rng (lane + 1) n c1 t = Inr (cid', s')"
    by (auto simp: ebind_eq_Inr)
  from gen_lane_V2_arrival [OF Suc.prems(1) a] have t: "grid_ok t" "only_arrivals s t" by simp_all
  from Suc.IH [OF t(1) b] have "grid_ok s'" "only_arrivals t s'" by simp_all
  with t(2) show ?case by (auto intro: only_arrivals_trans)
qed

lemma grid_ok_pass:
  assumes ok: "grid_ok s0" and inv: "pass_inv s0 (- 1) 0 t"
  shows "grid_ok t"
proof -
  from ok have
    pr: "\<And>l i x. driver_at s0 l i x \<Longrightarrow>
        x < next_ref s0 \<and> 1 \<le> speed (heap s0 x) \<and> 0 \<le> safe_follow (heap s0 x) \<and>
        (desire (heap s0 x) = CRUISE \<or> desire (heap s0 x) = LANE_CHANGE)"
    unfolding grid_ok_def by blast
  from inv have
    sh: "wf_highway_V2 (hwy t)" "next_ref t = next_ref s0"
    and hp: "\<And>x. speed (heap t x) = speed (heap s0 x) \<and>
          safe_follow (heap t x) = safe_follow (heap s0 x) \<and>
          (desire (heap s0 x) = CRUISE \<or> desire (heap s0 x) = LANE_CHANGE \<longrightarrow>
           desire (heap t x) = CRUISE \<or> desire (heap t x) = LANE_CHANGE)"
    and P: "\<And>l q x. driver_at t l q x \<Longrightarrow> \<not> todo (- 1) 0 l q \<Longrightarrow>
        \<exists>l0 q0. driver_at s0 l0 q0 x \<and> q0 < q \<and> q \<le> q0 + speed (heap s0 x) \<and>
           speed (heap s0 x) + q0 < len (hwy s0) - 1"
    and D: "\<And>l q l' q' x. driver_at t l q x \<Longrightarrow> driver_at t l' q' x \<Longrightarrow> l = l' \<and> q = q'"
    unfolding pass_inv_def by blast+
  have nt: "\<not> todo (- 1) 0 l q" if "driver_at t l q x" for l q x
    using that by (auto simp: todo_def driver_at_def)
  have "x < next_ref t \<and> 1 \<le> speed (heap t x) \<and> 0 \<le> safe_follow (heap t x) \<and>
        (desire (heap t x) = CRUISE \<or> desire (heap t x) = LANE_CHANGE)"
    if dd: "driver_at t l q x" for l q x
  proof -
    from P [OF dd nt [OF dd]] obtain l0 q0 where "driver_at s0 l0 q0 x" by blast
    from pr [OF this] hp [of x] sh(2) show ?thesis by simp
  qed
  then show ?thesis
    unfolding grid_ok_def using sh(1) D by (intro conjI allI impI) blast+
qed

text \<open>One call of \<^verbatim>\<open>execute_time_step\<close> from a state with \<open>grid_ok\<close>.\<close>

lemma execute_time_step_V2_parts:
  assumes ok: "grid_ok s" and r: "execute_time_step_V2 rng s = Inr s'"
  shows "\<exists>t. pass_V2 rng (nat (len (hwy s))) s = Inr t \<and> pass_inv s (- 1) 0 t \<and> grid_ok t \<and>
     grid_ok s' \<and> only_arrivals t s'"
proof -
  from r obtain t n s2 where
    p: "pass_V2 rng (nat (len (hwy s))) s = Inr t" and
    g: "gen_new_drivers_V2 rng (num_cars t) t = Inr (n, s2)" and
    e: "s' = s2\<lparr>num_cars := n\<rparr>"
    by (auto simp: execute_time_step_V2_def ebind_eq_Inr)
  have l0: "0 \<le> len (hwy s)" using ok by (simp add: grid_ok_def wf_highway_V2_def wf_highway_def)
  have "pass_inv s (int (nat (len (hwy s))) - 1) 0 s"
    using pass_inv_start [OF ok] l0 by simp
  from pass_V2_inv [OF ok this _ p] l0 have inv: "pass_inv s (- 1) 0 t" by simp
  from grid_ok_pass [OF ok inv] have okt: "grid_ok t" .
  from gen_loop_V2_arrival [OF okt] g have "grid_ok s2 \<and> only_arrivals t s2"
    by (simp add: gen_new_drivers_V2_def)
  with p inv okt e show ?thesis by simp
qed


lemma V2_exit_removes_vehicle:
  assumes ok: "grid_ok s" and r: "execute_time_step_V2 rng s = Inr s'"
    and d: "driver_at s l p x" and ex: "len (hwy s) - 1 \<le> speed (heap s x) + p"
  shows "\<not> driver_at s' l' p' x"
proof
  assume d': "driver_at s' l' p' x"
  from execute_time_step_V2_parts [OF ok r] obtain t where
    inv: "pass_inv s (- 1) 0 t" and oa: "only_arrivals t s'" by blast
  from ok d have "x < next_ref s" unfolding grid_ok_def by blast
  moreover from inv have "next_ref t = next_ref s" unfolding pass_inv_def by blast
  moreover from oa d' have "driver_at t l' p' x \<or> next_ref t \<le> x"
    unfolding only_arrivals_def by blast
  ultimately have dt: "driver_at t l' p' x" by auto
  then have "\<not> todo (- 1) 0 l' p'" by (auto simp: todo_def driver_at_def)
  with inv dt obtain l0 q0 where
    o: "driver_at s l0 q0 x" "speed (heap s x) + q0 < len (hwy s) - 1"
    unfolding pass_inv_def by blast
  from ok o(1) d have "l0 = l \<and> q0 = p" unfolding grid_ok_def by blast
  with o ex show False by simp
qed

lemma V2_entry_cells_empty_after_pass:
  assumes ok: "grid_ok s" and p: "pass_V2 rng (nat (len (hwy s))) s = Inr t"
  shows "\<not> driver_at t l 0 x"
proof
  assume dt: "driver_at t l 0 x"
  have l0: "0 \<le> len (hwy s)" using ok by (simp add: grid_ok_def wf_highway_V2_def wf_highway_def)
  have "pass_inv s (int (nat (len (hwy s))) - 1) 0 s"
    using pass_inv_start [OF ok] l0 by simp
  from pass_V2_inv [OF ok this _ p] l0 have inv: "pass_inv s (- 1) 0 t" by simp
  have "\<not> todo (- 1) 0 l 0" by (simp add: todo_def)
  with inv dt obtain l0 q0 where "driver_at s l0 q0 x" "q0 < 0"
    unfolding pass_inv_def by blast
  then show False by (simp add: driver_at_def)
qed

subsection \<open>The calls of \<^verbatim>\<open>sim_driver\<close> in one tick\<close>







subsection \<open>A run of two ticks\<close>



lemma wf_V2_Simulation [simp]: "wf_highway_V2 (hwy (Simulation_V2 ts))"
  using wf_Highway_V2 [of HIGHWAY_LENGTH NUM_LANES]
  by (simp add: Simulation_V2_def consts_simps)





lemma one_car_V2_hwy2 [simp]: "wf_highway_V2 (hwy one_car_V2)" "length (road (hwy one_car_V2)) = 4"
  by (simp_all add: one_car_V2_def)






end
